theory Spec2Isabelle
  imports Complex_Main "HOL-Library.Log_Nat"
begin

section \<open>Tensors\<close>

text \<open>
  The adapter of \<^verbatim>\<open>lycoris/modules/ia3.py\<close> computes with tensors of the
  tensor library. A tensor is modelled by its logical content: its shape, its
  elements in row-major order and the device it lives on. Elements are exact
  numbers of a commutative ring (the reals in particular); rounding, strides and
  storage sharing are not represented. An operation that the library refuses
  returns an error value.
\<close>

datatype error =
    ValueError string
  | ShapeError
  | IndexError
  | AttributeError

record 'a tensor =
  shape :: "nat list"
  data :: "'a list"
  device :: string

definition bind :: "error + 'a \<Rightarrow> ('a \<Rightarrow> error + 'b) \<Rightarrow> error + 'b" where
  "bind r f = (case r of Inl e \<Rightarrow> Inl e | Inr v \<Rightarrow> f v)"

definition numel :: "nat list \<Rightarrow> nat" where
  "numel s = prod_list s"

definition wf :: "'a tensor \<Rightarrow> bool" where
  "wf t = (length (data t) = numel (shape t))"

text \<open>Row-major addressing: a multi-index and its position in \<open>data\<close>.\<close>

fun ravel :: "nat list \<Rightarrow> nat list \<Rightarrow> nat" where
  "ravel (d # ds) (i # is) = i * prod_list ds + ravel ds is"
| "ravel _ _ = 0"

fun unravel :: "nat list \<Rightarrow> nat \<Rightarrow> nat list" where
  "unravel [] k = []"
| "unravel (d # ds) k = (k div prod_list ds) # unravel ds (k mod prod_list ds)"

definition valid_index :: "nat list \<Rightarrow> nat list \<Rightarrow> bool" where
  "valid_index s idx = list_all2 (\<lambda>i d. i < d) idx s"

definition get :: "'a tensor \<Rightarrow> nat list \<Rightarrow> 'a" where
  "get t idx = data t ! ravel (shape t) idx"

definition tabulate :: "nat list \<Rightarrow> string \<Rightarrow> (nat list \<Rightarrow> 'a) \<Rightarrow> 'a tensor" where
  "tabulate s dv f =
     \<lparr>shape = s, data = map (\<lambda>k. f (unravel s k)) [0..<numel s], device = dv\<rparr>"

text \<open>
  Broadcasting as the tensor library does it: shapes are aligned at their last
  axis, the shorter one is padded with leading 1s, and two sizes are compatible
  when they are equal or one of them is 1. The result of a binary operation is
  placed on the device of the first operand; the two operands are taken to be
  on one device.
\<close>

definition pad :: "nat \<Rightarrow> nat list \<Rightarrow> nat list" where
  "pad n s = replicate (n - length s) 1 @ s"

definition compat :: "nat \<Rightarrow> nat \<Rightarrow> bool" where
  "compat a b = (a = b \<or> a = 1 \<or> b = 1)"

definition bdim :: "nat \<Rightarrow> nat \<Rightarrow> nat" where
  "bdim a b = (if a = 1 then b else a)"

definition broadcast_shapes :: "nat list \<Rightarrow> nat list \<Rightarrow> nat list option" where
  "broadcast_shapes s1 s2 =
     (let n = max (length s1) (length s2); a = pad n s1; b = pad n s2
      in if list_all2 compat a b then Some (map2 bdim a b) else None)"

definition bc_index :: "nat list \<Rightarrow> nat list \<Rightarrow> nat list" where
  "bc_index s idx =
     map2 (\<lambda>d i. if d = 1 then 0 else i) s (drop (length idx - length s) idx)"

definition binop :: "('a \<Rightarrow> 'a \<Rightarrow> 'a) \<Rightarrow> 'a tensor \<Rightarrow> 'a tensor \<Rightarrow> error + 'a tensor" where
  "binop f a b =
     (case broadcast_shapes (shape a) (shape b) of
        None \<Rightarrow> Inl ShapeError
      | Some s \<Rightarrow> Inr (tabulate s (device a)
          (\<lambda>idx. f (get a (bc_index (shape a) idx)) (get b (bc_index (shape b) idx)))))"

text \<open>\<^verbatim>\<open>a * b\<close> and \<^verbatim>\<open>a + b\<close> on two tensors.\<close>

definition tmul :: "'a::{zero,one,plus,times} tensor \<Rightarrow> 'a tensor \<Rightarrow> error + 'a tensor" where
  "tmul = binop (\<lambda>x y. x * y)"

definition tadd :: "'a::{zero,one,plus,times} tensor \<Rightarrow> 'a tensor \<Rightarrow> error + 'a tensor" where
  "tadd = binop (\<lambda>x y. x + y)"

text \<open>\<^verbatim>\<open>t * c\<close> and \<^verbatim>\<open>t + c\<close> with a number \<open>c\<close>.\<close>

definition smul :: "'a::{zero,one,plus,times} tensor \<Rightarrow> 'a \<Rightarrow> 'a tensor" where
  "smul t c = t\<lparr>data := map (\<lambda>v. v * c) (data t)\<rparr>"

definition sadd :: "'a::{zero,one,plus,times} tensor \<Rightarrow> 'a \<Rightarrow> 'a tensor" where
  "sadd t c = t\<lparr>data := map (\<lambda>v. v + c) (data t)\<rparr>"

text \<open>
  \<^verbatim>\<open>t.transpose(0, 1)\<close>: axes 0 and 1 change places; a tensor with fewer than
  two axes has no axis 1.
\<close>

fun swap01 :: "nat list \<Rightarrow> nat list" where
  "swap01 (a # b # r) = b # a # r"
| "swap01 xs = xs"

definition transpose01 :: "'a tensor \<Rightarrow> error + 'a tensor" where
  "transpose01 t =
     (if length (shape t) < 2 then Inl IndexError
      else Inr (tabulate (swap01 (shape t)) (device t) (\<lambda>idx. get t (swap01 idx))))"

text \<open>
  \<^verbatim>\<open>t.view(shape)\<close> keeps the elements in row-major order under a new shape
  with the same number of elements, a shape being a list of sizes;
  \<^verbatim>\<open>t.to(device)\<close> gives the same tensor on another device.
\<close>

definition view :: "'a tensor \<Rightarrow> nat list \<Rightarrow> error + 'a tensor" where
  "view t s = (if numel s = length (data t) then Inr (t\<lparr>shape := s\<rparr>) else Inl ShapeError)"

definition to :: "'a tensor \<Rightarrow> string \<Rightarrow> 'a tensor" where
  "to t dv = t\<lparr>device := dv\<rparr>"

definition zeros :: "nat list \<Rightarrow> string \<Rightarrow> 'a::{zero,one,plus,times} tensor" where
  "zeros s dv = \<lparr>shape = s, data = replicate (numel s) 0, device = dv\<rparr>"

section \<open>The wrapped layer\<close>

text \<open>
  The layer an adapter wraps: a fully connected layer, an \<open>n\<close>-dimensional
  convolution with its attributes, or a layer of any other class, for which only
  the kind name given by the base class is kept. The weight of a convolution
  has the shape \<open>out_channels # (in_channels div groups) # kernel_size\<close>.
\<close>

datatype padding_mode = Zeros | Reflect | Replicate | Circular

datatype 'a layer =
    Linear nat nat "'a tensor" "'a tensor option"
  | Conv nat nat nat "nat list" "nat list" "nat list" nat "'a tensor" "'a tensor option"
      padding_mode
  | Other string

text \<open>
  Attribute reads on the wrapped layer as \<^verbatim>\<open>__init__\<close> and \<^verbatim>\<open>forward\<close>
  make them; an attribute the layer's class does not have raises.
  \<open>Linear in_features out_features weight bias\<close> and
  \<open>Conv n in_channels out_channels stride padding dilation groups weight bias
  padding_mode\<close>.
\<close>

fun layer_weight :: "'a layer \<Rightarrow> error + 'a tensor" where
  "layer_weight (Linear i oo w b) = Inr w"
| "layer_weight (Conv n i oo st pd dl g w b pm) = Inr w"
| "layer_weight (Other nm) = Inl AttributeError"

fun layer_bias :: "'a layer \<Rightarrow> error + 'a tensor option" where
  "layer_bias (Linear i oo w b) = Inr b"
| "layer_bias (Conv n i oo st pd dl g w b pm) = Inr b"
| "layer_bias (Other nm) = Inl AttributeError"

fun in_features :: "'a layer \<Rightarrow> error + nat" where
  "in_features (Linear i oo w b) = Inr i"
| "in_features _ = Inl AttributeError"

fun out_features :: "'a layer \<Rightarrow> error + nat" where
  "out_features (Linear i oo w b) = Inr oo"
| "out_features _ = Inl AttributeError"

fun in_channels :: "'a layer \<Rightarrow> error + nat" where
  "in_channels (Conv n i oo st pd dl g w b pm) = Inr i"
| "in_channels _ = Inl AttributeError"

fun out_channels :: "'a layer \<Rightarrow> error + nat" where
  "out_channels (Conv n i oo st pd dl g w b pm) = Inr oo"
| "out_channels _ = Inl AttributeError"

text \<open>
  Modelled from the spec: the base class's classification of the wrapped layer
  (\<^verbatim>\<open>self.module_type\<close>, set by \<^verbatim>\<open>LycorisBaseModule.__init__\<close>, which
  is not part of the file): linear, 1D/2D/3D convolution, or another kind.
\<close>

fun module_type_of :: "'a layer \<Rightarrow> string" where
  "module_type_of (Linear i oo w b) = ''linear''"
| "module_type_of (Conv n i oo st pd dl g w b pm) =
     (if n = 1 then ''conv1d'' else if n = 2 then ''conv2d''
      else if n = 3 then ''conv3d'' else ''unknown'')"
| "module_type_of (Other nm) = nm"

section \<open>The operators of the tensor library\<close>

text \<open>
  The sum of a list of elements, added in index order. The library fixes no
  order for the sums of its operators; statements about them are made for exact
  arithmetic, where the order does not matter.
\<close>

definition tsum :: "'a::{zero,plus} list \<Rightarrow> 'a" where
  "tsum xs = foldr (+) xs 0"

text \<open>
  \<^verbatim>\<open>F.linear(x, W, b)\<close>: \<open>x\<close> of shape \<open>(\<dots>, I)\<close>, \<open>W\<close> of shape \<open>(O, I)\<close>,
  the result of shape \<open>(\<dots>, O)\<close> with
  \<open>out[\<dots>, o] = (\<Sum>i. x[\<dots>, i] * W[o, i]) + b[o]\<close>.
\<close>

definition F_linear ::
  "'a::{zero,one,plus,times} tensor \<Rightarrow> 'a tensor \<Rightarrow> 'a tensor option \<Rightarrow> error + 'a tensor" where
  "F_linear x W b =
     (case shape W of
        [co, ci] \<Rightarrow>
          if shape x = [] \<or> last (shape x) \<noteq> ci then Inl ShapeError
          else if (case b of None \<Rightarrow> False | Some bt \<Rightarrow> shape bt \<noteq> [co]) then Inl ShapeError
          else Inr (tabulate (butlast (shape x) @ [co]) (device x)
            (\<lambda>idx. tsum (map (\<lambda>i. get x (butlast idx @ [i]) * get W [last idx, i]) [0..<ci])
                    + (case b of None \<Rightarrow> 0 | Some bt \<Rightarrow> get bt [last idx])))
      | _ \<Rightarrow> Inl ShapeError)"

text \<open>
  \<^verbatim>\<open>F.conv1d\<close>, \<^verbatim>\<open>F.conv2d\<close>, \<^verbatim>\<open>F.conv3d\<close> with zero padding: the input
  \<open>(N, C, i\<^sub>1, \<dots>, i\<^sub>n)\<close>, the weight \<open>(O, C div groups, k\<^sub>1, \<dots>, k\<^sub>n)\<close>.
  Output channel \<open>o\<close> reads the input channels of its own group.
  \<open>padded_get\<close> reads the zero-padded input, \<open>conv_check\<close> is the shape
  check of the operator and \<open>conv_elem\<close> one element of its result.
\<close>

definition out_size :: "nat \<Rightarrow> nat \<Rightarrow> nat \<Rightarrow> nat \<Rightarrow> nat \<Rightarrow> nat" where
  "out_size i k st pd dl = (i + 2 * pd - dl * (k - 1) - 1) div st + 1"

definition padded_get :: "'a::{zero,one,plus,times} tensor \<Rightarrow> nat list \<Rightarrow> nat \<Rightarrow> nat \<Rightarrow> nat list \<Rightarrow> 'a" where
  "padded_get x pd b c q =
     (let isp = drop 2 (shape x) in
      if list_all (\<lambda>j. pd ! j \<le> q ! j \<and> q ! j - pd ! j < isp ! j) [0..<length isp]
      then get x (b # c # map (\<lambda>j. q ! j - pd ! j) [0..<length isp])
      else 0)"

definition conv_check ::
  "nat \<Rightarrow> nat \<Rightarrow> nat list \<Rightarrow> nat \<Rightarrow> nat \<Rightarrow> nat list \<Rightarrow>
   nat list \<Rightarrow> nat list \<Rightarrow> nat list \<Rightarrow> nat \<Rightarrow> 'a tensor option \<Rightarrow> bool" where
  "conv_check n c isp co cg ks st pd dl g b =
     (length isp = n \<and> length ks = n \<and> length st = n \<and> length pd = n \<and> length dl = n
      \<and> g \<noteq> 0 \<and> c = cg * g \<and> co mod g = 0
      \<and> list_all (\<lambda>j. 0 < st ! j \<and> dl ! j * (ks ! j - 1) + 1 \<le> isp ! j + 2 * pd ! j) [0..<n]
      \<and> (case b of None \<Rightarrow> True | Some bt \<Rightarrow> shape bt = [co]))"

definition conv_elem ::
  "nat \<Rightarrow> 'a::{zero,one,plus,times} tensor \<Rightarrow> 'a tensor \<Rightarrow> 'a tensor option \<Rightarrow>
   nat list \<Rightarrow> nat list \<Rightarrow> nat list \<Rightarrow> nat \<Rightarrow> nat list \<Rightarrow> 'a" where
  "conv_elem n x W b st pd dl g idx =
     (let co = shape W ! 0; cg = shape W ! 1; ks = drop 2 (shape W) in
      tsum (map (\<lambda>k. tsum (map (\<lambda>kidx.
          padded_get x pd (hd idx) (hd (tl idx) div (co div g) * cg + k)
            (map (\<lambda>j. drop 2 idx ! j * st ! j + kidx ! j * dl ! j) [0..<n])
          * get W (hd (tl idx) # k # kidx))
        (map (unravel ks) [0..<numel ks]))) [0..<cg])
      + (case b of None \<Rightarrow> 0 | Some bt \<Rightarrow> get bt [hd (tl idx)]))"

definition conv_batched ::
  "nat \<Rightarrow> 'a::{zero,one,plus,times} tensor \<Rightarrow> 'a tensor \<Rightarrow> 'a tensor option \<Rightarrow>
   nat list \<Rightarrow> nat list \<Rightarrow> nat list \<Rightarrow> nat \<Rightarrow> error + 'a tensor" where
  "conv_batched n x W b st pd dl g =
     (case (shape x, shape W) of
        (nb # c # isp, co # cg # ks) \<Rightarrow>
          if \<not> conv_check n c isp co cg ks st pd dl g b then Inl ShapeError
          else Inr (tabulate
            (nb # co # map (\<lambda>j. out_size (isp ! j) (ks ! j) (st ! j) (pd ! j) (dl ! j)) [0..<n])
            (device x) (conv_elem n x W b st pd dl g))
      | _ \<Rightarrow> Inl ShapeError)"

text \<open>An input without the batch axis is given one, and the result loses it again.\<close>

definition F_conv ::
  "nat \<Rightarrow> 'a::{zero,one,plus,times} tensor \<Rightarrow> 'a tensor \<Rightarrow> 'a tensor option \<Rightarrow>
   nat list \<Rightarrow> nat list \<Rightarrow> nat list \<Rightarrow> nat \<Rightarrow> error + 'a tensor" where
  "F_conv n x W b st pd dl g =
     (if length (shape x) = n + 1
      then bind (conv_batched n (x\<lparr>shape := 1 # shape x\<rparr>) W b st pd dl g)
             (\<lambda>out. Inr (out\<lparr>shape := tl (shape out)\<rparr>))
      else conv_batched n x W b st pd dl g)"

text \<open>
  \<^verbatim>\<open>F.pad(x, pad, mode)\<close> for the modes other than constant padding, as a
  convolution layer calls it: the last \<open>n\<close> axes grow by \<open>pd ! j\<close> on both
  sides. \<open>pad_src pm p len q\<close> is the position of the input that position \<open>q\<close>
  of the padded axis reads. Circular padding may not wrap around more than once,
  reflection needs a padding smaller than the axis.
\<close>

fun pad_src :: "padding_mode \<Rightarrow> nat \<Rightarrow> nat \<Rightarrow> nat \<Rightarrow> nat" where
  "pad_src Circular p len q = (q + len - p) mod len"
| "pad_src Reflect p len q =
     (if q < p then p - q else if q - p < len then q - p else 2 * (len - 1) - (q - p))"
| "pad_src Replicate p len q = (if q < p then 0 else min (q - p) (len - 1))"
| "pad_src Zeros p len q = q - p"

definition F_pad :: "padding_mode \<Rightarrow> nat list \<Rightarrow> nat \<Rightarrow> 'a tensor \<Rightarrow> error + 'a tensor" where
  "F_pad pm pd n x =
     (let r = length (shape x) - n; isp = drop r (shape x) in
      if pm = Zeros then Inl (ValueError ''Unrecognised padding mode zeros'')
      else if length pd \<noteq> n \<or> (length (shape x) \<noteq> n + 1 \<and> length (shape x) \<noteq> n + 2)
      then Inl ShapeError
      else if pm = Circular \<and> \<not> list_all (\<lambda>j. pd ! j \<le> isp ! j) [0..<n] then Inl ShapeError
      else if pm = Reflect \<and> \<not> list_all (\<lambda>j. pd ! j < isp ! j) [0..<n] then Inl ShapeError
      else if pm = Replicate \<and> \<not> list_all (\<lambda>j. 0 < isp ! j \<or> pd ! j = 0) [0..<n]
      then Inl ShapeError
      else Inr (tabulate (take r (shape x) @ map (\<lambda>j. isp ! j + 2 * pd ! j) [0..<n]) (device x)
        (\<lambda>idx. get x (take r idx @
           map (\<lambda>j. pad_src pm (pd ! j) (isp ! j) (drop r idx ! j)) [0..<n]))))"

text \<open>
  The wrapped layer's own forward function, as the tensor library defines it for
  its linear and convolution layers. A convolution layer whose padding mode is
  not \<^verbatim>\<open>zeros\<close> pads its input with \<^verbatim>\<open>F.pad\<close> and convolves the padded
  input with padding 0; with \<^verbatim>\<open>zeros\<close> the operator pads. The forward
  function of a layer of another class is not described: no adapter is
  constructed on one.
\<close>

fun layer_forward :: "'a::{zero,one,plus,times} layer \<Rightarrow> 'a tensor \<Rightarrow> error + 'a tensor" where
  "layer_forward (Linear i oo w b) x = F_linear x w b"
| "layer_forward (Conv n i oo st pd dl g w b pm) x =
     (if pm = Zeros then F_conv n x w b st pd dl g
      else bind (F_pad pm pd n x) (\<lambda>xp. F_conv n xp w b st (replicate n 0) dl g))"
| "layer_forward (Other nm) x = Inl AttributeError"

section \<open>The adapter\<close>

text \<open>
  The attributes the base class \<^verbatim>\<open>LycorisBaseModule\<close> keeps and the file
  reads, and the attributes \<^verbatim>\<open>IA3Module\<close> adds; \<open>weight\<close> is the learnable
  scale vector.
\<close>

record 'a LycorisBaseModule =
  lora_name :: string
  org_module :: "'a layer"
  org_forward :: "'a tensor \<Rightarrow> error + 'a tensor"
  module_type :: string
  multiplier :: 'a
  module_dropout :: real
  bypass_mode :: bool
  training :: bool

record 'a IA3Module = "'a LycorisBaseModule" +
  lora_dim :: int
  tucker :: bool
  rs_lora :: bool
  module_shape :: "nat list"
  isconv :: bool
  weight :: "'a tensor"
  train_input :: bool
  on_input :: int

text \<open>
  Modelled from the spec: \<^verbatim>\<open>LycorisBaseModule.__init__\<close>, which is not part
  of the file. It records the name, the wrapped layer, the layer's kind and its
  forward function, the multiplier, the module dropout and the bypass flag; a
  new module is in training mode.
\<close>

definition base_init ::
  "string \<Rightarrow> 'a::{zero,one,plus,times} layer \<Rightarrow> 'a \<Rightarrow> real \<Rightarrow> bool \<Rightarrow> 'a LycorisBaseModule" where
  "base_init nm org mult mdrop bypass =
     \<lparr>lora_name = nm,
      org_module = org,
      org_forward = layer_forward org,
      module_type = module_type_of org,
      multiplier = mult,
      module_dropout = mdrop,
      bypass_mode = bypass,
      training = True\<rparr>"

definition support_module :: "string set" where
  "support_module = {''linear'', ''conv1d'', ''conv2d'', ''conv3d''}"

definition startswith :: "string \<Rightarrow> string \<Rightarrow> bool" where
  "startswith s p = (take (length p) s = p)"

text \<open>
  \<^verbatim>\<open>IA3Module.__init__\<close>. The arguments \<^verbatim>\<open>alpha\<close>, \<^verbatim>\<open>dropout\<close>,
  \<^verbatim>\<open>rank_dropout\<close>, \<^verbatim>\<open>use_tucker\<close>, \<^verbatim>\<open>use_scalar\<close>,
  \<^verbatim>\<open>rank_dropout_scale\<close> and \<^verbatim>\<open>weight_decompose\<close> are accepted and not
  used by this class. The scale vector is created by \<^verbatim>\<open>torch.empty\<close> on the
  default device and filled with 0. The source sets \<open>isconv\<close> in the
  convolution branch only; the model gives it the value \<open>False\<close> otherwise.
\<close>

definition IA3Module_init ::
  "string \<Rightarrow> 'a::{zero,one,plus,times} layer \<Rightarrow> 'a \<Rightarrow> int \<Rightarrow> real \<Rightarrow> bool \<Rightarrow> bool \<Rightarrow> bool
   \<Rightarrow> error + 'a IA3Module" where
  "IA3Module_init nm org mult ldim mdrop bypass rs train_on_input =
     (let base = base_init nm org mult mdrop bypass in
      if module_type base \<notin> support_module
      then Inl (ValueError (module_type base @ '' is not supported in IA^3 algo.''))
      else
        bind (layer_weight org) (\<lambda>w.
        bind (if startswith (module_type base) ''conv''
              then in_channels org else in_features org) (\<lambda>in_dim.
        bind (if startswith (module_type base) ''conv''
              then out_channels org else out_features org) (\<lambda>out_dim.
          let train_dim = (if train_on_input then in_dim else out_dim) in
          Inr \<lparr>lora_name = lora_name base,
               org_module = org_module base,
               org_forward = org_forward base,
               module_type = module_type base,
               multiplier = mult,
               module_dropout = module_dropout base,
               bypass_mode = bypass_mode base,
               training = training base,
               lora_dim = ldim,
               tucker = False,
               rs_lora = rs,
               module_shape = shape w,
               isconv = startswith (module_type base) ''conv'',
               weight = (if startswith (module_type base) ''conv''
                         then zeros (1 # train_dim # map (\<lambda>_. 1) (drop 2 (shape w))) ''cpu''
                         else zeros [train_dim] ''cpu''),
               train_input = train_on_input,
               on_input = (if train_on_input then 1 else 0)\<rparr>))))"

text \<open>\<^verbatim>\<open>self.org_weight\<close>: the weight tensor of the wrapped layer.\<close>

definition org_weight :: "'a IA3Module \<Rightarrow> error + 'a tensor" where
  "org_weight ad = layer_weight (org_module ad)"

text \<open>
  \<^verbatim>\<open>make_weight(multiplier, shape, device, diff)\<close>; \<open>None\<close> for an argument
  left at its default.
\<close>

definition make_weight ::
  "'a::{zero,one,plus,times} IA3Module \<Rightarrow> 'a \<Rightarrow> nat list option \<Rightarrow> string option \<Rightarrow> bool
   \<Rightarrow> error + 'a tensor" where
  "make_weight ad mult shp dev diff =
     (let w = sadd (smul (weight ad) mult) (if diff then 0 else 1) in
      bind (org_weight ad) (\<lambda>ow.
      bind (if train_input ad then tmul ow w
            else bind (transpose01 ow) (\<lambda>owt. bind (tmul owt w) transpose01)) (\<lambda>d.
      bind (case shp of None \<Rightarrow> Inr d | Some s \<Rightarrow> view d s) (\<lambda>d.
      Inr (case dev of None \<Rightarrow> d | Some dv \<Rightarrow> to d dv)))))"

text \<open>Both entry points return the tensor and the placeholder \<^verbatim>\<open>None\<close>.\<close>

definition get_diff_weight ::
  "'a::{zero,one,plus,times} IA3Module \<Rightarrow> 'a \<Rightarrow> nat list option \<Rightarrow> string option
   \<Rightarrow> error + ('a tensor \<times> 'a tensor option)" where
  "get_diff_weight ad mult shp dev =
     bind (make_weight ad mult shp dev True) (\<lambda>d. Inr (d, None))"

definition get_merged_weight ::
  "'a::{zero,one,plus,times} IA3Module \<Rightarrow> 'a \<Rightarrow> nat list option \<Rightarrow> string option
   \<Rightarrow> error + ('a tensor \<times> 'a tensor option)" where
  "get_merged_weight ad mult shp dev =
     bind (make_weight ad mult shp dev False) (\<lambda>d. Inr (d, None))"

text \<open>
  A call of an entry point as a transition of the adapter object: what the call
  returns, and the adapter after the call. The two methods and
  \<^verbatim>\<open>make_weight\<close> assign to no attribute of \<^verbatim>\<open>self\<close> and apply no
  in-place operation to a tensor of the adapter or of the wrapped layer; every
  tensor they compute is a new one.
\<close>

definition call_get_diff_weight ::
  "'a::{zero,one,plus,times} IA3Module \<Rightarrow> 'a \<Rightarrow> nat list option \<Rightarrow> string option
   \<Rightarrow> (error + ('a tensor \<times> 'a tensor option)) \<times> 'a IA3Module" where
  "call_get_diff_weight ad mult shp dev = (get_diff_weight ad mult shp dev, ad)"

definition call_get_merged_weight ::
  "'a::{zero,one,plus,times} IA3Module \<Rightarrow> 'a \<Rightarrow> nat list option \<Rightarrow> string option
   \<Rightarrow> (error + ('a tensor \<times> 'a tensor option)) \<times> 'a IA3Module" where
  "call_get_merged_weight ad mult shp dev = (get_merged_weight ad mult shp dev, ad)"

text \<open>
  \<^verbatim>\<open>_bypass_forward(x, scale, diff)\<close> and the two methods that call it.
\<close>

definition bypass_forward_aux ::
  "'a::{zero,one,plus,times} IA3Module \<Rightarrow> 'a tensor \<Rightarrow> 'a \<Rightarrow> bool \<Rightarrow> error + 'a tensor" where
  "bypass_forward_aux ad x scale diff =
     (let w = sadd (smul (weight ad) scale) (if diff then 0 else 1) in
      bind (if train_input ad then tmul x w else Inr x) (\<lambda>x.
      bind (org_forward ad x) (\<lambda>out.
      if \<not> train_input ad then tmul out w else Inr out)))"

definition bypass_forward_diff ::
  "'a::{zero,one,plus,times} IA3Module \<Rightarrow> 'a tensor \<Rightarrow> 'a \<Rightarrow> error + 'a tensor" where
  "bypass_forward_diff ad x scale = bypass_forward_aux ad x scale True"

definition bypass_forward ::
  "'a::{zero,one,plus,times} IA3Module \<Rightarrow> 'a tensor \<Rightarrow> 'a \<Rightarrow> error + 'a tensor" where
  "bypass_forward ad x scale = bypass_forward_aux ad x scale False"

text \<open>
  Modelled from the spec: \<^verbatim>\<open>self.op\<close> with \<^verbatim>\<open>self.kw_dict\<close>, the operator
  the base class selects for the wrapped layer's kind, with the stride, padding,
  dilation and groups captured from a convolution. The padding mode of the
  layer is not among them: the operator pads with zeros.
\<close>

fun op :: "'a::{zero,one,plus,times} layer \<Rightarrow> 'a tensor \<Rightarrow> 'a tensor \<Rightarrow> 'a tensor option \<Rightarrow> error + 'a tensor" where
  "op (Linear i oo w b) x wt bias = F_linear x wt bias"
| "op (Conv n i oo st pd dl g w b pm) x wt bias = F_conv n x wt bias st pd dl g"
| "op (Other nm) x wt bias = Inl AttributeError"

text \<open>
  \<^verbatim>\<open>forward\<close>. The value \<open>r\<close> is what \<^verbatim>\<open>torch.rand(1)\<close> returns when it is
  drawn. The function returns from one of three \<^verbatim>\<open>return\<close> statements; the
  model gives the statement it returns from together with the value returned:
  \<open>Skip\<close> is \<^verbatim>\<open>return self.org_forward(x)\<close>, \<open>Bypass\<close> is
  \<^verbatim>\<open>return self.bypass_forward(x, self.multiplier)\<close>, \<open>Merged\<close> is
  \<^verbatim>\<open>return self.op(x, weight, bias, **self.kw_dict)\<close>.
\<close>

datatype path = Skip | Bypass | Merged

definition forward ::
  "'a::{zero,one,plus,times} IA3Module \<Rightarrow> real \<Rightarrow> 'a tensor \<Rightarrow> path \<times> (error + 'a tensor)" where
  "forward ad r x =
     (if (module_dropout ad \<noteq> 0 \<and> training ad) \<and> r < module_dropout ad
      then (Skip, org_forward ad x)
      else if bypass_mode ad
      then (Bypass, bypass_forward ad x (multiplier ad))
      else (Merged,
          bind (get_merged_weight ad (multiplier ad) None None) (\<lambda>res.
          bind (layer_bias (org_module ad)) (\<lambda>bias.
          op (org_module ad) x (fst res) bias))))"

section \<open>Well-formed layers and fitted adapters\<close>

text \<open>
  What the tensor library guarantees of a layer it has built: the weight of a
  linear layer has the shape \<open>[out_features, in_features]\<close>, the weight of an
  \<open>n\<close>-dimensional convolution (\<open>n\<close> from 1 to 3) has \<open>n + 2\<close> axes, the first
  two being \<open>out_channels\<close> and \<open>in_channels div groups\<close>, a bias has one entry
  per output channel, and every tensor holds as many elements as its shape says.
  A layer of another class is not classified as one of the supported kinds.
\<close>

definition wf_bias :: "nat \<Rightarrow> 'a tensor option \<Rightarrow> bool" where
  "wf_bias oo b = (case b of None \<Rightarrow> True | Some bt \<Rightarrow> shape bt = [oo] \<and> wf bt)"

fun wf_layer :: "'a layer \<Rightarrow> bool" where
  "wf_layer (Linear i oo w b) = (shape w = [oo, i] \<and> wf w \<and> wf_bias oo b)"
| "wf_layer (Conv n i oo st pd dl g w b pm) =
     (1 \<le> n \<and> n \<le> 3 \<and> 0 < g \<and> i mod g = 0 \<and> oo mod g = 0
      \<and> length (shape w) = n + 2 \<and> take 2 (shape w) = [oo, i div g] \<and> wf w
      \<and> length st = n \<and> length pd = n \<and> length dl = n \<and> wf_bias oo b)"
| "wf_layer (Other nm) = (nm \<notin> support_module)"

text \<open>
  The shape \<^verbatim>\<open>__init__\<close> gives the scale vector, and the adapters that have
  it: a fitted adapter wraps a well-formed layer of a supported kind and its
  scale vector has that shape, whatever values training has put into it.
\<close>

fun scale_shape :: "'a layer \<Rightarrow> bool \<Rightarrow> nat list" where
  "scale_shape (Linear i oo w b) ti = [if ti then i else oo]"
| "scale_shape (Conv n i oo st pd dl g w b pm) ti = 1 # (if ti then i else oo) # replicate n 1"
| "scale_shape (Other nm) ti = []"

definition fitted :: "'a IA3Module \<Rightarrow> bool" where
  "fitted ad =
     (wf_layer (org_module ad) \<and> module_type_of (org_module ad) \<in> support_module
      \<and> shape (weight ad) = scale_shape (org_module ad) (train_input ad) \<and> wf (weight ad))"

text \<open>An optimizer step replaces the values of the scale vector.\<close>

definition with_scale :: "'a IA3Module \<Rightarrow> 'a list \<Rightarrow> 'a IA3Module" where
  "with_scale ad vs = ad\<lparr>weight := (weight ad)\<lparr>data := vs\<rparr>\<rparr>"

text \<open>
  The position in the scale vector of channel \<open>k\<close>, the layers whose weight has
  all input channels on axis 1, and the wrapped weight scaled along one channel
  axis: axis 1 (input channels) when the adapter scales the input, axis 0
  (output channels) otherwise.
\<close>

fun chan_index :: "'a layer \<Rightarrow> nat \<Rightarrow> nat list" where
  "chan_index (Linear i oo w b) k = [k]"
| "chan_index (Conv n i oo st pd dl g w b pm) k = 0 # k # replicate n 0"
| "chan_index (Other nm) k = []"

fun ungrouped :: "'a layer \<Rightarrow> bool" where
  "ungrouped (Linear i oo w b) = True"
| "ungrouped (Conv n i oo st pd dl g w b pm) = (g = 1)"
| "ungrouped (Other nm) = False"

text \<open>An input with the batch axis the scale vector of a convolution is shaped for.\<close>

fun batched :: "'a layer \<Rightarrow> 'a tensor \<Rightarrow> bool" where
  "batched (Linear i oo w b) x = True"
| "batched (Conv n i oo st pd dl g w b pm) x = (length (shape x) = n + 2)"
| "batched (Other nm) x = False"

text \<open>A layer whose own forward pads with zeros, as the operator does.\<close>

fun zero_padded :: "'a layer \<Rightarrow> bool" where
  "zero_padded (Conv n i oo st pd dl g w b pm) = (pm = Zeros)"
| "zero_padded (Linear i oo w b) = True"
| "zero_padded (Other nm) = True"

definition scaled :: "'a::{zero,one,plus,times} IA3Module \<Rightarrow> 'a tensor \<Rightarrow> 'a \<Rightarrow> bool \<Rightarrow> 'a tensor" where
  "scaled ad ow m diff =
     tabulate (shape ow) (device ow)
       (\<lambda>idx. get ow idx *
          (get (weight ad) (chan_index (org_module ad) (idx ! (if train_input ad then 1 else 0))) * m
           + (if diff then 0 else 1)))"

section \<open>Single-precision elements\<close>

text \<open>
  \<^verbatim>\<open>torch.empty\<close> creates the scale vector in the default element type,
  \<^verbatim>\<open>float32\<close>, which is also the element type of the layers of the tensor
  library unless a model is converted. \<open>f32\<close> is that type, IEEE 754 binary32:
  a finite value, an infinity with its sign (\<open>True\<close> for the negative one), or
  NaN. The two zeros are one value: they compare equal, and the adapter divides
  nowhere. An operation returns the exact result rounded to the nearest
  representable value, a tie going to the even significand. \<open>expo a\<close> is
  \<open>\<lfloor>log\<^sub>2 a\<rfloor>\<close>; the spacing of the representable values around \<open>x\<close> is
  \<open>2\<^sup>e\<^sup>-\<^sup>2\<^sup>3\<close> for \<open>e = expo \<bar>x\<bar>\<close>, and not less than \<open>2\<^sup>-\<^sup>1\<^sup>4\<^sup>9\<close> (subnormal
  values); a rounded value of magnitude \<open>2\<^sup>1\<^sup>2\<^sup>8\<close> or more overflows to an infinity.
  A multiplier or scale given as a Python number is converted to the element
  type before the operation, so the model takes it as an element.
\<close>

definition expo :: "rat \<Rightarrow> int" where
  "expo a = (if 1 \<le> a then bitlen \<lfloor>a\<rfloor> - 1 else - bitlen (\<lceil>1 / a\<rceil> - 1))"

definition round_even :: "rat \<Rightarrow> int" where
  "round_even q = (let f = \<lfloor>q\<rfloor>; d = q - of_int f in
     if d < 1 / 2 then f else if 1 / 2 < d then f + 1 else if even f then f else f + 1)"

definition round32 :: "rat \<Rightarrow> rat" where
  "round32 x = (if x = 0 then 0 else
     let e = max (expo \<bar>x\<bar>) (- 126); ulp = 2 powi (e - 23) in
     of_int (round_even (x / ulp)) * ulp)"

datatype f32 = Finite rat | Inf bool | NaN

definition rnd :: "rat \<Rightarrow> f32" where
  "rnd x = (let r = round32 x in if 2 ^ 128 \<le> \<bar>r\<bar> then Inf (r < 0) else Finite r)"

fun f32_add :: "f32 \<Rightarrow> f32 \<Rightarrow> f32" where
  "f32_add (Finite x) (Finite y) = rnd (x + y)"
| "f32_add (Finite x) (Inf b) = Inf b"
| "f32_add (Inf a) (Finite y) = Inf a"
| "f32_add (Inf a) (Inf b) = (if a = b then Inf a else NaN)"
| "f32_add NaN y = NaN"
| "f32_add x NaN = NaN"

fun f32_mul :: "f32 \<Rightarrow> f32 \<Rightarrow> f32" where
  "f32_mul (Finite x) (Finite y) = rnd (x * y)"
| "f32_mul (Finite x) (Inf b) = (if x = 0 then NaN else Inf (b \<noteq> (x < 0)))"
| "f32_mul (Inf a) (Finite y) = (if y = 0 then NaN else Inf (a \<noteq> (y < 0)))"
| "f32_mul (Inf a) (Inf b) = Inf (a \<noteq> b)"
| "f32_mul NaN y = NaN"
| "f32_mul x NaN = NaN"

instantiation f32 :: "{zero,one,plus,times}"
begin

definition zero_f32 :: f32 where
  "zero_f32 = Finite 0"

definition one_f32 :: f32 where
  "one_f32 = Finite 1"

definition plus_f32 :: "f32 \<Rightarrow> f32 \<Rightarrow> f32" where
  "plus_f32 = f32_add"

definition times_f32 :: "f32 \<Rightarrow> f32 \<Rightarrow> f32" where
  "times_f32 = f32_mul"

instance ..

end

text \<open>
  Two single-precision results \<open>a\<close> and \<open>b\<close> computed from a weight element \<open>w\<close>
  and a product \<open>p\<close> of scale entry and multiplier are close when both are
  finite and differ by at most \<open>tol w p\<close>: eight rounding errors relative to
  \<open>\<bar>w\<bar> * (\<bar>p\<bar> + 1)\<close>, the magnitude of the terms, and eight absolute errors
  of the subnormal range. Nothing is said of a result that is infinite or NaN.
\<close>

definition tol :: "rat \<Rightarrow> rat \<Rightarrow> rat" where
  "tol w p = \<bar>w\<bar> * (\<bar>p\<bar> + 1) / 2 ^ 21 + (\<bar>w\<bar> + 1) / 2 ^ 147"

fun close32 :: "f32 \<Rightarrow> f32 \<Rightarrow> f32 \<Rightarrow> f32 \<Rightarrow> bool" where
  "close32 (Finite w) (Finite p) (Finite a) (Finite b) = (\<bar>a - b\<bar> \<le> tol w p)"
| "close32 w p (Finite a) (Finite b) = False"
| "close32 w p a b = True"

section \<open>Examples\<close>

text \<open>Layers and adapters for concrete instances of the theorems.\<close>

definition example_linear :: "int layer" where
  "example_linear =
     Linear 3 2 \<lparr>shape = [2, 3], data = [1, 2, 3, 4, 5, 6], device = ''cpu''\<rparr> None"

definition example_conv :: "int layer" where
  "example_conv =
     Conv 1 2 2 [1] [0] [1] 1
       \<lparr>shape = [2, 2, 2], data = [1, 2, 3, 4, 5, 6, 7, 8], device = ''cpu''\<rparr> None Zeros"

definition grouped_conv :: "int layer" where
  "grouped_conv =
     Conv 1 4 4 [1] [0] [1] 2
       \<lparr>shape = [4, 2, 1], data = [1, 2, 3, 4, 5, 6, 7, 8], device = ''cpu''\<rparr> None Zeros"

definition biased_linear :: "int layer" where
  "biased_linear =
     Linear 1 1 \<lparr>shape = [1, 1], data = [1], device = ''cpu''\<rparr>
       (Some \<lparr>shape = [1], data = [1], device = ''cpu''\<rparr>)"

definition depthwise_conv :: "int layer" where
  "depthwise_conv =
     Conv 1 2 2 [1] [0] [1] 2 \<lparr>shape = [2, 1, 1], data = [3, 5], device = ''cpu''\<rparr> None Zeros"

definition circular_conv :: "int layer" where
  "circular_conv =
     Conv 1 1 1 [1] [1] [1] 1 \<lparr>shape = [1, 1, 2], data = [1, 2], device = ''cpu''\<rparr> None Circular"

definition example_adapter ::
  "'a::{zero,one,plus,times} layer \<Rightarrow> bool \<Rightarrow> 'a list \<Rightarrow> 'a IA3Module" where
  "example_adapter org ti vs =
     with_scale (projr (IA3Module_init ''m'' org 1 4 0 False False ti)) vs"

text \<open>A single-precision linear layer with one input and one output feature.\<close>

definition f32_linear :: "f32 layer" where
  "f32_linear =
     Linear 1 1 \<lparr>shape = [1, 1], data = [Finite 3], device = ''cpu''\<rparr> None"

section \<open>Addressing lemmas\<close>

lemma valid_index_Nil [simp]: "valid_index [] idx = (idx = [])"
  by (simp add: valid_index_def)

lemma valid_index_Cons [simp]:
  "valid_index (d # ds) idx = (\<exists>i is. idx = i # is \<and> i < d \<and> valid_index ds is)"
  by (cases idx) (auto simp: valid_index_def)

lemma valid_index_length: "valid_index s idx \<Longrightarrow> length idx = length s"
  by (simp add: valid_index_def list_all2_lengthD)

lemma valid_index_nth:
  "valid_index s idx = (length idx = length s \<and> (\<forall>i<length s. idx ! i < s ! i))"
  by (auto simp: valid_index_def list_all2_conv_all_nth)

lemma ravel_less: "valid_index s idx \<Longrightarrow> ravel s idx < prod_list s"
proof (induction s arbitrary: idx)
  case Nil
  then show ?case by simp
next
  case (Cons d ds)
  then obtain i js where idx: "idx = i # js" and i: "i < d" and v: "valid_index ds js"
    by auto
  have r: "ravel ds js < prod_list ds" using Cons.IH v by simp
  have "i * prod_list ds + ravel ds js < i * prod_list ds + prod_list ds"
    using r by simp
  also have "\<dots> = Suc i * prod_list ds" by simp
  also have "\<dots> \<le> d * prod_list ds" using i by (intro mult_le_mono1) simp
  finally show ?case using idx by simp
qed

lemma unravel_ravel: "valid_index s idx \<Longrightarrow> unravel s (ravel s idx) = idx"
proof (induction s arbitrary: idx)
  case Nil
  then show ?case by simp
next
  case (Cons d ds)
  then obtain i js where idx: "idx = i # js" and i: "i < d" and v: "valid_index ds js"
    by auto
  have r: "ravel ds js < prod_list ds" using v by (rule ravel_less)
  then show ?case using idx Cons.IH [OF v] by simp
qed

lemma valid_unravel: "k < prod_list s \<Longrightarrow> valid_index s (unravel s k)"
proof (induction s arbitrary: k)
  case Nil
  then show ?case by simp
next
  case (Cons d ds)
  have pos: "0 < prod_list ds" using Cons.prems by (cases "prod_list ds") auto
  have "k div prod_list ds < d"
    using Cons.prems pos by (simp add: less_mult_imp_div_less mult.commute)
  moreover have "valid_index ds (unravel ds (k mod prod_list ds))"
    using pos by (intro Cons.IH) simp
  ultimately show ?case by simp
qed

lemma ravel_unravel: "k < prod_list s \<Longrightarrow> ravel s (unravel s k) = k"
proof (induction s arbitrary: k)
  case Nil
  then show ?case by simp
next
  case (Cons d ds)
  have pos: "0 < prod_list ds" using Cons.prems by (cases "prod_list ds") auto
  have "ravel ds (unravel ds (k mod prod_list ds)) = k mod prod_list ds"
    using pos by (intro Cons.IH) simp
  then show ?case by simp
qed

section \<open>Tabulated tensors\<close>

lemma wf_tabulate [simp]: "wf (tabulate s dv f)"
  by (simp add: wf_def tabulate_def)

lemma shape_tabulate [simp]: "shape (tabulate s dv f) = s"
  by (simp add: tabulate_def)

lemma device_tabulate [simp]: "device (tabulate s dv f) = dv"
  by (simp add: tabulate_def)

lemma get_tabulate: "valid_index s idx \<Longrightarrow> get (tabulate s dv f) idx = f idx"
  using ravel_less [of s idx] unravel_ravel [of s idx]
  by (simp add: get_def tabulate_def numel_def)

lemma tabulate_cong:
  assumes "\<And>idx. valid_index s idx \<Longrightarrow> f idx = g idx"
  shows "tabulate s dv f = tabulate s dv g"
  using assms by (simp add: tabulate_def numel_def valid_unravel)

lemma tabulate_get:
  fixes t :: "'a tensor"
  assumes "wf t"
  shows "tabulate (shape t) (device t) (get t) = t"
proof -
  have "map (\<lambda>k. data t ! ravel (shape t) (unravel (shape t) k)) [0..<length (data t)]
        = map (\<lambda>k. data t ! k) [0..<length (data t)]"
    using assms by (intro map_cong) (simp_all add: wf_def numel_def ravel_unravel)
  also have "\<dots> = data t" by (rule map_nth)
  finally show ?thesis using assms by (simp add: tabulate_def get_def wf_def)
qed

lemma tensor_eqI:
  fixes a b :: "'a tensor"
  assumes "wf a" "wf b" "shape a = shape b" "device a = device b"
    and "\<And>idx. valid_index (shape a) idx \<Longrightarrow> get a idx = get b idx"
  shows "a = b"
proof -
  have "a = tabulate (shape a) (device a) (get a)"
    using tabulate_get [OF assms(1)] by (rule sym)
  also have "\<dots> = tabulate (shape a) (device a) (get b)"
    using assms(5) by (rule tabulate_cong)
  also have "\<dots> = tabulate (shape b) (device b) (get b)"
    by (simp only: assms(3,4))
  also have "\<dots> = b"
    using assms(2) by (rule tabulate_get)
  finally show ?thesis .
qed

section \<open>Broadcasting lemmas\<close>

lemma length_pad: "length s \<le> n \<Longrightarrow> length (pad n s) = n"
  by (simp add: pad_def)

lemma nth_pad: "i < length s \<Longrightarrow> pad n s ! (n - length s + i) = s ! i"
  using nth_append_length_plus [of "replicate (n - length s) 1" s i] by (simp add: pad_def)

lemma broadcast_shapes_length:
  "broadcast_shapes s1 s2 = Some s \<Longrightarrow> length s = max (length s1) (length s2)"
  by (auto simp: broadcast_shapes_def Let_def length_pad split: if_splits)

lemma broadcast_shapes_nth:
  assumes "broadcast_shapes s1 s2 = Some s" "i < length s"
  shows "compat (pad (length s) s1 ! i) (pad (length s) s2 ! i)
         \<and> s ! i = bdim (pad (length s) s1 ! i) (pad (length s) s2 ! i)"
proof -
  let ?n = "max (length s1) (length s2)"
  have n: "length s = ?n" using assms(1) by (rule broadcast_shapes_length)
  have all: "list_all2 compat (pad ?n s1) (pad ?n s2)"
    and s: "s = map2 bdim (pad ?n s1) (pad ?n s2)"
    using assms(1) by (auto simp: broadcast_shapes_def Let_def split: if_splits)
  have "compat (pad ?n s1 ! i) (pad ?n s2 ! i)"
    using all assms(2) n by (simp add: list_all2_conv_all_nth length_pad)
  moreover have "s ! i = bdim (pad ?n s1 ! i) (pad ?n s2 ! i)"
    using assms(2) n by (subst s) (simp add: length_pad)
  ultimately show ?thesis using n by simp
qed

lemma valid_bc_index_left:
  assumes "broadcast_shapes s1 s2 = Some s" "valid_index s idx"
  shows "valid_index s1 (bc_index s1 idx)"
proof -
  have n: "length s = max (length s1) (length s2)"
    using assms(1) by (rule broadcast_shapes_length)
  have li: "length idx = length s" using assms(2) by (rule valid_index_length)
  have len: "length (bc_index s1 idx) = length s1"
    using n li by (simp add: bc_index_def)
  have "bc_index s1 idx ! i < s1 ! i" if i: "i < length s1" for i
  proof (cases "s1 ! i = 1")
    case True
    then show ?thesis using i n li by (simp add: bc_index_def)
  next
    case False
    let ?j = "length s - length s1 + i"
    have j: "?j < length s" using i n by simp
    have p: "pad (length s) s1 ! ?j = s1 ! i" using i by (rule nth_pad)
    have "s ! ?j = s1 ! i"
      using broadcast_shapes_nth [OF assms(1) j] False p by (simp add: bdim_def)
    moreover have "idx ! ?j < s ! ?j" using assms(2) j by (simp add: valid_index_nth)
    ultimately show ?thesis using i n li False by (simp add: bc_index_def)
  qed
  then show ?thesis using len by (simp add: valid_index_nth)
qed

lemma valid_bc_index_right:
  assumes "broadcast_shapes s1 s2 = Some s" "valid_index s idx"
  shows "valid_index s2 (bc_index s2 idx)"
proof -
  have n: "length s = max (length s1) (length s2)"
    using assms(1) by (rule broadcast_shapes_length)
  have li: "length idx = length s" using assms(2) by (rule valid_index_length)
  have len: "length (bc_index s2 idx) = length s2"
    using n li by (simp add: bc_index_def)
  have "bc_index s2 idx ! i < s2 ! i" if i: "i < length s2" for i
  proof (cases "s2 ! i = 1")
    case True
    then show ?thesis using i n li by (simp add: bc_index_def)
  next
    case False
    let ?j = "length s - length s2 + i"
    have j: "?j < length s" using i n by simp
    have p: "pad (length s) s2 ! ?j = s2 ! i" using i by (rule nth_pad)
    have "s ! ?j = s2 ! i"
      using broadcast_shapes_nth [OF assms(1) j] False p by (auto simp: bdim_def compat_def)
    moreover have "idx ! ?j < s ! ?j" using assms(2) j by (simp add: valid_index_nth)
    ultimately show ?thesis using i n li False by (simp add: bc_index_def)
  qed
  then show ?thesis using len by (simp add: valid_index_nth)
qed

lemma bc_index_self: "valid_index s idx \<Longrightarrow> bc_index s idx = idx"
proof -
  assume v: "valid_index s idx"
  then have l: "length idx = length s" by (rule valid_index_length)
  have "bc_index s idx ! i = idx ! i" if "i < length s" for i
    using that v l by (auto simp: bc_index_def valid_index_nth)
  then show ?thesis using l by (intro nth_equalityI) (simp_all add: bc_index_def)
qed

section \<open>Construction\<close>

lemma bind_Inr [simp]: "bind (Inr v) f = f v"
  by (simp add: bind_def)

lemma bind_Inl [simp]: "bind (Inl e) f = Inl e"
  by (simp add: bind_def)

lemma bind_eq_Inr: "(bind r f = Inr y) = (\<exists>v. r = Inr v \<and> f v = Inr y)"
  by (cases r) simp_all

lemma wf_zeros [simp]: "wf (zeros s dv)"
  by (simp add: wf_def zeros_def)

lemma shape_zeros [simp]: "shape (zeros s dv) = s"
  by (simp add: zeros_def)

lemma startswith_conv [simp]:
  "startswith ''linear'' ''conv'' = False" "startswith ''conv1d'' ''conv'' = True"
  "startswith ''conv2d'' ''conv'' = True" "startswith ''conv3d'' ''conv'' = True"
  by (simp_all add: startswith_def)

lemma init_Linear:
  "IA3Module_init nm (Linear i oo w b) mult ldim mdrop bypass rs ti =
     Inr \<lparr>lora_name = nm, org_module = Linear i oo w b,
          org_forward = layer_forward (Linear i oo w b), module_type = ''linear'',
          multiplier = mult, module_dropout = mdrop, bypass_mode = bypass, training = True,
          lora_dim = ldim, tucker = False, rs_lora = rs, module_shape = shape w,
          isconv = False, weight = zeros [if ti then i else oo] ''cpu'',
          train_input = ti, on_input = (if ti then 1 else 0)\<rparr>"
  by (simp add: IA3Module_init_def base_init_def support_module_def)

lemma init_Conv:
  assumes "1 \<le> n" "n \<le> 3"
  shows "IA3Module_init nm (Conv n i oo st pd dl g w b pm) mult ldim mdrop bypass rs ti =
     Inr \<lparr>lora_name = nm, org_module = Conv n i oo st pd dl g w b pm,
          org_forward = layer_forward (Conv n i oo st pd dl g w b pm),
          module_type = module_type_of (Conv n i oo st pd dl g w b pm),
          multiplier = mult, module_dropout = mdrop, bypass_mode = bypass, training = True,
          lora_dim = ldim, tucker = False, rs_lora = rs, module_shape = shape w, isconv = True,
          weight = zeros (1 # (if ti then i else oo) # replicate (length (shape w) - 2) 1) ''cpu'',
          train_input = ti, on_input = (if ti then 1 else 0)\<rparr>"
proof -
  have "n = 1 \<or> n = 2 \<or> n = 3" using assms by arith
  then show ?thesis
    by (auto simp: IA3Module_init_def base_init_def support_module_def map_replicate_const)
qed

lemma init_unsupported:
  assumes "module_type_of org \<notin> support_module"
  shows "IA3Module_init nm org mult ldim mdrop bypass rs ti =
     Inl (ValueError (module_type_of org @ '' is not supported in IA^3 algo.''))"
  using assms by (simp add: IA3Module_init_def base_init_def)

lemma supported_cases:
  assumes "wf_layer org" "module_type_of org \<in> support_module"
  shows "(\<exists>i oo w b. org = Linear i oo w b)
         \<or> (\<exists>n i oo st pd dl g w b pm. org = Conv n i oo st pd dl g w b pm \<and> 1 \<le> n \<and> n \<le> 3)"
  using assms by (cases org) auto

lemma init_fitted:
  assumes "wf_layer org" "IA3Module_init nm org mult ldim mdrop bypass rs ti = Inr ad"
  shows "fitted ad"
proof -
  have sup: "module_type_of org \<in> support_module"
  proof (rule ccontr)
    assume "module_type_of org \<notin> support_module"
    from init_unsupported [OF this, of nm mult ldim mdrop bypass rs ti] assms(2)
    show False by simp
  qed
  from supported_cases [OF assms(1) sup] show ?thesis
  proof (elim disjE exE conjE)
    fix i oo w b assume "org = Linear i oo w b"
    then show ?thesis using assms sup by (auto simp: init_Linear fitted_def)
  next
    fix n i oo st pd dl g w b pm
    assume "org = Conv n i oo st pd dl g w b pm" "1 \<le> n" "n \<le> 3"
    then show ?thesis using assms sup by (auto simp: init_Conv fitted_def)
  qed
qed

lemma with_scale_fitted:
  "fitted ad \<Longrightarrow> length vs = length (data (weight ad)) \<Longrightarrow> fitted (with_scale ad vs)"
  by (simp add: fitted_def with_scale_def wf_def)

text \<open>
  C7. Construction fails exactly when the kind of the wrapped layer is not one
  of linear, conv1d, conv2d, conv3d: then \<^verbatim>\<open>__init__\<close> itself returns the
  error, a \<^verbatim>\<open>ValueError\<close> whose message starts with the name of the kind; for
  a layer of one of the four kinds it returns an adapter.
\<close>

theorem init_fails_iff_unsupported:
  assumes "wf_layer org"
  shows "(module_type_of org \<in> support_module \<longrightarrow>
            (\<exists>ad. IA3Module_init nm org mult ldim mdrop bypass rs ti = Inr ad))
       \<and> (module_type_of org \<notin> support_module \<longrightarrow>
            IA3Module_init nm org mult ldim mdrop bypass rs ti =
              Inl (ValueError (module_type_of org @ '' is not supported in IA^3 algo.'')))"
proof (intro conjI impI)
  assume sup: "module_type_of org \<in> support_module"
  from supported_cases [OF assms sup]
  show "\<exists>ad. IA3Module_init nm org mult ldim mdrop bypass rs ti = Inr ad"
    by (auto simp: init_Linear init_Conv)
next
  assume "module_type_of org \<notin> support_module"
  then show "IA3Module_init nm org mult ldim mdrop bypass rs ti =
      Inl (ValueError (module_type_of org @ '' is not supported in IA^3 algo.''))"
    by (rule init_unsupported)
qed

theorem init_fails_iff_unsupported_witness:
  "(\<exists>ad. IA3Module_init ''m'' (Linear 3 2
       \<lparr>shape = [2, 3], data = [1, 2, 3, 4, 5, 6 :: int], device = ''cpu''\<rparr> None)
       1 4 0 False False False = Inr ad)
   \<and> IA3Module_init ''m'' (Other ''layernorm'' :: int layer) 1 4 0 False False False =
       Inl (ValueError ''layernorm is not supported in IA^3 algo.'')"
  using init_fails_iff_unsupported [of "Linear 3 2
       \<lparr>shape = [2, 3], data = [1, 2, 3, 4, 5, 6 :: int], device = ''cpu''\<rparr> None"
       "''m''" 1 4 0 False False False]
    init_fails_iff_unsupported [of "Other ''layernorm'' :: int layer"
       "''m''" 1 4 0 False False False]
  by (simp add: support_module_def wf_def numel_def wf_bias_def)

lemma init_weight_zeros:
  fixes org :: "'a::comm_ring_1 layer"
  assumes "wf_layer org" "IA3Module_init nm org mult ldim mdrop bypass rs ti = Inr ad"
  shows "org_module ad = org \<and> train_input ad = ti
         \<and> weight ad = zeros (scale_shape org ti) ''cpu''"
proof (cases org)
  case (Linear i oo w b)
  then show ?thesis using assms(2) by (auto simp: init_Linear)
next
  case (Conv n i oo st pd dl g w b pm)
  then have "1 \<le> n" "n \<le> 3" "length (shape w) - 2 = n" using assms(1) by simp_all
  then show ?thesis using assms(2) Conv by (auto simp: init_Conv)
next
  case (Other kind)
  then have "module_type_of org \<notin> support_module" using assms(1) by simp
  from init_unsupported [OF this, of nm mult ldim mdrop bypass rs ti] assms(2)
  show ?thesis by simp
qed

text \<open>
  C9. After a successful construction the scale vector has the shape
  \<open>[train_dim]\<close> on a linear layer and \<open>1 # train_dim # [1, \<dots>, 1]\<close>, with one
  1 for each spatial axis, on a convolution, where \<open>train_dim\<close> is the number
  of input features or channels when the input is scaled and of output features
  or channels otherwise; all its elements are 0; and \<open>on_input\<close> holds
  \<^verbatim>\<open>int(train_on_input)\<close>.
\<close>

theorem init_scale_vector:
  fixes org :: "'a::comm_ring_1 layer"
  assumes "wf_layer org"
    and "IA3Module_init nm org mult ldim mdrop bypass rs ti = Inr ad"
  shows "(case org of
            Linear i oo w b \<Rightarrow> shape (weight ad) = [if ti then i else oo]
          | Conv n i oo st pd dl g w b pm \<Rightarrow>
              shape (weight ad) = 1 # (if ti then i else oo) # replicate n 1
          | Other kind \<Rightarrow> False)
       \<and> data (weight ad) = replicate (numel (shape (weight ad))) 0
       \<and> train_input ad = ti
       \<and> on_input ad = (if ti then 1 else 0)"
proof (cases org)
  case (Linear i oo w b)
  then show ?thesis using assms(2) by (auto simp: init_Linear zeros_def)
next
  case (Conv n i oo st pd dl g w b pm)
  then have "1 \<le> n" "n \<le> 3" "length (shape w) - 2 = n" using assms(1) by simp_all
  then show ?thesis using assms(2) Conv by (auto simp: init_Conv zeros_def)
next
  case (Other kind)
  then have "module_type_of org \<notin> support_module" using assms(1) by simp
  from init_unsupported [OF this, of nm mult ldim mdrop bypass rs ti] assms(2)
  show ?thesis by simp
qed

theorem init_scale_vector_witness:
  "wf_layer example_conv
   \<and> (\<exists>ad. IA3Module_init ''m'' example_conv 1 4 0 False False True = Inr ad
        \<and> shape (weight ad) = [1, 2, 1] \<and> data (weight ad) = [0, 0]
        \<and> train_input ad \<and> on_input ad = 1)"
proof -
  have w: "wf_layer example_conv"
    by (simp add: example_conv_def wf_def numel_def wf_bias_def)
  obtain ad where ad: "IA3Module_init ''m'' example_conv 1 4 0 False False True = Inr ad"
    by (simp add: example_conv_def init_Conv)
  from init_scale_vector [OF w ad] w ad show ?thesis
    by (auto simp: example_conv_def numel_def eval_nat_numeral)
qed

section \<open>Scaling along an axis\<close>

lemma shape_eff [simp]: "shape (sadd (smul t m) c) = shape t"
  by (simp add: sadd_def smul_def)

lemma device_eff [simp]: "device (sadd (smul t m) c) = device t"
  by (simp add: sadd_def smul_def)

lemma get_eff:
  assumes "wf t" "valid_index (shape t) idx"
  shows "get (sadd (smul t m) c) idx = get t idx * m + c"
proof -
  have "ravel (shape t) idx < length (data t)"
    using assms ravel_less [of "shape t" idx] by (simp add: wf_def numel_def)
  then show ?thesis by (simp add: get_def sadd_def smul_def)
qed

lemma binop_Some:
  "broadcast_shapes (shape a) (shape b) = Some s \<Longrightarrow>
   binop f a b = Inr (tabulate s (device a)
     (\<lambda>idx. f (get a (bc_index (shape a) idx)) (get b (bc_index (shape b) idx))))"
  by (simp add: binop_def)

lemma binop_None:
  "broadcast_shapes (shape a) (shape b) = None \<Longrightarrow> binop f a b = Inl ShapeError"
  by (simp add: binop_def)

lemma broadcast_shapes_same:
  assumes "length t \<le> length s" "list_all2 (\<lambda>a b. b = 1 \<or> b = a) s (pad (length s) t)"
  shows "broadcast_shapes s t = Some s"
proof -
  let ?p = "pad (length s) t"
  have n: "max (length s) (length t) = length s" using assms(1) by simp
  have ps: "pad (length s) s = s" by (simp add: pad_def)
  have lp: "length ?p = length s" using assms(1) by (rule length_pad)
  have c: "list_all2 compat s ?p"
    using assms(2) by (rule list_all2_mono) (auto simp: compat_def)
  have "map2 bdim s ?p = s"
  proof (rule nth_equalityI)
    show "length (map2 bdim s ?p) = length s" using lp by simp
  next
    fix i assume "i < length (map2 bdim s ?p)"
    then have i: "i < length s" using lp by simp
    have "?p ! i = 1 \<or> ?p ! i = s ! i"
      using assms(2) i by (simp add: list_all2_conv_all_nth)
    then show "map2 bdim s ?p ! i = s ! i" using i lp by (auto simp: bdim_def)
  qed
  then show ?thesis using c by (simp add: broadcast_shapes_def n ps Let_def)
qed

lemma bc_linear: "broadcast_shapes (r @ [a]) [a] = Some (r @ [a])"
proof (rule broadcast_shapes_same)
  show "length [a] \<le> length (r @ [a])" by simp
  have "pad (length (r @ [a])) [a] = replicate (length r) 1 @ [a]" by (simp add: pad_def)
  moreover have "list_all2 (\<lambda>a b. b = 1 \<or> b = a) (r @ [a]) (replicate (length r) 1 @ [a])"
    by (intro list_all2_appendI) (simp_all add: list_all2_conv_all_nth)
  ultimately show "list_all2 (\<lambda>a b. b = 1 \<or> b = a) (r @ [a]) (pad (length (r @ [a])) [a])"
    by simp
qed

lemma bc_conv:
  "broadcast_shapes (b # a # r) (1 # a # replicate (length r) 1) = Some (b # a # r)"
proof (rule broadcast_shapes_same)
  show "length (1 # a # replicate (length r) 1) \<le> length (b # a # r)" by simp
  show "list_all2 (\<lambda>a b. b = 1 \<or> b = a) (b # a # r)
          (pad (length (b # a # r)) (1 # a # replicate (length r) 1))"
  proof -
    have "list_all2 (\<lambda>a b. b = 1 \<or> b = a) r (replicate (length r) 1)"
      by (simp add: list_all2_conv_all_nth)
    then show ?thesis by (simp add: pad_def)
  qed
qed

lemma bc_index_linear:
  assumes "valid_index (r @ [a]) idx"
  shows "bc_index [a] idx = [last idx]"
proof -
  have l: "length idx = Suc (length r)" using assms valid_index_length by fastforce
  then obtain q k where idx: "idx = q @ [k]" "length q = length r"
    by (metis append_butlast_last_id length_0_conv length_butlast diff_Suc_1 nat.simps(3))
  have "k < a" using assms idx by (simp add: valid_index_def list_all2_append)
  then show ?thesis using idx by (simp add: bc_index_def)
qed

lemma bc_index_conv:
  assumes "valid_index (b # a # r) idx"
  shows "bc_index (1 # a # replicate (length r) 1) idx = 0 # idx ! 1 # replicate (length r) 0"
proof -
  obtain j k q where idx: "idx = j # k # q" "k < a" "valid_index r q"
    using assms by auto
  have l: "length q = length r" using idx(3) by (rule valid_index_length)
  have "map2 (\<lambda>d i. if d = 1 then 0 else i) (replicate (length r) (1::nat)) q = replicate (length r) 0"
    using l by (intro nth_equalityI) simp_all
  then show ?thesis using idx l by (auto simp: bc_index_def)
qed

lemma valid_index_ones: "valid_index (replicate n (Suc 0)) (replicate n 0)"
  by (simp add: valid_index_def list_all2_conv_all_nth)

lemma tmul_chan_conv:
  assumes "shape x = b # a # r" "shape w = 1 # a # replicate (length r) 1" "wf w"
  shows "tmul x (sadd (smul w m) c) =
    Inr (tabulate (b # a # r) (device x)
      (\<lambda>idx. get x idx * (get w (0 # idx ! 1 # replicate (length r) 0) * m + c)))"
proof -
  let ?e = "sadd (smul w m) c"
  have bc: "broadcast_shapes (shape x) (shape ?e) = Some (b # a # r)"
    using assms(1,2) bc_conv [of b a r] by simp
  have "tabulate (b # a # r) (device x)
          (\<lambda>idx. get x (bc_index (shape x) idx) * get ?e (bc_index (shape ?e) idx))
      = tabulate (b # a # r) (device x)
          (\<lambda>idx. get x idx * (get w (0 # idx ! 1 # replicate (length r) 0) * m + c))"
  proof (rule tabulate_cong)
    fix idx assume v: "valid_index (b # a # r) idx"
    have 1: "bc_index (shape x) idx = idx" using v assms(1) by (simp add: bc_index_self)
    have 2: "bc_index (shape ?e) idx = 0 # idx ! 1 # replicate (length r) 0"
      using bc_index_conv [OF v] assms(2) by simp
    obtain j k q where idx: "idx = j # k # q" "k < a" using v by auto
    have "valid_index (shape w) (0 # idx ! 1 # replicate (length r) 0)"
      using idx assms(2) by (simp add: valid_index_ones)
    then have "get ?e (0 # idx ! 1 # replicate (length r) 0)
        = get w (0 # idx ! 1 # replicate (length r) 0) * m + c"
      using assms(3) by (intro get_eff)
    then show "get x (bc_index (shape x) idx) * get ?e (bc_index (shape ?e) idx)
        = get x idx * (get w (0 # idx ! 1 # replicate (length r) 0) * m + c)"
      using 1 2 by simp
  qed
  then show ?thesis using binop_Some [OF bc, of "\<lambda>x y. x * y"] by (simp add: tmul_def)
qed

lemma tmul_chan_linear:
  assumes "shape x = r @ [a]" "shape w = [a]" "wf w"
  shows "tmul x (sadd (smul w m) c) =
    Inr (tabulate (r @ [a]) (device x) (\<lambda>idx. get x idx * (get w [last idx] * m + c)))"
proof -
  let ?e = "sadd (smul w m) c"
  have bc: "broadcast_shapes (shape x) (shape ?e) = Some (r @ [a])"
    using assms(1,2) bc_linear [of r a] by simp
  have "tabulate (r @ [a]) (device x)
          (\<lambda>idx. get x (bc_index (shape x) idx) * get ?e (bc_index (shape ?e) idx))
      = tabulate (r @ [a]) (device x) (\<lambda>idx. get x idx * (get w [last idx] * m + c))"
  proof (rule tabulate_cong)
    fix idx assume v: "valid_index (r @ [a]) idx"
    have 1: "bc_index (shape x) idx = idx" using v assms(1) by (simp add: bc_index_self)
    have 2: "bc_index (shape ?e) idx = [last idx]"
      using bc_index_linear [OF v] assms(2) by simp
    have "idx \<noteq> []" using v valid_index_length by fastforce
    then have "last idx < a"
      using v by (auto simp: valid_index_nth last_conv_nth nth_append split: if_splits)
    then have "valid_index (shape w) [last idx]" using assms(2) by simp
    then have "get ?e [last idx] = get w [last idx] * m + c"
      using assms(3) by (intro get_eff)
    then show "get x (bc_index (shape x) idx) * get ?e (bc_index (shape ?e) idx)
        = get x idx * (get w [last idx] * m + c)"
      using 1 2 by simp
  qed
  then show ?thesis using binop_Some [OF bc, of "\<lambda>x y. x * y"] by (simp add: tmul_def)
qed

lemma transpose01_Inr:
  "shape x = a # b # r \<Longrightarrow>
   transpose01 x = Inr (tabulate (b # a # r) (device x) (\<lambda>idx. get x (swap01 idx)))"
  by (simp add: transpose01_def)

lemma scale_axis0_conv:
  assumes "shape x = a # b # r" "shape w = 1 # a # replicate (length r) 1" "wf w"
  shows "bind (transpose01 x) (\<lambda>xt. bind (tmul xt (sadd (smul w m) c)) transpose01) =
    Inr (tabulate (a # b # r) (device x)
      (\<lambda>idx. get x idx * (get w (0 # idx ! 0 # replicate (length r) 0) * m + c)))"
proof -
  let ?xt = "tabulate (b # a # r) (device x) (\<lambda>idx. get x (swap01 idx))"
  let ?f = "\<lambda>idx. get ?xt idx * (get w (0 # idx ! 1 # replicate (length r) 0) * m + c)"
  let ?y = "tabulate (b # a # r) (device x) ?f"
  have 1: "transpose01 x = Inr ?xt" using assms(1) by (rule transpose01_Inr)
  have 2: "tmul ?xt (sadd (smul w m) c) = Inr ?y"
    using tmul_chan_conv [of ?xt b a r w m c] assms(2,3) by simp
  have 3: "transpose01 ?y = Inr (tabulate (a # b # r) (device x) (\<lambda>idx. get ?y (swap01 idx)))"
    using transpose01_Inr [of ?y b a r] by simp
  have "tabulate (a # b # r) (device x) (\<lambda>idx. get ?y (swap01 idx))
      = tabulate (a # b # r) (device x)
          (\<lambda>idx. get x idx * (get w (0 # idx ! 0 # replicate (length r) 0) * m + c))"
  proof (rule tabulate_cong)
    fix idx assume v: "valid_index (a # b # r) idx"
    then obtain j k q where idx: "idx = j # k # q" "j < a" "k < b" "valid_index r q"
      by auto
    have vs: "valid_index (b # a # r) (k # j # q)" using idx by simp
    have "get ?y (k # j # q) = ?f (k # j # q)" using vs by (rule get_tabulate)
    moreover have "get ?xt (k # j # q) = get x (swap01 (k # j # q))"
      using vs by (rule get_tabulate)
    ultimately show "get ?y (swap01 idx)
        = get x idx * (get w (0 # idx ! 0 # replicate (length r) 0) * m + c)"
      using idx by simp
  qed
  then show ?thesis using 1 2 3 by simp
qed

lemma scale_axis0_linear:
  assumes "shape x = [a, b]" "shape w = [a]" "wf w"
  shows "bind (transpose01 x) (\<lambda>xt. bind (tmul xt (sadd (smul w m) c)) transpose01) =
    Inr (tabulate [a, b] (device x) (\<lambda>idx. get x idx * (get w [idx ! 0] * m + c)))"
proof -
  let ?xt = "tabulate [b, a] (device x) (\<lambda>idx. get x (swap01 idx))"
  let ?f = "\<lambda>idx. get ?xt idx * (get w [last idx] * m + c)"
  let ?y = "tabulate [b, a] (device x) ?f"
  have 1: "transpose01 x = Inr ?xt" using assms(1) by (rule transpose01_Inr)
  have 2: "tmul ?xt (sadd (smul w m) c) = Inr ?y"
    using tmul_chan_linear [of ?xt "[b]" a w m c] assms(2,3) by simp
  have 3: "transpose01 ?y = Inr (tabulate [a, b] (device x) (\<lambda>idx. get ?y (swap01 idx)))"
    using transpose01_Inr [of ?y b a "[]"] by simp
  have "tabulate [a, b] (device x) (\<lambda>idx. get ?y (swap01 idx))
      = tabulate [a, b] (device x) (\<lambda>idx. get x idx * (get w [idx ! 0] * m + c))"
  proof (rule tabulate_cong)
    fix idx assume v: "valid_index [a, b] idx"
    then obtain j k where idx: "idx = [j, k]" "j < a" "k < b"
      by auto
    have vs: "valid_index [b, a] [k, j]" using idx by simp
    have "get ?y [k, j] = ?f [k, j]" using vs by (rule get_tabulate)
    moreover have "get ?xt [k, j] = get x (swap01 [k, j])"
      using vs by (rule get_tabulate)
    ultimately show "get ?y (swap01 idx) = get x idx * (get w [idx ! 0] * m + c)"
      using idx by simp
  qed
  then show ?thesis using 1 2 3 by simp
qed

lemma conv_weight_shape:
  assumes "wf_layer (Conv n i oo st pd dl g w b pm)"
  obtains ks where "shape w = oo # (i div g) # ks" "length ks = n"
proof -
  have t: "take 2 (shape w) = [oo, i div g]" using assms by simp
  have "shape w = take 2 (shape w) @ drop 2 (shape w)" by simp
  then have "shape w = oo # (i div g) # drop 2 (shape w)" by (simp only: t append_Cons append_Nil)
  moreover have "length (drop 2 (shape w)) = n" using assms by simp
  ultimately show ?thesis using that by blast
qed

lemma make_weight_plain:
  "make_weight ad m None None diff =
     bind (org_weight ad) (\<lambda>ow.
       if train_input ad then tmul ow (sadd (smul (weight ad) m) (if diff then 0 else 1))
       else bind (transpose01 ow)
              (\<lambda>owt. bind (tmul owt (sadd (smul (weight ad) m) (if diff then 0 else 1)))
                 transpose01))"
  by (cases "org_weight ad") (simp_all add: make_weight_def Let_def bind_def split: sum.splits)

lemma make_weight_Linear:
  assumes "fitted ad" "org_module ad = Linear i oo w b"
  shows "make_weight ad m None None diff = Inr (scaled ad w m diff)"
proof -
  have sw: "shape w = [oo, i]" and wfs: "wf (weight ad)"
    and ss: "shape (weight ad) = [if train_input ad then i else oo]"
    using assms by (simp_all add: fitted_def)
  have ow: "org_weight ad = Inr w" using assms(2) by (simp add: org_weight_def)
  show ?thesis
  proof (cases "train_input ad")
    case True
    let ?c = "if diff then 0 else (1::'a)"
    have "tmul w (sadd (smul (weight ad) m) ?c) =
        Inr (tabulate ([oo] @ [i]) (device w)
          (\<lambda>idx. get w idx * (get (weight ad) [last idx] * m + ?c)))"
      using sw ss wfs True by (intro tmul_chan_linear) simp_all
    moreover have "tabulate [oo, i] (device w)
          (\<lambda>idx. get w idx * (get (weight ad) [last idx] * m + ?c))
        = tabulate [oo, i] (device w)
          (\<lambda>idx. get w idx * (get (weight ad) [idx ! 1] * m + ?c))"
      by (rule tabulate_cong) auto
    then have "tabulate ([oo] @ [i]) (device w)
          (\<lambda>idx. get w idx * (get (weight ad) [last idx] * m + ?c))
        = scaled ad w m diff"
      using sw True assms(2) by (simp add: scaled_def)
    ultimately show ?thesis using True ow by (simp add: make_weight_plain)
  next
    case False
    then show ?thesis
      using scale_axis0_linear [of w oo i "weight ad" m "if diff then 0 else 1"] sw ss wfs ow assms(2)
      by (simp add: make_weight_plain scaled_def)
  qed
qed

lemma make_weight_Conv:
  assumes "fitted ad" "org_module ad = Conv n i oo st pd dl g w b pm"
    and "train_input ad \<longrightarrow> g = 1"
  shows "make_weight ad m None None diff = Inr (scaled ad w m diff)"
proof -
  have wl: "wf_layer (Conv n i oo st pd dl g w b pm)" and wfs: "wf (weight ad)"
    and ss: "shape (weight ad) = 1 # (if train_input ad then i else oo) # replicate n 1"
    using assms by (simp_all add: fitted_def)
  from wl obtain ks where sw: "shape w = oo # (i div g) # ks" and n: "length ks = n"
    by (rule conv_weight_shape)
  have ow: "org_weight ad = Inr w" using assms(2) by (simp add: org_weight_def)
  show ?thesis
  proof (cases "train_input ad")
    case True
    then have "g = 1" using assms(3) by simp
    then show ?thesis
      using tmul_chan_conv [of w oo i ks "weight ad" m "if diff then 0 else 1"]
        sw ss wfs ow n True assms(2)
      by (simp add: make_weight_plain scaled_def)
  next
    case False
    then show ?thesis
      using scale_axis0_conv [of w oo "i div g" ks "weight ad" m "if diff then 0 else 1"]
        sw ss wfs ow n assms(2)
      by (simp add: make_weight_plain scaled_def)
  qed
qed

lemma fitted_cases:
  assumes "fitted ad"
  obtains (Linear) i oo w b where "org_module ad = Linear i oo w b"
  | (Conv) n i oo st pd dl g w b pm where "org_module ad = Conv n i oo st pd dl g w b pm"
  using assms by (cases "org_module ad") (auto simp: fitted_def)

lemma make_weight_scaled:
  assumes "fitted ad" "train_input ad \<longrightarrow> ungrouped (org_module ad)"
  shows "\<exists>ow. org_weight ad = Inr ow \<and> make_weight ad m None None diff = Inr (scaled ad ow m diff)"
  using assms(1)
proof (cases rule: fitted_cases)
  case (Linear i oo w b)
  then show ?thesis using make_weight_Linear [OF assms(1) Linear] by (simp add: org_weight_def)
next
  case (Conv n i oo st pd dl g w b pm)
  then show ?thesis using make_weight_Conv [OF assms(1) Conv] assms(2) by (simp add: org_weight_def)
qed

lemma get_scaled:
  "valid_index (shape ow) idx \<Longrightarrow>
   get (scaled ad ow m diff) idx =
     get ow idx * (get (weight ad) (chan_index (org_module ad)
        (idx ! (if train_input ad then 1 else 0))) * m + (if diff then 0 else 1))"
  unfolding scaled_def by (rule get_tabulate)

lemma shape_scaled [simp]: "shape (scaled ad ow m diff) = shape ow"
  by (simp add: scaled_def)

lemma device_scaled [simp]: "device (scaled ad ow m diff) = device ow"
  by (simp add: scaled_def)

lemma wf_scaled [simp]: "wf (scaled ad ow m diff)"
  by (simp add: scaled_def)

lemma get_zeros: "valid_index s idx \<Longrightarrow> get (zeros s dv) idx = 0"
  using ravel_less [of s idx] by (simp add: get_def zeros_def numel_def)

lemma zeros_tabulate: "zeros s dv = tabulate s dv (\<lambda>idx. 0)"
  by (simp add: zeros_def tabulate_def map_replicate_const)

lemma broadcast_shapes_refl: "broadcast_shapes s s = Some s"
proof (rule broadcast_shapes_same)
  show "length s \<le> length s" by simp
  show "list_all2 (\<lambda>a b. b = 1 \<or> b = a) s (pad (length s) s)"
    by (simp add: pad_def list_all2_conv_all_nth)
qed

lemma tadd_same_shape:
  assumes "shape a = shape b"
  shows "tadd a b = Inr (tabulate (shape a) (device a) (\<lambda>idx. get a idx + get b idx))"
proof -
  have bc: "broadcast_shapes (shape a) (shape b) = Some (shape a)"
    using assms broadcast_shapes_refl [of "shape a"] by simp
  have "tabulate (shape a) (device a)
          (\<lambda>idx. get a (bc_index (shape a) idx) + get b (bc_index (shape b) idx))
      = tabulate (shape a) (device a) (\<lambda>idx. get a idx + get b idx)"
    using assms by (intro tabulate_cong) (simp add: bc_index_self)
  then show ?thesis using binop_Some [OF bc, of "\<lambda>x y. x + y"] by (simp add: tadd_def)
qed

lemma scaled_merged_eq_plus_diff:
  fixes ow :: "'a::comm_ring_1 tensor"
  shows "tadd ow (scaled ad ow m True) = Inr (scaled ad ow m False)"
proof -
  have "tabulate (shape ow) (device ow) (\<lambda>idx. get ow idx + get (scaled ad ow m True) idx)
      = scaled ad ow m False"
    unfolding scaled_def [of ad ow m False]
    by (rule tabulate_cong) (simp add: get_scaled algebra_simps)
  then show ?thesis using tadd_same_shape [of ow "scaled ad ow m True"] by simp
qed

lemma compat_sym: "compat a b = compat b a"
  by (auto simp: compat_def)

lemma bdim_sym: "compat a b \<Longrightarrow> bdim a b = bdim b a"
  by (auto simp: compat_def bdim_def)

lemma map2_bdim_sym: "list_all2 compat a b \<Longrightarrow> map2 bdim a b = map2 bdim b a"
  by (induction rule: list_all2_induct) (auto simp: bdim_def compat_def)

lemma broadcast_shapes_commute: "broadcast_shapes s1 s2 = broadcast_shapes s2 s1"
proof -
  let ?n = "max (length s1) (length s2)"
  let ?a = "pad ?n s1" and ?b = "pad ?n s2"
  have c: "list_all2 compat ?a ?b = list_all2 compat ?b ?a"
    by (auto simp: list_all2_conv_all_nth compat_sym)
  have "map2 bdim ?a ?b = map2 bdim ?b ?a" if "list_all2 compat ?a ?b"
    using that by (rule map2_bdim_sym)
  then show ?thesis using c by (auto simp: broadcast_shapes_def Let_def max.commute)
qed

lemma broadcast_shapes_absorb:
  assumes "broadcast_shapes s1 s2 = Some s"
  shows "broadcast_shapes s1 s = Some s"
proof -
  have n: "length s = max (length s1) (length s2)"
    using assms by (rule broadcast_shapes_length)
  have l: "length s1 \<le> length s" using n by simp
  have "list_all2 (\<lambda>a b. b = 1 \<or> b = a) s (pad (length s) s1)"
    unfolding list_all2_conv_all_nth
  proof (intro conjI allI impI)
    show "length s = length (pad (length s) s1)" using l by (simp add: length_pad)
  next
    fix i assume "i < length s"
    from broadcast_shapes_nth [OF assms this]
    show "pad (length s) s1 ! i = 1 \<or> pad (length s) s1 ! i = s ! i"
      by (auto simp: bdim_def)
  qed
  with l have "broadcast_shapes s s1 = Some s" by (rule broadcast_shapes_same)
  then show ?thesis by (simp add: broadcast_shapes_commute)
qed

lemma tmul_plus_one:
  fixes ow w :: "'a::comm_ring_1 tensor"
  assumes "wf w"
  shows "tmul ow (sadd (smul w m) 1) = bind (tmul ow (sadd (smul w m) 0)) (tadd ow)"
proof (cases "broadcast_shapes (shape ow) (shape w)")
  case None
  then show ?thesis by (simp add: tmul_def binop_None)
next
  case (Some s)
  let ?e1 = "sadd (smul w m) 1" and ?e0 = "sadd (smul w m) 0"
  let ?f = "\<lambda>e idx. get ow (bc_index (shape ow) idx) * get e (bc_index (shape w) idx)"
  let ?d = "tabulate s (device ow) (?f ?e0)"
  have 1: "tmul ow ?e1 = Inr (tabulate s (device ow) (?f ?e1))"
    using binop_Some [of ow ?e1 s "\<lambda>x y. x * y"] Some by (simp add: tmul_def)
  have 0: "tmul ow ?e0 = Inr ?d"
    using binop_Some [of ow ?e0 s "\<lambda>x y. x * y"] Some by (simp add: tmul_def)
  have bc: "broadcast_shapes (shape ow) (shape ?d) = Some s"
    using broadcast_shapes_absorb [OF Some] by simp
  have "tabulate s (device ow)
          (\<lambda>idx. get ow (bc_index (shape ow) idx) + get ?d (bc_index (shape ?d) idx))
      = tabulate s (device ow) (?f ?e1)"
  proof (rule tabulate_cong)
    fix idx assume v: "valid_index s idx"
    have vw: "valid_index (shape w) (bc_index (shape w) idx)"
      using Some v by (rule valid_bc_index_right)
    have "get ?d (bc_index (shape ?d) idx) = ?f ?e0 idx"
      using v by (simp add: bc_index_self get_tabulate)
    then show "get ow (bc_index (shape ow) idx) + get ?d (bc_index (shape ?d) idx) = ?f ?e1 idx"
      using vw assms by (simp add: get_eff algebra_simps)
  qed
  then have "tadd ow ?d = Inr (tabulate s (device ow) (?f ?e1))"
    using binop_Some [OF bc, of "\<lambda>x y. x + y"] by (simp add: tadd_def)
  then show ?thesis using 0 1 by simp
qed

lemma merged_eq_plus_diff:
  fixes ad :: "'a::comm_ring_1 IA3Module"
  assumes "fitted ad"
  shows "make_weight ad m None None False =
         bind (make_weight ad m None None True) (\<lambda>d. bind (org_weight ad) (\<lambda>ow. tadd ow d))"
proof (cases "train_input ad")
  case True
  have "wf (weight ad)" using assms by (simp add: fitted_def)
  from tmul_plus_one [OF this] True show ?thesis
    by (cases "org_weight ad") (simp_all add: make_weight_plain bind_def split: sum.splits)
next
  case False
  then obtain ow where "org_weight ad = Inr ow"
      "\<And>diff. make_weight ad m None None diff = Inr (scaled ad ow m diff)"
    using make_weight_scaled [OF assms, of m] by (metis sum.inject(2))
  then show ?thesis by (simp add: scaled_merged_eq_plus_diff)
qed

lemma chan_index_valid:
  assumes "fitted ad" "train_input ad \<longrightarrow> ungrouped (org_module ad)"
    and "org_weight ad = Inr ow" "valid_index (shape ow) idx"
  shows "valid_index (shape (weight ad))
           (chan_index (org_module ad) (idx ! (if train_input ad then 1 else 0)))"
  using assms(1)
proof (cases rule: fitted_cases)
  case (Linear i oo w b)
  then have "shape ow = [oo, i]" "shape (weight ad) = [if train_input ad then i else oo]"
    using assms(1,3) by (auto simp: fitted_def org_weight_def)
  then show ?thesis using assms(4) Linear by auto
next
  case (Conv n i oo st pd dl g w b pm)
  then have wl: "wf_layer (Conv n i oo st pd dl g w b pm)" and ow: "ow = w"
    and ss: "shape (weight ad) = 1 # (if train_input ad then i else oo) # replicate n 1"
    using assms(1,3) by (auto simp: fitted_def org_weight_def)
  from wl obtain ks where sw: "shape w = oo # (i div g) # ks" by (rule conv_weight_shape)
  have "train_input ad \<Longrightarrow> i div g = i" using assms(2) Conv by simp
  then show ?thesis using assms(4) Conv ow ss sw by (auto simp: valid_index_ones)
qed

lemma get_mem:
  assumes "wf t" "valid_index (shape t) idx"
  shows "get t idx \<in> set (data t)"
proof -
  have "ravel (shape t) idx < length (data t)"
    using assms ravel_less [of "shape t" idx] by (simp add: wf_def numel_def)
  then show ?thesis by (simp add: get_def)
qed

lemma tmul_eff:
  assumes "wf w" "broadcast_shapes (shape ow) (shape w) = Some s"
  shows "tmul ow (sadd (smul w m) c) =
     Inr (tabulate s (device ow)
       (\<lambda>idx. get ow (bc_index (shape ow) idx) * (get w (bc_index (shape w) idx) * m + c)))"
proof -
  have "tabulate s (device ow)
          (\<lambda>idx. get ow (bc_index (shape ow) idx) * get (sadd (smul w m) c) (bc_index (shape w) idx))
      = tabulate s (device ow)
          (\<lambda>idx. get ow (bc_index (shape ow) idx) * (get w (bc_index (shape w) idx) * m + c))"
  proof (rule tabulate_cong)
    fix idx assume "valid_index s idx"
    with assms(2) have "valid_index (shape w) (bc_index (shape w) idx)"
      by (rule valid_bc_index_right)
    then show "get ow (bc_index (shape ow) idx) * get (sadd (smul w m) c) (bc_index (shape w) idx)
        = get ow (bc_index (shape ow) idx) * (get w (bc_index (shape w) idx) * m + c)"
      using assms(1) by (simp add: get_eff)
  qed
  then show ?thesis
    using binop_Some [of ow "sadd (smul w m) c" s "\<lambda>x y. x * y"] assms(2) by (simp add: tmul_def)
qed

lemma tadd_tabulate:
  assumes "broadcast_shapes (shape ow) (shape w) = Some s"
  shows "tadd ow (tabulate s dv g) =
     Inr (tabulate s (device ow) (\<lambda>idx. get ow (bc_index (shape ow) idx) + g idx))"
proof -
  let ?d = "tabulate s dv g"
  have bc: "broadcast_shapes (shape ow) (shape ?d) = Some s"
    using broadcast_shapes_absorb [OF assms] by simp
  have "tabulate s (device ow)
          (\<lambda>idx. get ow (bc_index (shape ow) idx) + get ?d (bc_index (shape ?d) idx))
      = tabulate s (device ow) (\<lambda>idx. get ow (bc_index (shape ow) idx) + g idx)"
    by (rule tabulate_cong) (simp add: bc_index_self get_tabulate)
  then show ?thesis using binop_Some [OF bc, of "\<lambda>x y. x + y"] by (simp add: tadd_def)
qed

lemma tadd_tabulate_same:
  "tadd ow (tabulate (shape ow) dv g) =
     Inr (tabulate (shape ow) (device ow) (\<lambda>idx. get ow idx + g idx))"
proof -
  have "tabulate (shape ow) (device ow) (\<lambda>idx. get ow idx + get (tabulate (shape ow) dv g) idx)
      = tabulate (shape ow) (device ow) (\<lambda>idx. get ow idx + g idx)"
    by (rule tabulate_cong) (simp add: get_tabulate)
  then show ?thesis using tadd_same_shape [of ow "tabulate (shape ow) dv g"] by simp
qed

lemma fitted_org_weight:
  assumes "fitted ad"
  shows "\<exists>ow. org_weight ad = Inr ow \<and> wf ow"
  using assms
proof (cases rule: fitted_cases)
  case (Linear i oo w b)
  then show ?thesis using assms by (simp add: fitted_def org_weight_def)
next
  case (Conv n i oo st pd dl g w b pm)
  then show ?thesis using assms by (simp add: fitted_def org_weight_def)
qed

lemma make_weight_forms:
  assumes "fitted ad"
  shows "\<exists>ow. org_weight ad = Inr ow \<and>
    ((\<forall>c. make_weight ad m None None c = Inl ShapeError)
     \<or> (\<exists>s W S.
          (\<forall>idx. valid_index s idx \<longrightarrow> W idx \<in> set (data ow) \<and> S idx \<in> set (data (weight ad)))
          \<and> (\<forall>c. make_weight ad m None None c =
                Inr (tabulate s (device ow) (\<lambda>idx. W idx * (S idx * m + (if c then 0 else 1)))))
          \<and> (\<forall>g dv. tadd ow (tabulate s dv g) =
                Inr (tabulate s (device ow) (\<lambda>idx. W idx + g idx)))))"
proof -
  from fitted_org_weight [OF assms] obtain ow where ow: "org_weight ad = Inr ow" and wf: "wf ow"
    by blast
  have wfs: "wf (weight ad)" using assms by (simp add: fitted_def)
  show ?thesis
  proof (cases "train_input ad")
    case True
    show ?thesis
    proof (cases "broadcast_shapes (shape ow) (shape (weight ad))")
      case None
      then have "\<forall>c. make_weight ad m None None c = Inl ShapeError"
        using ow True by (simp add: make_weight_plain tmul_def binop_None)
      then show ?thesis using ow by blast
    next
      case (Some s)
      let ?W = "\<lambda>idx. get ow (bc_index (shape ow) idx)"
      let ?S = "\<lambda>idx. get (weight ad) (bc_index (shape (weight ad)) idx)"
      have 1: "\<forall>idx. valid_index s idx \<longrightarrow> ?W idx \<in> set (data ow) \<and> ?S idx \<in> set (data (weight ad))"
        using valid_bc_index_left [OF Some] valid_bc_index_right [OF Some] wf wfs
        by (simp add: get_mem)
      have 2: "\<forall>c. make_weight ad m None None c =
            Inr (tabulate s (device ow) (\<lambda>idx. ?W idx * (?S idx * m + (if c then 0 else 1))))"
        using ow True tmul_eff [OF wfs Some] by (simp add: make_weight_plain)
      have 3: "\<forall>g dv. tadd ow (tabulate s dv g) =
            Inr (tabulate s (device ow) (\<lambda>idx. ?W idx + g idx))"
        using tadd_tabulate [OF Some] by simp
      have "\<exists>s W S.
          (\<forall>idx. valid_index s idx \<longrightarrow> W idx \<in> set (data ow) \<and> S idx \<in> set (data (weight ad)))
          \<and> (\<forall>c. make_weight ad m None None c =
                Inr (tabulate s (device ow) (\<lambda>idx. W idx * (S idx * m + (if c then 0 else 1)))))
          \<and> (\<forall>g dv. tadd ow (tabulate s dv g) =
                Inr (tabulate s (device ow) (\<lambda>idx. W idx + g idx)))"
        by (rule exI [of _ s], rule exI [of _ ?W], rule exI [of _ ?S]) (intro conjI 1 2 3)
      then show ?thesis using ow by blast
    qed
  next
    case False
    let ?W = "get ow"
    let ?S = "\<lambda>idx. get (weight ad) (chan_index (org_module ad) (idx ! 0))"
    have 1: "\<forall>idx. valid_index (shape ow) idx \<longrightarrow>
        ?W idx \<in> set (data ow) \<and> ?S idx \<in> set (data (weight ad))"
      using chan_index_valid [OF assms _ ow] False wf wfs by (simp add: get_mem)
    have 2: "\<forall>c. make_weight ad m None None c =
          Inr (tabulate (shape ow) (device ow) (\<lambda>idx. ?W idx * (?S idx * m + (if c then 0 else 1))))"
      using make_weight_scaled [OF assms, of m] False ow by (simp add: scaled_def)
    have 3: "\<forall>g dv. tadd ow (tabulate (shape ow) dv g) =
          Inr (tabulate (shape ow) (device ow) (\<lambda>idx. ?W idx + g idx))"
      by (simp add: tadd_tabulate_same)
    have "\<exists>s W S.
          (\<forall>idx. valid_index s idx \<longrightarrow> W idx \<in> set (data ow) \<and> S idx \<in> set (data (weight ad)))
          \<and> (\<forall>c. make_weight ad m None None c =
                Inr (tabulate s (device ow) (\<lambda>idx. W idx * (S idx * m + (if c then 0 else 1)))))
          \<and> (\<forall>g dv. tadd ow (tabulate s dv g) =
                Inr (tabulate s (device ow) (\<lambda>idx. W idx + g idx)))"
      by (rule exI [of _ "shape ow"], rule exI [of _ ?W], rule exI [of _ ?S]) (intro conjI 1 2 3)
    then show ?thesis using ow by blast
  qed
qed

section \<open>Rounding\<close>

lemma round_even_err: "\<bar>of_int (round_even q) - q\<bar> \<le> 1 / 2"
proof -
  have "of_int \<lfloor>q\<rfloor> \<le> q" "q < of_int \<lfloor>q\<rfloor> + 1" by linarith+
  then show ?thesis by (auto simp: round_even_def Let_def)
qed

lemma expo_le:
  assumes "0 < a"
  shows "2 powi expo a \<le> a"
proof (cases "1 \<le> a")
  case True
  then have n: "0 < \<lfloor>a\<rfloor>" by linarith
  from bitlen_bounds [OF n] have b: "2 ^ nat (bitlen \<lfloor>a\<rfloor> - 1) \<le> \<lfloor>a\<rfloor>" by simp
  have "0 < bitlen \<lfloor>a\<rfloor>" using n bitlen_eq_zero_iff [of "\<lfloor>a\<rfloor>"] bitlen_nonneg [of "\<lfloor>a\<rfloor>"] by linarith
  then have "(2::rat) powi (bitlen \<lfloor>a\<rfloor> - 1) = 2 ^ nat (bitlen \<lfloor>a\<rfloor> - 1)"
    by (simp add: power_int_def)
  also have "\<dots> = of_int (2 ^ nat (bitlen \<lfloor>a\<rfloor> - 1))" by simp
  also have "\<dots> \<le> of_int \<lfloor>a\<rfloor>" using b by (simp only: of_int_le_iff)
  also have "\<dots> \<le> a" by linarith
  finally show ?thesis using True by (simp add: expo_def)
next
  case False
  let ?c = "\<lceil>1 / a\<rceil>"
  let ?k = "bitlen (?c - 1)"
  have "1 < 1 / a" using False assms by simp
  then have c: "0 < ?c - 1" by linarith
  from bitlen_bounds [OF c] have "?c - 1 < 2 ^ nat ?k" by simp
  then have "?c \<le> 2 ^ nat ?k" by linarith
  then have "(of_int ?c :: rat) \<le> of_int (2 ^ nat ?k)" by (simp only: of_int_le_iff)
  then have "(of_int ?c :: rat) \<le> 2 ^ nat ?k" by simp
  moreover have "1 / a \<le> of_int ?c" by linarith
  ultimately have "1 / a \<le> 2 ^ nat ?k" by (rule order_trans [rotated])
  then have "1 \<le> 2 ^ nat ?k * a" using assms by (simp add: field_simps)
  then have "1 / 2 ^ nat ?k \<le> a" by (simp add: field_simps)
  moreover have "(2::rat) powi (- ?k) = 1 / 2 ^ nat ?k"
    using bitlen_nonneg [of "?c - 1"] by (simp add: power_int_def field_simps)
  ultimately show ?thesis using False by (simp add: expo_def)
qed

lemma round32_err: "\<bar>round32 x - x\<bar> \<le> \<bar>x\<bar> / 2 ^ 24 + 1 / 2 ^ 150"
proof (cases "x = 0")
  case True
  then show ?thesis by (simp add: round32_def)
next
  case False
  define e where "e = max (expo \<bar>x\<bar>) (- 126)"
  define ulp :: rat where "ulp = 2 powi (e - 23)"
  have up: "0 < ulp" by (simp add: ulp_def)
  have r: "round32 x = of_int (round_even (x / ulp)) * ulp"
    using False by (simp add: round32_def Let_def e_def ulp_def)
  have "round32 x - x = (of_int (round_even (x / ulp)) - x / ulp) * ulp"
    using up by (simp add: r left_diff_distrib)
  then have "\<bar>round32 x - x\<bar> = \<bar>of_int (round_even (x / ulp)) - x / ulp\<bar> * ulp"
    using up by (simp add: abs_mult)
  also have "\<dots> \<le> 1 / 2 * ulp"
    using round_even_err [of "x / ulp"] up by (intro mult_right_mono) simp_all
  also have "\<dots> = 2 powi e / 2 ^ 24"
    by (simp add: ulp_def power_int_diff)
  finally have b: "\<bar>round32 x - x\<bar> \<le> 2 powi e / 2 ^ 24" .
  show ?thesis
  proof (cases "- 126 \<le> expo \<bar>x\<bar>")
    case True
    then have "e = expo \<bar>x\<bar>" by (simp add: e_def)
    then have "2 powi e \<le> \<bar>x\<bar>" using expo_le [of "\<bar>x\<bar>"] False by simp
    then have "2 powi e / 2 ^ 24 \<le> \<bar>x\<bar> / 2 ^ 24" by (simp add: divide_right_mono)
    with b have "\<bar>round32 x - x\<bar> \<le> \<bar>x\<bar> / 2 ^ 24" by (rule order_trans)
    also have "\<dots> \<le> \<bar>x\<bar> / 2 ^ 24 + 1 / 2 ^ 150" by simp
    finally show ?thesis .
  next
    case False
    then have "e = - 126" by (simp add: e_def)
    then have "(2::rat) powi e / 2 ^ 24 = 1 / 2 ^ 150" by (simp add: power_int_def field_simps)
    with b have "\<bar>round32 x - x\<bar> \<le> 1 / 2 ^ 150" by simp
    also have "\<dots> \<le> \<bar>x\<bar> / 2 ^ 24 + 1 / 2 ^ 150" by simp
    finally show ?thesis .
  qed
qed

lemma f32_mul_Finite:
  "a * b = Finite c \<Longrightarrow> \<exists>x y. a = Finite x \<and> b = Finite y \<and> c = round32 (x * y)"
  by (cases a; cases b) (auto simp: times_f32_def rnd_def Let_def split: if_splits)

lemma f32_add_Finite:
  "a + b = Finite c \<Longrightarrow> \<exists>x y. a = Finite x \<and> b = Finite y \<and> c = round32 (x + y)"
  by (cases a; cases b) (auto simp: plus_f32_def rnd_def Let_def split: if_splits)

lemma round32_abs_le: "\<bar>round32 x\<bar> \<le> \<bar>x\<bar> + (\<bar>x\<bar> / 2 ^ 24 + 1 / 2 ^ 150)"
  using round32_err [of x] by linarith

lemma err_sum_le:
  fixes x z u h :: rat
  assumes x0: "0 \<le> x" and z0: "0 \<le> z" and u: "u = 1 / 2 ^ 24" and h: "h = 1 / 2 ^ 150"
  shows "(((z + x) + ((z + x) * u + x * h)) * u + h) + ((z + x) * u + x * h)
        + (z * u + x * h) + ((z + (z * u + x * h)) * u + h)
        + ((x + ((z + (z * u + x * h)) + ((z + (z * u + x * h)) * u + h))) * u + h)
     \<le> (z + x) / 2 ^ 21 + (x + 1) / 2 ^ 147"
proof -
  define cz where "cz = 5 * u + 4 * u * u + u * u * u"
  define cx where "cx = 3 * u + u * u + 2 * h + 3 * h * u + h * u * u"
  define c0 where "c0 = 3 * h + h * u"
  have e: "(((z + x) + ((z + x) * u + x * h)) * u + h) + ((z + x) * u + x * h)
        + (z * u + x * h) + ((z + (z * u + x * h)) * u + h)
        + ((x + ((z + (z * u + x * h)) + ((z + (z * u + x * h)) * u + h))) * u + h)
     = z * cz + x * cx + c0"
    unfolding cz_def cx_def c0_def by (simp add: algebra_simps)
  have 1: "cz \<le> 1 / 2 ^ 21" unfolding cz_def u by simp
  have 2: "cx \<le> 1 / 2 ^ 21 + 1 / 2 ^ 147" unfolding cx_def u h by simp
  have 3: "c0 \<le> 1 / 2 ^ 147" unfolding c0_def u h by simp
  have "z * cz + x * cx + c0 \<le> z * (1 / 2 ^ 21) + x * (1 / 2 ^ 21 + 1 / 2 ^ 147) + 1 / 2 ^ 147"
    by (intro add_mono mult_left_mono 1 2 3 x0 z0)
  also have "\<dots> = (z + x) / 2 ^ 21 + (x + 1) / 2 ^ 147"
    by (simp add: algebra_simps add_divide_distrib)
  finally show ?thesis unfolding e .
qed

lemma distrib_err:
  fixes W P :: rat
  assumes q1: "\<bar>Q1 - (P + 1)\<bar> \<le> \<bar>P + 1\<bar> / 2 ^ 24 + 1 / 2 ^ 150"
    and a: "\<bar>a - W * Q1\<bar> \<le> \<bar>W * Q1\<bar> / 2 ^ 24 + 1 / 2 ^ 150"
    and q0: "\<bar>Q0 - (P + 0)\<bar> \<le> \<bar>P + 0\<bar> / 2 ^ 24 + 1 / 2 ^ 150"
    and d: "\<bar>D - W * Q0\<bar> \<le> \<bar>W * Q0\<bar> / 2 ^ 24 + 1 / 2 ^ 150"
    and b: "\<bar>b - (W + D)\<bar> \<le> \<bar>W + D\<bar> / 2 ^ 24 + 1 / 2 ^ 150"
  shows "\<bar>a - b\<bar> \<le> \<bar>W\<bar> * (\<bar>P\<bar> + 1) / 2 ^ 21 + (\<bar>W\<bar> + 1) / 2 ^ 147"
proof -
  define u :: rat where "u = 1 / 2 ^ 24"
  define h :: rat where "h = 1 / 2 ^ 150"
  define x where "x = \<bar>W\<bar>"
  define z where "z = \<bar>W\<bar> * \<bar>P\<bar>"
  define y where "y = \<bar>P\<bar>"
  have x0: "0 \<le> x" and z0: "0 \<le> z" and y0: "0 \<le> y" by (simp_all add: x_def z_def y_def)
  have u0: "0 \<le> u" and h0: "0 \<le> h" by (simp_all add: u_def h_def)
  have zy: "x * y = z" by (simp add: x_def y_def z_def)
  have m: "x * t \<le> x * s" if "t \<le> s" for t s :: rat
    using that x0 by (rule mult_left_mono)
  have mu: "t * u \<le> s * u" if "t \<le> s" for t s :: rat
    using that u0 by (rule mult_right_mono)
  have q1u: "\<bar>Q1 - (P + 1)\<bar> \<le> \<bar>P + 1\<bar> * u + h"
    and au: "\<bar>a - W * Q1\<bar> \<le> \<bar>W * Q1\<bar> * u + h"
    and q0': "\<bar>Q0 - P\<bar> \<le> y * u + h"
    and du: "\<bar>D - W * Q0\<bar> \<le> \<bar>W * Q0\<bar> * u + h"
    and bu: "\<bar>b - (W + D)\<bar> \<le> \<bar>W + D\<bar> * u + h"
    using q1 a q0 d b by (simp_all add: u_def h_def y_def)
  have q1': "\<bar>Q1 - (P + 1)\<bar> \<le> (y + 1) * u + h"
  proof -
    have "\<bar>P + 1\<bar> * u \<le> (y + 1) * u" unfolding y_def by (rule mu) simp
    then show ?thesis using q1u by linarith
  qed
  have aQ1: "\<bar>Q1\<bar> \<le> (y + 1) + ((y + 1) * u + h)"
  proof -
    have "\<bar>Q1\<bar> \<le> \<bar>P + 1\<bar> + \<bar>Q1 - (P + 1)\<bar>" by simp
    moreover have "\<bar>P + 1\<bar> \<le> y + 1" by (simp add: y_def)
    ultimately show ?thesis using q1' by linarith
  qed
  have aQ0: "\<bar>Q0\<bar> \<le> y + (y * u + h)"
  proof -
    have "\<bar>Q0\<bar> \<le> \<bar>P\<bar> + \<bar>Q0 - P\<bar>" by simp
    then show ?thesis using q0' by (simp add: y_def)
  qed
  have 1: "\<bar>W * Q1 - W * (P + 1)\<bar> \<le> (z + x) * u + x * h"
  proof -
    have "\<bar>W * Q1 - W * (P + 1)\<bar> = x * \<bar>Q1 - (P + 1)\<bar>"
      by (simp add: abs_mult [symmetric] right_diff_distrib x_def)
    also have "\<dots> \<le> x * ((y + 1) * u + h)" using q1' by (rule m)
    also have "\<dots> = (z + x) * u + x * h" by (simp add: algebra_simps zy [symmetric])
    finally show ?thesis .
  qed
  have g1: "\<bar>W * Q1\<bar> \<le> (z + x) + ((z + x) * u + x * h)"
  proof -
    have "\<bar>W * Q1\<bar> = x * \<bar>Q1\<bar>" by (simp add: abs_mult x_def)
    also have "\<dots> \<le> x * ((y + 1) + ((y + 1) * u + h))" using aQ1 by (rule m)
    also have "\<dots> = (z + x) + ((z + x) * u + x * h)" by (simp add: algebra_simps zy [symmetric])
    finally show ?thesis .
  qed
  have 2: "\<bar>a - W * Q1\<bar> \<le> ((z + x) + ((z + x) * u + x * h)) * u + h"
  proof -
    have "\<bar>W * Q1\<bar> * u \<le> ((z + x) + ((z + x) * u + x * h)) * u" using g1 by (rule mu)
    then show ?thesis using au by linarith
  qed
  have 3: "\<bar>W * Q0 - W * P\<bar> \<le> z * u + x * h"
  proof -
    have "\<bar>W * Q0 - W * P\<bar> = x * \<bar>Q0 - P\<bar>"
      by (simp add: abs_mult [symmetric] right_diff_distrib x_def)
    also have "\<dots> \<le> x * (y * u + h)" using q0' by (rule m)
    also have "\<dots> = z * u + x * h" by (simp add: algebra_simps zy [symmetric])
    finally show ?thesis .
  qed
  have g3: "\<bar>W * Q0\<bar> \<le> z + (z * u + x * h)"
  proof -
    have "\<bar>W * Q0\<bar> = x * \<bar>Q0\<bar>" by (simp add: abs_mult x_def)
    also have "\<dots> \<le> x * (y + (y * u + h))" using aQ0 by (rule m)
    also have "\<dots> = z + (z * u + x * h)" by (simp add: algebra_simps zy [symmetric])
    finally show ?thesis .
  qed
  have 4: "\<bar>D - W * Q0\<bar> \<le> (z + (z * u + x * h)) * u + h"
  proof -
    have "\<bar>W * Q0\<bar> * u \<le> (z + (z * u + x * h)) * u" using g3 by (rule mu)
    then show ?thesis using du by linarith
  qed
  have g4: "\<bar>D\<bar> \<le> (z + (z * u + x * h)) + ((z + (z * u + x * h)) * u + h)"
  proof -
    have "\<bar>D\<bar> \<le> \<bar>W * Q0\<bar> + \<bar>D - W * Q0\<bar>" by simp
    then show ?thesis using g3 4 by linarith
  qed
  have 5: "\<bar>b - (W + D)\<bar> \<le> (x + ((z + (z * u + x * h)) + ((z + (z * u + x * h)) * u + h))) * u + h"
  proof -
    have "\<bar>W + D\<bar> \<le> x + \<bar>D\<bar>" by (simp add: x_def)
    then have "\<bar>W + D\<bar> \<le> x + ((z + (z * u + x * h)) + ((z + (z * u + x * h)) * u + h))"
      using g4 by linarith
    then have "\<bar>W + D\<bar> * u \<le> (x + ((z + (z * u + x * h)) + ((z + (z * u + x * h)) * u + h))) * u"
      by (rule mu)
    then show ?thesis using bu by linarith
  qed
  have "a - b = (a - W * Q1) + (W * Q1 - W * (P + 1)) - (W * Q0 - W * P) - (D - W * Q0)
        - (b - (W + D))"
    by (simp add: algebra_simps)
  then have "\<bar>a - b\<bar> \<le> \<bar>a - W * Q1\<bar> + \<bar>W * Q1 - W * (P + 1)\<bar> + \<bar>W * Q0 - W * P\<bar>
        + \<bar>D - W * Q0\<bar> + \<bar>b - (W + D)\<bar>"
    by linarith
  then have "\<bar>a - b\<bar> \<le> (((z + x) + ((z + x) * u + x * h)) * u + h) + ((z + x) * u + x * h)
        + (z * u + x * h) + ((z + (z * u + x * h)) * u + h)
        + ((x + ((z + (z * u + x * h)) + ((z + (z * u + x * h)) * u + h))) * u + h)"
    using 1 2 3 4 5 by linarith
  also have "\<dots> \<le> (z + x) / 2 ^ 21 + (x + 1) / 2 ^ 147"
    using x0 z0 u_def h_def by (rule err_sum_le)
  also have "\<dots> = \<bar>W\<bar> * (\<bar>P\<bar> + 1) / 2 ^ 21 + (\<bar>W\<bar> + 1) / 2 ^ 147"
    by (simp add: x_def z_def algebra_simps)
  finally show ?thesis .
qed

lemma close32_distrib: "close32 w (s * m) (w * (s * m + 1)) (w + w * (s * m + 0))"
proof (cases "\<exists>a b. w * (s * m + 1) = Finite a \<and> w + w * (s * m + 0) = Finite b")
  case False
  then show ?thesis
    by (cases "w * (s * m + 1)"; cases "w + w * (s * m + 0)"; cases w; cases "s * m") simp_all
next
  case True
  then obtain a b where a: "w * (s * m + 1) = Finite a" and b: "w + w * (s * m + 0) = Finite b"
    by blast
  from f32_mul_Finite [OF a] obtain W Q1 where w: "w = Finite W" and q1: "s * m + 1 = Finite Q1"
    and a': "a = round32 (W * Q1)" by blast
  from f32_add_Finite [OF q1] obtain P where p: "s * m = Finite P" and q1': "Q1 = round32 (P + 1)"
    by (auto simp: one_f32_def)
  from f32_add_Finite [OF b] w obtain D where d: "w * (s * m + 0) = Finite D"
    and b': "b = round32 (W + D)" by auto
  from f32_mul_Finite [OF d] w obtain Q0 where q0: "s * m + 0 = Finite Q0"
    and d': "D = round32 (W * Q0)" by auto
  from f32_add_Finite [OF q0] p have q0': "Q0 = round32 (P + 0)"
    by (auto simp: zero_f32_def)
  have "\<bar>a - b\<bar> \<le> \<bar>W\<bar> * (\<bar>P\<bar> + 1) / 2 ^ 21 + (\<bar>W\<bar> + 1) / 2 ^ 147"
    unfolding a' b' d' q0' q1'
    by (rule distrib_err) (rule round32_err)+
  then show ?thesis using a b w p by (simp add: tol_def)
qed

section \<open>Weight materialization\<close>

lemma example_linear_fitted: "fitted (example_adapter example_linear ti [10, 20, 30])
  = ti" "fitted (example_adapter example_linear ti [10, 20]) = (\<not> ti)"
  by (simp_all add: example_adapter_def example_linear_def init_Linear with_scale_def
      fitted_def wf_def numel_def zeros_def support_module_def wf_bias_def)

lemma example_conv_fitted: "fitted (example_adapter example_conv ti [10, 20])"
  by (simp add: example_adapter_def example_conv_def init_Conv with_scale_def
      fitted_def wf_def numel_def zeros_def support_module_def wf_bias_def)

lemma grouped_conv_fitted: "fitted (example_adapter grouped_conv ti [0, 0, 0, 0])"
  by (simp add: example_adapter_def grouped_conv_def init_Conv with_scale_def
      fitted_def wf_def numel_def zeros_def support_module_def wf_bias_def)

lemma bind_assoc: "bind (bind r f) g = bind r (\<lambda>v. bind (f v) g)"
  by (cases r) simp_all

lemma f32_linear_fitted: "fitted (example_adapter f32_linear False [v])"
  by (simp add: example_adapter_def f32_linear_def init_Linear with_scale_def
      fitted_def wf_def numel_def zeros_def support_module_def wf_bias_def)

lemma grouped_conv_fitted4: "fitted (example_adapter grouped_conv ti [a, b, c, d])"
  by (simp add: example_adapter_def grouped_conv_def init_Conv with_scale_def
      fitted_def wf_def numel_def zeros_def support_module_def wf_bias_def)

lemma depthwise_conv_fitted: "fitted (example_adapter depthwise_conv ti [a, b])"
  by (simp add: example_adapter_def depthwise_conv_def init_Conv with_scale_def
      fitted_def wf_def numel_def zeros_def support_module_def wf_bias_def)

lemma f32_merged_near_sum:
  fixes fd :: "f32 IA3Module"
  assumes "fitted fd"
  shows "\<exists>ow. org_weight fd = Inr ow \<and>
    (get_merged_weight fd m None None = Inl ShapeError
       \<and> get_diff_weight fd m None None = Inl ShapeError
     \<or> (\<exists>mg df sm.
          get_merged_weight fd m None None = Inr (mg, None)
          \<and> get_diff_weight fd m None None = Inr (df, None)
          \<and> tadd ow df = Inr sm \<and> shape sm = shape mg \<and> device sm = device mg
          \<and> (\<forall>idx. valid_index (shape mg) idx \<longrightarrow>
                (\<exists>W\<in>set (data ow). \<exists>S\<in>set (data (weight fd)).
                   get mg idx = W * (S * m + 1) \<and> get sm idx = W + W * (S * m + 0)
                   \<and> close32 W (S * m) (get mg idx) (get sm idx)))))"
proof -
  from make_weight_forms [OF assms, of m] obtain ow where ow: "org_weight fd = Inr ow"
    and c: "(\<forall>c. make_weight fd m None None c = Inl ShapeError)
     \<or> (\<exists>s W S.
          (\<forall>idx. valid_index s idx \<longrightarrow> W idx \<in> set (data ow) \<and> S idx \<in> set (data (weight fd)))
          \<and> (\<forall>c. make_weight fd m None None c =
                Inr (tabulate s (device ow) (\<lambda>idx. W idx * (S idx * m + (if c then 0 else 1)))))
          \<and> (\<forall>g dv. tadd ow (tabulate s dv g) =
                Inr (tabulate s (device ow) (\<lambda>idx. W idx + g idx))))"
    by blast
  from c show ?thesis
  proof
    assume "\<forall>c. make_weight fd m None None c = Inl ShapeError"
    then show ?thesis using ow by (simp add: get_merged_weight_def get_diff_weight_def)
  next
    assume "\<exists>s W S.
          (\<forall>idx. valid_index s idx \<longrightarrow> W idx \<in> set (data ow) \<and> S idx \<in> set (data (weight fd)))
          \<and> (\<forall>c. make_weight fd m None None c =
                Inr (tabulate s (device ow) (\<lambda>idx. W idx * (S idx * m + (if c then 0 else 1)))))
          \<and> (\<forall>g dv. tadd ow (tabulate s dv g) =
                Inr (tabulate s (device ow) (\<lambda>idx. W idx + g idx)))"
    then obtain s W S where
      mem: "\<And>idx. valid_index s idx \<Longrightarrow> W idx \<in> set (data ow) \<and> S idx \<in> set (data (weight fd))"
      and mw: "\<And>c. make_weight fd m None None c =
                Inr (tabulate s (device ow) (\<lambda>idx. W idx * (S idx * m + (if c then 0 else 1))))"
      and ta: "\<And>g dv. tadd ow (tabulate s dv g) =
                Inr (tabulate s (device ow) (\<lambda>idx. W idx + g idx))"
      by blast
    let ?mg = "tabulate s (device ow) (\<lambda>idx. W idx * (S idx * m + 1))"
    let ?df = "tabulate s (device ow) (\<lambda>idx. W idx * (S idx * m + 0))"
    let ?sm = "tabulate s (device ow) (\<lambda>idx. W idx + W idx * (S idx * m + 0))"
    have 1: "get_merged_weight fd m None None = Inr (?mg, None)"
      using mw [of False] by (simp add: get_merged_weight_def)
    have 2: "get_diff_weight fd m None None = Inr (?df, None)"
      using mw [of True] by (simp add: get_diff_weight_def)
    have 3: "tadd ow ?df = Inr ?sm" by (rule ta)
    have 4: "\<forall>idx. valid_index (shape ?mg) idx \<longrightarrow>
                (\<exists>W\<in>set (data ow). \<exists>S\<in>set (data (weight fd)).
                   get ?mg idx = W * (S * m + 1) \<and> get ?sm idx = W + W * (S * m + 0)
                   \<and> close32 W (S * m) (get ?mg idx) (get ?sm idx))"
    proof (intro allI impI)
      fix idx assume "valid_index (shape ?mg) idx"
      then have v: "valid_index s idx" by simp
      have "get ?mg idx = W idx * (S idx * m + 1)" "get ?sm idx = W idx + W idx * (S idx * m + 0)"
        using v by (simp_all add: get_tabulate)
      then show "\<exists>W\<in>set (data ow). \<exists>S\<in>set (data (weight fd)).
                   get ?mg idx = W * (S * m + 1) \<and> get ?sm idx = W + W * (S * m + 0)
                   \<and> close32 W (S * m) (get ?mg idx) (get ?sm idx)"
        using mem [OF v] close32_distrib [of "W idx" "S idx" m] by auto
    qed
    have 5: "shape ?sm = shape ?mg" "device ?sm = device ?mg" by simp_all
    from 1 2 3 4 5 ow show ?thesis by blast
  qed
qed

text \<open>
  C1. In single precision the merged weight is not the wrapped weight plus the
  diff weight, element by element: on a linear layer with the weight 3, the
  scale entry \<open>2\<^sup>2\<^sup>4\<close> and the multiplier 1, \<open>2\<^sup>2\<^sup>4 + 1\<close> is rounded to \<open>2\<^sup>2\<^sup>4\<close>
  and the merged weight is \<open>3 * 2\<^sup>2\<^sup>4 = 50331648\<close>, while the diff weight is
  \<open>50331648\<close> and \<open>3 + 50331648\<close> is rounded to \<open>50331652\<close>.
\<close>

theorem merged_weight_differs_in_float32:
  "get_merged_weight (example_adapter f32_linear False [Finite 16777216]) 1 None None
     = Inr (\<lparr>shape = [1, 1], data = [Finite 50331648], device = ''cpu''\<rparr>, None)
   \<and> get_diff_weight (example_adapter f32_linear False [Finite 16777216]) 1 None None
     = Inr (\<lparr>shape = [1, 1], data = [Finite 50331648], device = ''cpu''\<rparr>, None)
   \<and> org_weight (example_adapter f32_linear False [Finite 16777216])
     = Inr \<lparr>shape = [1, 1], data = [Finite 3], device = ''cpu''\<rparr>
   \<and> tadd \<lparr>shape = [1, 1], data = [Finite 3], device = ''cpu''\<rparr>
        \<lparr>shape = [1, 1], data = [Finite 50331648], device = ''cpu''\<rparr>
     = Inr \<lparr>shape = [1, 1], data = [Finite 50331652], device = ''cpu''\<rparr>
   \<and> get_merged_weight (example_adapter f32_linear False [Finite 16777216]) 1 None None
     \<noteq> bind (get_diff_weight (example_adapter f32_linear False [Finite 16777216]) 1 None None)
         (\<lambda>r. bind (org_weight (example_adapter f32_linear False [Finite 16777216]))
         (\<lambda>ow. bind (tadd ow (fst r)) (\<lambda>t. Inr (t, None))))"
  by code_simp

text \<open>
  C1, up to rounding. For every fitted adapter (linear or convolution, scaling
  the input or the output) and every multiplier: in exact arithmetic
  \<^verbatim>\<open>get_merged_weight(m)\<close> is the wrapped layer's weight plus the tensor of
  \<^verbatim>\<open>get_diff_weight(m)\<close>, element by element, and when one of the two calls
  raises, so does the other. In single precision the two calls raise together,
  or the merged weight and the sum have the same shape and device, every element
  of the merged weight is \<open>W * (S * m + 1)\<close> and the element of the sum at the
  same position is \<open>W + W * (S * m + 0)\<close> for an element \<open>W\<close> of the wrapped weight
  and an entry \<open>S\<close> of the scale vector, and the two are close: when both are
  finite they differ by at most \<open>tol W (S * m)\<close>.
\<close>

theorem merged_weight_eq_original_plus_diff:
  fixes ad :: "'a::comm_ring_1 IA3Module" and fd :: "f32 IA3Module"
  assumes "fitted ad" and "fitted fd"
  shows "get_merged_weight ad m None None =
           bind (get_diff_weight ad m None None) (\<lambda>r.
           bind (org_weight ad) (\<lambda>ow.
           bind (tadd ow (fst r)) (\<lambda>t. Inr (t, None))))
       \<and> (\<exists>ow. org_weight fd = Inr ow \<and>
            (get_merged_weight fd k None None = Inl ShapeError
               \<and> get_diff_weight fd k None None = Inl ShapeError
             \<or> (\<exists>mg df sm.
                  get_merged_weight fd k None None = Inr (mg, None)
                  \<and> get_diff_weight fd k None None = Inr (df, None)
                  \<and> tadd ow df = Inr sm \<and> shape sm = shape mg \<and> device sm = device mg
                  \<and> (\<forall>idx. valid_index (shape mg) idx \<longrightarrow>
                        (\<exists>W\<in>set (data ow). \<exists>S\<in>set (data (weight fd)).
                           get mg idx = W * (S * k + 1) \<and> get sm idx = W + W * (S * k + 0)
                           \<and> close32 W (S * k) (get mg idx) (get sm idx))))))"
proof
  show "get_merged_weight ad m None None =
           bind (get_diff_weight ad m None None) (\<lambda>r.
           bind (org_weight ad) (\<lambda>ow.
           bind (tadd ow (fst r)) (\<lambda>t. Inr (t, None))))"
    using merged_eq_plus_diff [OF assms(1), of m]
    by (cases "make_weight ad m None None True")
       (simp_all add: get_merged_weight_def get_diff_weight_def bind_assoc)
  show "\<exists>ow. org_weight fd = Inr ow \<and>
            (get_merged_weight fd k None None = Inl ShapeError
               \<and> get_diff_weight fd k None None = Inl ShapeError
             \<or> (\<exists>mg df sm.
                  get_merged_weight fd k None None = Inr (mg, None)
                  \<and> get_diff_weight fd k None None = Inr (df, None)
                  \<and> tadd ow df = Inr sm \<and> shape sm = shape mg \<and> device sm = device mg
                  \<and> (\<forall>idx. valid_index (shape mg) idx \<longrightarrow>
                        (\<exists>W\<in>set (data ow). \<exists>S\<in>set (data (weight fd)).
                           get mg idx = W * (S * k + 1) \<and> get sm idx = W + W * (S * k + 0)
                           \<and> close32 W (S * k) (get mg idx) (get sm idx)))))"
    using assms(2) by (rule f32_merged_near_sum)
qed

theorem merged_weight_eq_original_plus_diff_witness:
  "fitted (example_adapter example_linear False [10, 20])
   \<and> get_diff_weight (example_adapter example_linear False [10, 20]) 2 None None =
       Inr (\<lparr>shape = [2, 3], data = [20, 40, 60, 160, 200, 240], device = ''cpu''\<rparr>, None)
   \<and> get_merged_weight (example_adapter example_linear False [10, 20]) 2 None None =
       Inr (\<lparr>shape = [2, 3], data = [21, 42, 63, 164, 205, 246], device = ''cpu''\<rparr>, None)
   \<and> fitted (example_adapter f32_linear False [Finite 16777216])
   \<and> valid_index [1, 1] [0, 0]
   \<and> close32 (Finite 3) (Finite 16777216) (Finite 50331648) (Finite 50331652)"
proof -
  let ?ad = "example_adapter example_linear False [10, 20]"
  let ?fd = "example_adapter f32_linear False [Finite 16777216]"
  let ?M = "\<lparr>shape = [1, 1], data = [Finite 50331648], device = ''cpu''\<rparr>"
  let ?D = "\<lparr>shape = [1, 1], data = [Finite 50331648], device = ''cpu''\<rparr>"
  let ?S = "\<lparr>shape = [1, 1], data = [Finite 50331652], device = ''cpu''\<rparr>"
  let ?O = "\<lparr>shape = [1, 1], data = [Finite 3], device = ''cpu''\<rparr>"
  have f: "fitted ?ad" by (simp add: example_linear_fitted)
  have ff: "fitted ?fd" by (rule f32_linear_fitted)
  have d: "get_diff_weight ?ad 2 None None =
       Inr (\<lparr>shape = [2, 3], data = [20, 40, 60, 160, 200, 240], device = ''cpu''\<rparr>, None)"
    by code_simp
  have ow: "org_weight ?ad =
       Inr \<lparr>shape = [2, 3], data = [1, 2, 3, 4, 5, 6], device = ''cpu''\<rparr>"
    by code_simp
  have s: "tadd \<lparr>shape = [2, 3], data = [1, 2, 3, 4, 5, 6 :: int], device = ''cpu''\<rparr>
       \<lparr>shape = [2, 3], data = [20, 40, 60, 160, 200, 240], device = ''cpu''\<rparr> =
       Inr \<lparr>shape = [2, 3], data = [21, 42, 63, 164, 205, 246], device = ''cpu''\<rparr>"
    by code_simp
  have fo: "org_weight ?fd = Inr ?O" by code_simp
  have fm: "get_merged_weight ?fd 1 None None = Inr (?M, None)" by code_simp
  have fdf: "get_diff_weight ?fd 1 None None = Inr (?D, None)" by code_simp
  have fs: "tadd ?O ?D = Inr ?S" by code_simp
  have wt: "data (weight ?fd) = [Finite 16777216]" by code_simp
  have v: "valid_index [1, 1] [0, 0]" by simp
  have g: "get ?M [0, 0] = Finite 50331648" "get ?S [0, 0] = Finite 50331652" by code_simp+
  have p: "Finite 16777216 * 1 = Finite 16777216" by code_simp
  note t = merged_weight_eq_original_plus_diff [OF f ff, of 2 1]
  from t have 1: "get_merged_weight ?ad 2 None None =
       Inr (\<lparr>shape = [2, 3], data = [21, 42, 63, 164, 205, 246], device = ''cpu''\<rparr>, None)"
    by (simp add: d ow s)
  from t fo fm fdf fs have "\<forall>idx. valid_index (shape ?M) idx \<longrightarrow>
       (\<exists>W\<in>set (data ?O). \<exists>S\<in>set (data (weight ?fd)).
          close32 W (S * 1) (get ?M idx) (get ?S idx))"
    by auto
  with v wt g p have 2: "close32 (Finite 3) (Finite 16777216) (Finite 50331648) (Finite 50331652)"
    by auto
  from f d 1 ff v 2 show ?thesis by simp
qed

lemma make_weight_elements:
  assumes "fitted ad" "train_input ad \<longrightarrow> ungrouped (org_module ad)"
  shows "\<exists>ow r. org_weight ad = Inr ow \<and> make_weight ad m None None diff = Inr r
               \<and> shape r = shape ow
               \<and> (\<forall>idx. valid_index (shape ow) idx \<longrightarrow>
                     get r idx = get ow idx *
                       (get (weight ad) (chan_index (org_module ad)
                          (idx ! (if train_input ad then 1 else 0))) * m
                        + (if diff then 0 else 1)))"
proof -
  from assms obtain ow where ow: "org_weight ad = Inr ow"
    and mw: "make_weight ad m None None diff = Inr (scaled ad ow m diff)"
    using make_weight_scaled [of ad m diff] by blast
  show ?thesis
    using ow mw get_scaled [of ow _ ad m diff]
    by (intro exI [of _ ow] exI [of _ "scaled ad ow m diff"]) simp
qed

text \<open>
  C3. \<^verbatim>\<open>make_weight\<close> multiplies the wrapped weight by the effective vector
  directly when the adapter scales the input. The effective vector has one
  entry per input channel, and axis 1 of the weight of a convolution has
  \<open>in_channels div groups\<close> entries. With 4 input channels in 2 groups the
  product does not broadcast and \<^verbatim>\<open>make_weight\<close> raises, for a diff and for a
  merged weight, whatever the multiplier. With 2 input channels in 2 groups the
  product broadcasts to the shape \<open>[2, 2, 1]\<close>, which is not the shape
  \<open>[2, 1, 1]\<close> of the wrapped weight: the weight of output channel 0, which reads
  input channel 0 only, is returned scaled by the factor of input channel 0 and
  by the factor of input channel 1.
\<close>

theorem make_weight_grouped_conv_input_scaling:
  "fitted (example_adapter grouped_conv True [1, 2, 3, 4])
   \<and> train_input (example_adapter grouped_conv True [1, 2, 3, 4])
   \<and> org_weight (example_adapter grouped_conv True [1, 2, 3, 4])
       = Inr \<lparr>shape = [4, 2, 1], data = [1, 2, 3, 4, 5, 6, 7, 8], device = ''cpu''\<rparr>
   \<and> weight (example_adapter grouped_conv True [1, 2, 3, 4])
       = \<lparr>shape = [1, 4, 1], data = [1, 2, 3, 4], device = ''cpu''\<rparr>
   \<and> (\<forall>m diff. make_weight (example_adapter grouped_conv True [1, 2, 3, 4]) m None None diff
         = Inl ShapeError)
   \<and> fitted (example_adapter depthwise_conv True [10, 20])
   \<and> train_input (example_adapter depthwise_conv True [10, 20])
   \<and> org_weight (example_adapter depthwise_conv True [10, 20])
       = Inr \<lparr>shape = [2, 1, 1], data = [3, 5], device = ''cpu''\<rparr>
   \<and> make_weight (example_adapter depthwise_conv True [10, 20]) 1 None None False
       = Inr \<lparr>shape = [2, 2, 1], data = [33, 63, 55, 105], device = ''cpu''\<rparr>"
proof -
  let ?ad = "example_adapter grouped_conv True [1, 2, 3, 4]"
  let ?dw = "example_adapter depthwise_conv True [10, 20]"
  have 1: "fitted ?ad" by (rule grouped_conv_fitted4)
  have 2: "train_input ?ad"
    "org_weight ?ad = Inr \<lparr>shape = [4, 2, 1], data = [1, 2, 3, 4, 5, 6, 7, 8], device = ''cpu''\<rparr>"
    "weight ?ad = \<lparr>shape = [1, 4, 1], data = [1, 2, 3, 4], device = ''cpu''\<rparr>"
    by code_simp+
  have b: "broadcast_shapes [4, 2, 1] [1, 4, 1] = None" by code_simp
  have 3: "\<forall>m diff. make_weight ?ad m None None diff = Inl ShapeError"
    using 2 b by (simp add: make_weight_plain tmul_def binop_None)
  have 4: "fitted ?dw" by (rule depthwise_conv_fitted)
  have 5: "train_input ?dw"
    "org_weight ?dw = Inr \<lparr>shape = [2, 1, 1], data = [3, 5], device = ''cpu''\<rparr>"
    "make_weight ?dw 1 None None False
       = Inr \<lparr>shape = [2, 2, 1], data = [33, 63, 55, 105], device = ''cpu''\<rparr>"
    by code_simp+
  from 1 2 3 4 5 show ?thesis by blast
qed


text \<open>
  C4. On a linear layer, with the output scaled, the adapter as
  \<^verbatim>\<open>__init__\<close> returns it (scale vector all 0) gives
  \<^verbatim>\<open>get_merged_weight(multiplier=1)\<close> equal to the wrapped layer's weight.
\<close>

theorem fresh_linear_merged_weight_is_original:
  fixes w :: "'a::comm_ring_1 tensor"
  assumes "wf_layer (Linear i oo w b)"
    and "IA3Module_init nm (Linear i oo w b) mult ldim mdrop bypass rs False = Inr ad"
  shows "get_merged_weight ad 1 None None = Inr (w, None)"
proof -
  have f: "fitted ad" using assms by (rule init_fitted)
  have om: "org_module ad = Linear i oo w b" and wt: "weight ad = zeros [oo] ''cpu''"
    and ti: "\<not> train_input ad"
    using assms(2) by (auto simp: init_Linear)
  have sw: "shape w = [oo, i]" and wf: "wf w" using assms(1) by simp_all
  have "scaled ad w 1 False = tabulate (shape w) (device w) (get w)"
    unfolding scaled_def
  proof (rule tabulate_cong)
    fix idx assume v: "valid_index (shape w) idx"
    then obtain j k where "idx = [j, k]" "j < oo" using sw by auto
    then show "get w idx * (get (weight ad) (chan_index (org_module ad)
          (idx ! (if train_input ad then 1 else 0))) * 1 + (if False then 0 else 1)) = get w idx"
      using om wt ti by (simp add: get_zeros)
  qed
  also have "\<dots> = w" using wf by (rule tabulate_get)
  finally show ?thesis
    using make_weight_Linear [OF f om, of 1 False] by (simp add: get_merged_weight_def)
qed

theorem fresh_linear_merged_weight_is_original_witness:
  "wf_layer example_linear
   \<and> (\<exists>ad. IA3Module_init ''m'' example_linear 1 4 0 False False False = Inr ad
         \<and> get_merged_weight ad 1 None None =
             Inr (\<lparr>shape = [2, 3], data = [1, 2, 3, 4, 5, 6], device = ''cpu''\<rparr>, None))"
proof -
  let ?w = "\<lparr>shape = [2, 3], data = [1, 2, 3, 4, 5, 6 :: int], device = ''cpu''\<rparr>"
  have w: "wf_layer (Linear 3 2 ?w None)"
    by (simp add: wf_def numel_def wf_bias_def)
  obtain ad where ad: "IA3Module_init ''m'' (Linear 3 2 ?w None) 1 4 0 False False False = Inr ad"
    by (simp add: init_Linear)
  from fresh_linear_merged_weight_is_original [OF w ad] w ad show ?thesis
    by (auto simp: example_linear_def)
qed

lemma diff_weight_zero_when_fresh:
  fixes org :: "'a::comm_ring_1 layer"
  assumes "wf_layer org" "IA3Module_init nm org mult ldim mdrop bypass rs ti = Inr ad"
    and "ti \<longrightarrow> ungrouped org"
  shows "\<exists>ow. org_weight ad = Inr ow
           \<and> get_diff_weight ad m None None = Inr (zeros (shape ow) (device ow), None)"
proof -
  have f: "fitted ad" using assms(1,2) by (rule init_fitted)
  obtain s where a: "org_module ad = org" "train_input ad = ti"
    and z: "weight ad = zeros s ''cpu''"
    using init_weight_zeros [OF assms(1,2)] by blast
  then have u: "train_input ad \<longrightarrow> ungrouped (org_module ad)" using assms(3) by simp
  from make_weight_scaled [OF f u, of m True] obtain ow where ow: "org_weight ad = Inr ow"
    and mw: "make_weight ad m None None True = Inr (scaled ad ow m True)" by blast
  have "scaled ad ow m True = tabulate (shape ow) (device ow) (\<lambda>idx. 0)"
    unfolding scaled_def
  proof (rule tabulate_cong)
    fix idx assume "valid_index (shape ow) idx"
    from chan_index_valid [OF f u ow this]
    have "valid_index s (chan_index (org_module ad) (idx ! (if train_input ad then 1 else 0)))"
      by (simp add: z)
    then have "get (weight ad)
        (chan_index (org_module ad) (idx ! (if train_input ad then 1 else 0))) = 0"
      unfolding z by (rule get_zeros)
    then show "get ow idx * (get (weight ad) (chan_index (org_module ad)
        (idx ! (if train_input ad then 1 else 0))) * m + (if True then 0 else 1)) = 0"
      by simp
  qed
  then show ?thesis using ow mw by (simp add: get_diff_weight_def zeros_tabulate)
qed

text \<open>
  C5. A convolution with \<open>groups = 2\<close> and 4 input channels has a weight of
  shape \<open>[4, 2, 1]\<close>; with \<^verbatim>\<open>train_on_input=True\<close> the scale vector has the
  shape \<open>[1, 4, 1]\<close>, and \<^verbatim>\<open>get_diff_weight\<close> on the new adapter raises for
  every multiplier instead of returning a zero tensor. With \<open>groups = 2\<close> and
  2 input channels the weight has the shape \<open>[2, 1, 1]\<close> and the tensor
  returned has the shape \<open>[2, 2, 1]\<close>.
\<close>

theorem grouped_conv_diff_weight_raises:
  "wf_layer grouped_conv
   \<and> (\<exists>ad. IA3Module_init ''m'' grouped_conv 1 4 0 False False True = Inr ad
         \<and> shape (weight ad) = [1, 4, 1] \<and> data (weight ad) = [0, 0, 0, 0]
         \<and> (\<forall>m. get_diff_weight ad m None None = Inl ShapeError))
   \<and> wf_layer depthwise_conv
   \<and> (\<exists>ad. IA3Module_init ''m'' depthwise_conv 1 4 0 False False True = Inr ad
         \<and> org_weight ad = Inr \<lparr>shape = [2, 1, 1], data = [3, 5], device = ''cpu''\<rparr>
         \<and> get_diff_weight ad 1 None None =
             Inr (\<lparr>shape = [2, 2, 1], data = [0, 0, 0, 0], device = ''cpu''\<rparr>, None))"
proof -
  let ?ad = "projr (IA3Module_init ''m'' grouped_conv 1 4 0 False False True)"
  have w: "wf_layer grouped_conv"
    by (simp add: grouped_conv_def wf_def numel_def wf_bias_def)
  have i: "IA3Module_init ''m'' grouped_conv 1 4 0 False False True = Inr ?ad"
    by (simp add: grouped_conv_def init_Conv)
  have s: "shape (weight ?ad) = [1, 4, 1]" "data (weight ?ad) = [0, 0, 0, 0]"
    "train_input ?ad"
    "org_weight ?ad = Inr \<lparr>shape = [4, 2, 1], data = [1, 2, 3, 4, 5, 6, 7, 8], device = ''cpu''\<rparr>"
    by code_simp+
  have b: "broadcast_shapes [4, 2, 1] [1, 4, 1] = None" by code_simp
  have g: "get_diff_weight ?ad m None None = Inl ShapeError" for m
    using s b by (simp add: get_diff_weight_def make_weight_plain tmul_def binop_None)
  let ?dw = "projr (IA3Module_init ''m'' depthwise_conv 1 4 0 False False True)"
  have w': "wf_layer depthwise_conv"
    by (simp add: depthwise_conv_def wf_def numel_def wf_bias_def)
  have i': "IA3Module_init ''m'' depthwise_conv 1 4 0 False False True = Inr ?dw"
    by (simp add: depthwise_conv_def init_Conv)
  have d: "org_weight ?dw = Inr \<lparr>shape = [2, 1, 1], data = [3, 5], device = ''cpu''\<rparr>"
    "get_diff_weight ?dw 1 None None =
       Inr (\<lparr>shape = [2, 2, 1], data = [0, 0, 0, 0], device = ''cpu''\<rparr>, None)"
    by code_simp+
  have 1: "\<exists>ad. IA3Module_init ''m'' grouped_conv 1 4 0 False False True = Inr ad
         \<and> shape (weight ad) = [1, 4, 1] \<and> data (weight ad) = [0, 0, 0, 0]
         \<and> (\<forall>m. get_diff_weight ad m None None = Inl ShapeError)"
    using i s g by blast
  have 2: "\<exists>ad. IA3Module_init ''m'' depthwise_conv 1 4 0 False False True = Inr ad
         \<and> org_weight ad = Inr \<lparr>shape = [2, 1, 1], data = [3, 5], device = ''cpu''\<rparr>
         \<and> get_diff_weight ad 1 None None =
             Inr (\<lparr>shape = [2, 2, 1], data = [0, 0, 0, 0], device = ''cpu''\<rparr>, None)"
    using i' d by blast
  show ?thesis using w 1 w' 2 by blast
qed

lemma make_weight_split:
  "make_weight ad m shp dev diff =
     bind (make_weight ad m None None diff) (\<lambda>d.
     bind (case shp of None \<Rightarrow> Inr d | Some s \<Rightarrow> view d s) (\<lambda>d.
     Inr (case dev of None \<Rightarrow> d | Some dv \<Rightarrow> to d dv)))"
  by (simp add: make_weight_def Let_def bind_assoc)

lemma make_weight_args:
  assumes "make_weight ad m shp dev diff = Inr r"
  shows "\<exists>t. make_weight ad m None None diff = Inr t \<and> data r = data t
          \<and> shape r = (case shp of None \<Rightarrow> shape t | Some s \<Rightarrow> s)
          \<and> device r = (case dev of None \<Rightarrow> device t | Some dv \<Rightarrow> dv)"
proof -
  obtain t where t: "make_weight ad m None None diff = Inr t"
    and v: "bind (case shp of None \<Rightarrow> Inr t | Some s \<Rightarrow> view t s)
              (\<lambda>d. Inr (case dev of None \<Rightarrow> d | Some dv \<Rightarrow> to d dv)) = Inr r"
    using assms by (subst (asm) make_weight_split) (auto simp: bind_eq_Inr)
  have "data r = data t \<and> shape r = (case shp of None \<Rightarrow> shape t | Some s \<Rightarrow> s)
          \<and> device r = (case dev of None \<Rightarrow> device t | Some dv \<Rightarrow> dv)"
    using v by (cases shp; cases dev) (auto simp: view_def to_def split: if_splits)
  then show ?thesis using t by simp
qed

text \<open>
  C8. The \<^verbatim>\<open>shape\<close> and \<^verbatim>\<open>device\<close> arguments of
  \<^verbatim>\<open>get_merged_weight\<close> and \<^verbatim>\<open>get_diff_weight\<close> change the shape and
  the device of the returned tensor and nothing else: whenever the call returns,
  the call without the two arguments returns a tensor with the same elements in
  the same order. Neither call changes the adapter.
\<close>

theorem shape_device_args_keep_values:
  "(get_merged_weight ad m shp dev = Inr (r, n) \<longrightarrow>
      (\<exists>t. get_merged_weight ad m None None = Inr (t, n) \<and> data r = data t
         \<and> shape r = (case shp of None \<Rightarrow> shape t | Some s \<Rightarrow> s)
         \<and> device r = (case dev of None \<Rightarrow> device t | Some dv \<Rightarrow> dv)))
   \<and> (get_diff_weight ad m shp dev = Inr (r, n) \<longrightarrow>
      (\<exists>t. get_diff_weight ad m None None = Inr (t, n) \<and> data r = data t
         \<and> shape r = (case shp of None \<Rightarrow> shape t | Some s \<Rightarrow> s)
         \<and> device r = (case dev of None \<Rightarrow> device t | Some dv \<Rightarrow> dv)))
   \<and> snd (call_get_merged_weight ad m shp dev) = ad
   \<and> snd (call_get_diff_weight ad m shp dev) = ad"
proof (intro conjI impI)
  assume "get_merged_weight ad m shp dev = Inr (r, n)"
  then have "make_weight ad m shp dev False = Inr r" "n = None"
    by (auto simp: get_merged_weight_def bind_eq_Inr)
  then show "\<exists>t. get_merged_weight ad m None None = Inr (t, n) \<and> data r = data t
         \<and> shape r = (case shp of None \<Rightarrow> shape t | Some s \<Rightarrow> s)
         \<and> device r = (case dev of None \<Rightarrow> device t | Some dv \<Rightarrow> dv)"
    using make_weight_args [of ad m shp dev False r]
    by (auto simp: get_merged_weight_def)
next
  assume "get_diff_weight ad m shp dev = Inr (r, n)"
  then have "make_weight ad m shp dev True = Inr r" "n = None"
    by (auto simp: get_diff_weight_def bind_eq_Inr)
  then show "\<exists>t. get_diff_weight ad m None None = Inr (t, n) \<and> data r = data t
         \<and> shape r = (case shp of None \<Rightarrow> shape t | Some s \<Rightarrow> s)
         \<and> device r = (case dev of None \<Rightarrow> device t | Some dv \<Rightarrow> dv)"
    using make_weight_args [of ad m shp dev True r]
    by (auto simp: get_diff_weight_def)
qed (simp_all add: call_get_merged_weight_def call_get_diff_weight_def)

theorem shape_device_args_keep_values_witness:
  "get_merged_weight (example_adapter example_linear True [10, 20, 30]) 2 (Some [3, 2]) (Some ''cuda'') =
     Inr (\<lparr>shape = [3, 2], data = [21, 82, 183, 84, 205, 366], device = ''cuda''\<rparr>, None)
   \<and> get_merged_weight (example_adapter example_linear True [10, 20, 30]) 2 None None =
     Inr (\<lparr>shape = [2, 3], data = [21, 82, 183, 84, 205, 366], device = ''cpu''\<rparr>, None)"
proof -
  let ?ad = "example_adapter example_linear True [10, 20, 30]"
  let ?r = "\<lparr>shape = [3, 2], data = [21, 82, 183, 84, 205, 366 :: int], device = ''cuda''\<rparr>"
  have 1: "get_merged_weight ?ad 2 (Some [3, 2]) (Some ''cuda'') = Inr (?r, None)"
    by code_simp
  have 2: "get_merged_weight ?ad 2 None None =
     Inr (\<lparr>shape = [2, 3], data = [21, 82, 183, 84, 205, 366], device = ''cpu''\<rparr>, None)"
    by code_simp
  from shape_device_args_keep_values [of ?ad 2 "Some [3, 2]" "Some ''cuda''" ?r None] 1 2
  show ?thesis by simp
qed

section \<open>Forward\<close>

text \<open>
  C6. \<^verbatim>\<open>forward\<close> returns from its skip statement exactly when
  \<open>module_dropout\<close> is not 0, the adapter is in training mode and the random
  draw is below \<open>module_dropout\<close>; what it returns then is what the wrapped
  layer's own forward returns. In every other case it returns from the bypass
  statement or from the merged statement, whichever \<open>bypass_mode\<close> selects,
  with the adapted output. So with \<open>module_dropout = 1\<close> in training mode
  every draw from \<open>[0, 1)\<close> gives the wrapped layer's output, and with
  \<open>module_dropout = 0\<close> no draw takes the skip path: every call returns the
  adapted output.
\<close>

theorem forward_skip_path:
  "(fst (forward ad r x) = Skip \<longleftrightarrow>
      module_dropout ad \<noteq> 0 \<and> training ad \<and> r < module_dropout ad)
   \<and> (fst (forward ad r x) = Skip \<longrightarrow> snd (forward ad r x) = org_forward ad x)
   \<and> (fst (forward ad r x) \<noteq> Skip \<longrightarrow>
        forward ad r x =
          (if bypass_mode ad then (Bypass, bypass_forward ad x (multiplier ad))
           else (Merged,
             bind (get_merged_weight ad (multiplier ad) None None) (\<lambda>res.
             bind (layer_bias (org_module ad)) (\<lambda>bias.
             op (org_module ad) x (fst res) bias)))))
   \<and> (module_dropout ad = 1 \<and> training ad \<and> 0 \<le> r \<and> r < 1 \<longrightarrow>
        forward ad r x = (Skip, org_forward ad x))
   \<and> (module_dropout ad = 0 \<longrightarrow>
        fst (forward ad r x) \<noteq> Skip
        \<and> snd (forward ad r x) =
          (if bypass_mode ad then bypass_forward ad x (multiplier ad)
           else bind (get_merged_weight ad (multiplier ad) None None) (\<lambda>res.
                bind (layer_bias (org_module ad)) (\<lambda>bias.
                op (org_module ad) x (fst res) bias))))"
  by (simp add: forward_def)

theorem forward_skip_path_witness:
  "forward ((example_adapter example_linear False [10, 20])\<lparr>module_dropout := 1\<rparr>) (1 / 2)
     \<lparr>shape = [3], data = [1, 1, 1], device = ''cpu''\<rparr>
   = (Skip, Inr \<lparr>shape = [2], data = [6, 15], device = ''cpu''\<rparr>)
   \<and> forward ((example_adapter example_linear False [10, 20])\<lparr>module_dropout := 0\<rparr>) (1 / 2)
     \<lparr>shape = [3], data = [1, 1, 1], device = ''cpu''\<rparr>
   = (Merged, Inr \<lparr>shape = [2], data = [66, 315], device = ''cpu''\<rparr>)
   \<and> forward ((example_adapter example_linear False [10, 20])
        \<lparr>module_dropout := 0, bypass_mode := True\<rparr>) (1 / 2)
     \<lparr>shape = [3], data = [1, 1, 1], device = ''cpu''\<rparr>
   = (Bypass, Inr \<lparr>shape = [2], data = [66, 315], device = ''cpu''\<rparr>)"
proof -
  let ?ad = "example_adapter example_linear False [10, 20]"
  let ?x = "\<lparr>shape = [3], data = [1, 1, 1 :: int], device = ''cpu''\<rparr>"
  let ?a1 = "?ad\<lparr>module_dropout := 1\<rparr>"
  let ?a0 = "?ad\<lparr>module_dropout := 0\<rparr>"
  let ?ab = "?ad\<lparr>module_dropout := 0, bypass_mode := True\<rparr>"
  have t: "training ?a1" "module_dropout ?a1 = 1" "module_dropout ?a0 = 0" "\<not> bypass_mode ?a0"
    "module_dropout ?ab = 0" "bypass_mode ?ab"
    by (simp_all add: example_adapter_def example_linear_def init_Linear with_scale_def)
  have o: "org_forward ?a1 ?x = Inr \<lparr>shape = [2], data = [6, 15], device = ''cpu''\<rparr>"
    by code_simp
  have m: "bind (get_merged_weight ?a0 (multiplier ?a0) None None) (\<lambda>res.
           bind (layer_bias (org_module ?a0)) (\<lambda>bias. op (org_module ?a0) ?x (fst res) bias))
         = Inr \<lparr>shape = [2], data = [66, 315], device = ''cpu''\<rparr>"
    by code_simp
  have b: "bypass_forward ?ab ?x (multiplier ?ab)
         = Inr \<lparr>shape = [2], data = [66, 315], device = ''cpu''\<rparr>"
    by code_simp
  from forward_skip_path [of ?a1 "1 / 2" ?x] t o
  have 1: "forward ?a1 (1 / 2) ?x = (Skip, Inr \<lparr>shape = [2], data = [6, 15], device = ''cpu''\<rparr>)"
    by simp
  from forward_skip_path [of ?a0 "1 / 2" ?x] t m
  have 2: "forward ?a0 (1 / 2) ?x = (Merged, Inr \<lparr>shape = [2], data = [66, 315], device = ''cpu''\<rparr>)"
    by simp
  from forward_skip_path [of ?ab "1 / 2" ?x] t b
  have 3: "forward ?ab (1 / 2) ?x = (Bypass, Inr \<lparr>shape = [2], data = [66, 315], device = ''cpu''\<rparr>)"
    by simp
  from 1 2 3 show ?thesis by simp
qed

section \<open>Bypass forward\<close>

lemma bypass_forward_output:
  "\<not> train_input ad \<Longrightarrow>
   bypass_forward_aux ad x s diff =
     bind (org_forward ad x) (\<lambda>out. tmul out (sadd (smul (weight ad) s) (if diff then 0 else 1)))"
  by (simp add: bypass_forward_aux_def Let_def)

lemma bypass_forward_input:
  "train_input ad \<Longrightarrow>
   bypass_forward_aux ad x s diff =
     bind (tmul x (sadd (smul (weight ad) s) (if diff then 0 else 1))) (org_forward ad)"
  by (cases "tmul x (sadd (smul (weight ad) s) (if diff then 0 else 1))";
      cases "org_forward ad (projr (tmul x (sadd (smul (weight ad) s) (if diff then 0 else 1))))")
     (simp_all add: bypass_forward_aux_def Let_def)

lemma f32_bypass_near_sum:
  fixes fd :: "f32 IA3Module"
  shows "(wf (weight fd) \<and> \<not> train_input fd \<longrightarrow>
            (case org_forward fd u of
               Inl e \<Rightarrow> bypass_forward fd u k = Inl e \<and> bypass_forward_diff fd u k = Inl e
             | Inr out \<Rightarrow>
                 bypass_forward fd u k = Inl ShapeError
                   \<and> bypass_forward_diff fd u k = Inl ShapeError
                 \<or> (\<exists>y d sm.
                      bypass_forward fd u k = Inr y \<and> bypass_forward_diff fd u k = Inr d
                      \<and> tadd out d = Inr sm \<and> shape sm = shape y \<and> device sm = device y
                      \<and> (\<forall>idx. valid_index (shape y) idx \<longrightarrow>
                            (\<exists>W S. W = get out (bc_index (shape out) idx)
                               \<and> S = get (weight fd) (bc_index (shape (weight fd)) idx)
                               \<and> get y idx = W * (S * k + 1)
                               \<and> get sm idx = W + W * (S * k + 0)
                               \<and> close32 W (S * k) (get y idx) (get sm idx))))))"
proof (intro impI)
  assume a: "wf (weight fd) \<and> \<not> train_input fd"
  show "case org_forward fd u of
               Inl e \<Rightarrow> bypass_forward fd u k = Inl e \<and> bypass_forward_diff fd u k = Inl e
             | Inr out \<Rightarrow>
                 bypass_forward fd u k = Inl ShapeError
                   \<and> bypass_forward_diff fd u k = Inl ShapeError
                 \<or> (\<exists>y d sm.
                      bypass_forward fd u k = Inr y \<and> bypass_forward_diff fd u k = Inr d
                      \<and> tadd out d = Inr sm \<and> shape sm = shape y \<and> device sm = device y
                      \<and> (\<forall>idx. valid_index (shape y) idx \<longrightarrow>
                            (\<exists>W S. W = get out (bc_index (shape out) idx)
                               \<and> S = get (weight fd) (bc_index (shape (weight fd)) idx)
                               \<and> get y idx = W * (S * k + 1)
                               \<and> get sm idx = W + W * (S * k + 0)
                               \<and> close32 W (S * k) (get y idx) (get sm idx))))"
  proof (cases "org_forward fd u")
    case (Inl e)
    then show ?thesis using a
      by (simp add: bypass_forward_def bypass_forward_diff_def bypass_forward_output)
  next
    case (Inr out)
    have bf: "bypass_forward fd u k = tmul out (sadd (smul (weight fd) k) 1)"
      and bd: "bypass_forward_diff fd u k = tmul out (sadd (smul (weight fd) k) 0)"
      using a Inr by (simp_all add: bypass_forward_def bypass_forward_diff_def bypass_forward_output)
    show ?thesis
    proof (cases "broadcast_shapes (shape out) (shape (weight fd))")
      case None
      then show ?thesis using Inr bf bd by (simp add: tmul_def binop_None)
    next
      case (Some s)
      let ?W = "\<lambda>idx. get out (bc_index (shape out) idx)"
      let ?S = "\<lambda>idx. get (weight fd) (bc_index (shape (weight fd)) idx)"
      let ?y = "tabulate s (device out) (\<lambda>idx. ?W idx * (?S idx * k + 1))"
      let ?d = "tabulate s (device out) (\<lambda>idx. ?W idx * (?S idx * k + 0))"
      let ?sm = "tabulate s (device out) (\<lambda>idx. ?W idx + ?W idx * (?S idx * k + 0))"
      have 1: "bypass_forward fd u k = Inr ?y" "bypass_forward_diff fd u k = Inr ?d"
        using a bf bd tmul_eff [of "weight fd" out s k] Some by simp_all
      have 2: "tadd out ?d = Inr ?sm" using tadd_tabulate [OF Some] by simp
      have 3: "\<forall>idx. valid_index (shape ?y) idx \<longrightarrow>
                            (\<exists>W S. W = get out (bc_index (shape out) idx)
                               \<and> S = get (weight fd) (bc_index (shape (weight fd)) idx)
                               \<and> get ?y idx = W * (S * k + 1)
                               \<and> get ?sm idx = W + W * (S * k + 0)
                               \<and> close32 W (S * k) (get ?y idx) (get ?sm idx))"
      proof (intro allI impI)
        fix idx assume "valid_index (shape ?y) idx"
        then have v: "valid_index s idx" by simp
        have "get ?y idx = ?W idx * (?S idx * k + 1)" "get ?sm idx = ?W idx + ?W idx * (?S idx * k + 0)"
          using v by (simp_all add: get_tabulate)
        then show "\<exists>W S. W = get out (bc_index (shape out) idx)
                               \<and> S = get (weight fd) (bc_index (shape (weight fd)) idx)
                               \<and> get ?y idx = W * (S * k + 1)
                               \<and> get ?sm idx = W + W * (S * k + 0)
                               \<and> close32 W (S * k) (get ?y idx) (get ?sm idx)"
          using close32_distrib [of "?W idx" "?S idx" k] by simp
      qed
      have 4: "shape ?sm = shape ?y" "device ?sm = device ?y" by simp_all
      have "\<exists>y d sm.
                      bypass_forward fd u k = Inr y \<and> bypass_forward_diff fd u k = Inr d
                      \<and> tadd out d = Inr sm \<and> shape sm = shape y \<and> device sm = device y
                      \<and> (\<forall>idx. valid_index (shape y) idx \<longrightarrow>
                            (\<exists>W S. W = get out (bc_index (shape out) idx)
                               \<and> S = get (weight fd) (bc_index (shape (weight fd)) idx)
                               \<and> get y idx = W * (S * k + 1)
                               \<and> get sm idx = W + W * (S * k + 0)
                               \<and> close32 W (S * k) (get y idx) (get sm idx)))"
        by (rule exI [of _ ?y], rule exI [of _ ?d], rule exI [of _ ?sm]) (intro conjI 1 2 3 4)
      then show ?thesis using Inr by simp
    qed
  qed
qed

text \<open>
  C10. In single precision the bypass output of an adapter that scales the
  output is not the wrapped layer's output plus the bypass diff: with the output
  3, the scale entry 1 and the scale \<open>2\<^sup>2\<^sup>4\<close> the bypass output is
  \<open>3 * 2\<^sup>2\<^sup>4 = 50331648\<close>, as \<open>2\<^sup>2\<^sup>4 + 1\<close> is rounded to \<open>2\<^sup>2\<^sup>4\<close>, and the output
  plus the diff is \<open>3 + 50331648\<close> rounded, \<open>50331652\<close>.
\<close>

theorem bypass_output_differs_in_float32:
  "\<not> train_input (example_adapter f32_linear False [Finite 1])
   \<and> org_forward (example_adapter f32_linear False [Finite 1])
        \<lparr>shape = [1], data = [Finite 1], device = ''cpu''\<rparr>
     = Inr \<lparr>shape = [1], data = [Finite 3], device = ''cpu''\<rparr>
   \<and> bypass_forward (example_adapter f32_linear False [Finite 1])
        \<lparr>shape = [1], data = [Finite 1], device = ''cpu''\<rparr> (Finite 16777216)
     = Inr \<lparr>shape = [1], data = [Finite 50331648], device = ''cpu''\<rparr>
   \<and> bypass_forward_diff (example_adapter f32_linear False [Finite 1])
        \<lparr>shape = [1], data = [Finite 1], device = ''cpu''\<rparr> (Finite 16777216)
     = Inr \<lparr>shape = [1], data = [Finite 50331648], device = ''cpu''\<rparr>
   \<and> bind (org_forward (example_adapter f32_linear False [Finite 1])
         \<lparr>shape = [1], data = [Finite 1], device = ''cpu''\<rparr>)
       (\<lambda>out. bind (bypass_forward_diff (example_adapter f32_linear False [Finite 1])
         \<lparr>shape = [1], data = [Finite 1], device = ''cpu''\<rparr> (Finite 16777216))
       (\<lambda>d. tadd out d))
     = Inr \<lparr>shape = [1], data = [Finite 50331652], device = ''cpu''\<rparr>"
  by code_simp

text \<open>
  C10, up to rounding. When the adapter scales the output, for every wrapped
  forward function, input and scale: in exact arithmetic the bypass output is
  the wrapped layer's output plus the bypass diff,
  \<open>bypass_forward(x, s) = org_forward(x) + bypass_forward_diff(x, s)\<close>. In single
  precision both calls raise what the wrapped forward raises, or both raise as
  the output does not broadcast against the scale vector, or the bypass output
  and the sum have the same shape and device, every element of the bypass
  output is \<open>W * (S * s + 1)\<close> and the element of the sum at the same position is
  \<open>W + W * (S * s + 0)\<close> for the element \<open>W\<close> of the wrapped layer's output and
  the entry \<open>S\<close> of the scale vector that broadcasting pairs, and the two are
  close: when both are finite they differ by at most \<open>tol W (S * s)\<close>. When the
  adapter scales the input the decomposition can fail in exact arithmetic too:
  on a linear layer with a bias the two sides differ.
\<close>

theorem bypass_output_decomposes:
  fixes ad :: "'a::comm_ring_1 IA3Module" and fd :: "f32 IA3Module"
  shows "(wf (weight ad) \<and> \<not> train_input ad \<longrightarrow>
            bypass_forward ad x s =
              bind (org_forward ad x) (\<lambda>out.
              bind (bypass_forward_diff ad x s) (\<lambda>d. tadd out d)))
       \<and> (wf (weight fd) \<and> \<not> train_input fd \<longrightarrow>
            (case org_forward fd u of
               Inl e \<Rightarrow> bypass_forward fd u k = Inl e \<and> bypass_forward_diff fd u k = Inl e
             | Inr out \<Rightarrow>
                 bypass_forward fd u k = Inl ShapeError
                   \<and> bypass_forward_diff fd u k = Inl ShapeError
                 \<or> (\<exists>y d sm.
                      bypass_forward fd u k = Inr y \<and> bypass_forward_diff fd u k = Inr d
                      \<and> tadd out d = Inr sm \<and> shape sm = shape y \<and> device sm = device y
                      \<and> (\<forall>idx. valid_index (shape y) idx \<longrightarrow>
                            (\<exists>W S. W = get out (bc_index (shape out) idx)
                               \<and> S = get (weight fd) (bc_index (shape (weight fd)) idx)
                               \<and> get y idx = W * (S * k + 1)
                               \<and> get sm idx = W + W * (S * k + 0)
                               \<and> close32 W (S * k) (get y idx) (get sm idx))))))
       \<and> (\<exists>(ad' :: int IA3Module) x' s' a b.
            fitted ad' \<and> train_input ad'
            \<and> bypass_forward ad' x' s' = Inr a
            \<and> bind (org_forward ad' x') (\<lambda>out.
                bind (bypass_forward_diff ad' x' s') (\<lambda>d. tadd out d)) = Inr b
            \<and> a \<noteq> b)"
proof (intro conjI)
  show "wf (weight ad) \<and> \<not> train_input ad \<longrightarrow>
            bypass_forward ad x s =
              bind (org_forward ad x) (\<lambda>out.
              bind (bypass_forward_diff ad x s) (\<lambda>d. tadd out d))"
  proof
    assume a: "wf (weight ad) \<and> \<not> train_input ad"
    show "bypass_forward ad x s =
        bind (org_forward ad x) (\<lambda>out. bind (bypass_forward_diff ad x s) (\<lambda>d. tadd out d))"
    proof (cases "org_forward ad x")
      case (Inl e)
      then show ?thesis using a
        by (simp add: bypass_forward_def bypass_forward_diff_def bypass_forward_output)
    next
      case (Inr out)
      then show ?thesis using a tmul_plus_one [of "weight ad" out s]
        by (simp add: bypass_forward_def bypass_forward_diff_def bypass_forward_output)
    qed
  qed
next
  show "(wf (weight fd) \<and> \<not> train_input fd \<longrightarrow>
            (case org_forward fd u of
               Inl e \<Rightarrow> bypass_forward fd u k = Inl e \<and> bypass_forward_diff fd u k = Inl e
             | Inr out \<Rightarrow>
                 bypass_forward fd u k = Inl ShapeError
                   \<and> bypass_forward_diff fd u k = Inl ShapeError
                 \<or> (\<exists>y d sm.
                      bypass_forward fd u k = Inr y \<and> bypass_forward_diff fd u k = Inr d
                      \<and> tadd out d = Inr sm \<and> shape sm = shape y \<and> device sm = device y
                      \<and> (\<forall>idx. valid_index (shape y) idx \<longrightarrow>
                            (\<exists>W S. W = get out (bc_index (shape out) idx)
                               \<and> S = get (weight fd) (bc_index (shape (weight fd)) idx)
                               \<and> get y idx = W * (S * k + 1)
                               \<and> get sm idx = W + W * (S * k + 0)
                               \<and> close32 W (S * k) (get y idx) (get sm idx))))))"
    by (rule f32_bypass_near_sum)
next
  let ?ad = "example_adapter biased_linear True [0]"
  let ?x = "\<lparr>shape = [1], data = [1 :: int], device = ''cpu''\<rparr>"
  have "fitted ?ad"
    by (simp add: example_adapter_def biased_linear_def init_Linear with_scale_def
        fitted_def wf_def numel_def zeros_def support_module_def wf_bias_def)
  moreover have "train_input ?ad" by code_simp
  moreover have "bypass_forward ?ad ?x 1 = Inr \<lparr>shape = [1], data = [2], device = ''cpu''\<rparr>"
    by code_simp
  moreover have "bind (org_forward ?ad ?x) (\<lambda>out.
        bind (bypass_forward_diff ?ad ?x 1) (\<lambda>d. tadd out d))
      = Inr \<lparr>shape = [1], data = [3], device = ''cpu''\<rparr>"
    by code_simp
  moreover have "\<lparr>shape = [1], data = [2 :: int], device = ''cpu''\<rparr>
      \<noteq> \<lparr>shape = [1], data = [3], device = ''cpu''\<rparr>"
    by simp
  ultimately show "\<exists>(ad' :: int IA3Module) x' s' a b.
            fitted ad' \<and> train_input ad'
            \<and> bypass_forward ad' x' s' = Inr a
            \<and> bind (org_forward ad' x') (\<lambda>out.
                bind (bypass_forward_diff ad' x' s') (\<lambda>d. tadd out d)) = Inr b
            \<and> a \<noteq> b"
    by blast
qed

theorem bypass_output_decomposes_witness:
  "wf (weight (example_adapter example_linear False [10, 20]))
   \<and> \<not> train_input (example_adapter example_linear False [10, 20])
   \<and> bypass_forward (example_adapter example_linear False [10, 20])
        \<lparr>shape = [3], data = [1, 1, 1], device = ''cpu''\<rparr> 2
      = Inr \<lparr>shape = [2], data = [126, 615], device = ''cpu''\<rparr>
   \<and> bypass_forward_diff (example_adapter example_linear False [10, 20])
        \<lparr>shape = [3], data = [1, 1, 1], device = ''cpu''\<rparr> 2
      = Inr \<lparr>shape = [2], data = [120, 600], device = ''cpu''\<rparr>
   \<and> org_forward (example_adapter example_linear False [10, 20])
        \<lparr>shape = [3], data = [1, 1, 1], device = ''cpu''\<rparr>
      = Inr \<lparr>shape = [2], data = [6, 15], device = ''cpu''\<rparr>
   \<and> wf (weight (example_adapter f32_linear False [Finite 1]))
   \<and> \<not> train_input (example_adapter f32_linear False [Finite 1])
   \<and> valid_index [1] [0]
   \<and> close32 (Finite 3) (Finite 16777216) (Finite 50331648) (Finite 50331652)"
proof -
  let ?ad = "example_adapter example_linear False [10, 20]"
  let ?x = "\<lparr>shape = [3], data = [1, 1, 1 :: int], device = ''cpu''\<rparr>"
  let ?fd = "example_adapter f32_linear False [Finite 1]"
  let ?u = "\<lparr>shape = [1], data = [Finite 1], device = ''cpu''\<rparr>"
  let ?out = "\<lparr>shape = [1], data = [Finite 3], device = ''cpu''\<rparr>"
  let ?y = "\<lparr>shape = [1], data = [Finite 50331648], device = ''cpu''\<rparr>"
  let ?sm = "\<lparr>shape = [1], data = [Finite 50331652], device = ''cpu''\<rparr>"
  have w: "wf (weight ?ad)" "\<not> train_input ?ad" by code_simp+
  have d: "bypass_forward_diff ?ad ?x 2 = Inr \<lparr>shape = [2], data = [120, 600], device = ''cpu''\<rparr>"
    by code_simp
  have o: "org_forward ?ad ?x = Inr \<lparr>shape = [2], data = [6, 15], device = ''cpu''\<rparr>"
    by code_simp
  have s: "tadd \<lparr>shape = [2], data = [6, 15 :: int], device = ''cpu''\<rparr>
        \<lparr>shape = [2], data = [120, 600], device = ''cpu''\<rparr>
      = Inr \<lparr>shape = [2], data = [126, 615], device = ''cpu''\<rparr>"
    by code_simp
  have fw: "wf (weight ?fd)" "\<not> train_input ?fd" by code_simp+
  have fo: "org_forward ?fd ?u = Inr ?out" by code_simp
  have fb: "bypass_forward ?fd ?u (Finite 16777216) = Inr ?y" by code_simp
  have fdf: "bypass_forward_diff ?fd ?u (Finite 16777216) = Inr ?y" by code_simp
  have fs: "tadd ?out ?y = Inr ?sm" by code_simp
  have v: "valid_index [1] [0]" by simp
  have g: "get ?y [0] = Finite 50331648" "get ?sm [0] = Finite 50331652"
    "get ?out (bc_index (shape ?out) [0]) = Finite 3"
    "get (weight ?fd) (bc_index (shape (weight ?fd)) [0]) * Finite 16777216 = Finite 16777216"
    by code_simp+
  note t = bypass_output_decomposes [of ?ad ?x 2 ?fd ?u "Finite 16777216"]
  from t w d o s have 1: "bypass_forward ?ad ?x 2 = Inr \<lparr>shape = [2], data = [126, 615], device = ''cpu''\<rparr>"
    by simp
  from t fw fo fb fdf fs have "\<forall>idx. valid_index (shape ?y) idx \<longrightarrow>
       close32 (get ?out (bc_index (shape ?out) idx))
         (get (weight ?fd) (bc_index (shape (weight ?fd)) idx) * Finite 16777216)
         (get ?y idx) (get ?sm idx)"
    by auto
  with v g have 2: "close32 (Finite 3) (Finite 16777216) (Finite 50331648) (Finite 50331652)"
    by auto
  from w 1 d o fw v 2 show ?thesis by simp
qed

section \<open>Bypass mode and merged mode\<close>

lemma tsum_sum_list [simp]: "tsum xs = sum_list (xs :: 'a::monoid_add list)"
  by (induction xs) (simp_all add: tsum_def)

lemma sum_list_upt_cong:
  fixes f g :: "nat \<Rightarrow> 'a::comm_ring_1"
  assumes "\<And>k. k < n \<Longrightarrow> f k = g k"
  shows "(\<Sum>k\<leftarrow>[0..<n]. f k) = (\<Sum>k\<leftarrow>[0..<n]. g k)"
  using assms by (intro arg_cong [where f = sum_list] map_cong) simp_all

lemma sum_list_map_cong:
  fixes f g :: "'b \<Rightarrow> 'a::comm_ring_1"
  assumes "\<And>x. x \<in> set xs \<Longrightarrow> f x = g x"
  shows "(\<Sum>x\<leftarrow>xs. f x) = (\<Sum>x\<leftarrow>xs. g x)"
  using assms by (intro arg_cong [where f = sum_list] map_cong) simp_all

lemma F_linear_Inr:
  assumes "shape W = [oo, i]" "shape x = r @ [i]"
  shows "F_linear x W None = Inr (tabulate (r @ [oo]) (device x)
           (\<lambda>idx. \<Sum>k\<leftarrow>[0..<i]. get x (butlast idx @ [k]) * get W [last idx, k]))"
  using assms by (simp add: F_linear_def)

lemma F_linear_Inl:
  assumes "shape W = [oo, i]" "shape x = [] \<or> last (shape x) \<noteq> i"
  shows "F_linear x W b = Inl ShapeError"
  using assms by (auto simp: F_linear_def)

lemma valid_index_snoc:
  "valid_index (r @ [a]) idx \<Longrightarrow> k < b \<Longrightarrow> valid_index (r @ [b]) (butlast idx @ [k])"
proof -
  assume v: "valid_index (r @ [a]) idx" and k: "k < b"
  then have l: "length idx = Suc (length r)" using valid_index_length by fastforce
  then obtain q j where idx: "idx = q @ [j]" "length q = length r"
    by (metis append_butlast_last_id length_0_conv length_butlast diff_Suc_1 nat.simps(3))
  then have "list_all2 (\<lambda>i d. i < d) q r" using v by (simp add: valid_index_def list_all2_append)
  then show ?thesis using idx k by (simp add: valid_index_def list_all2_append)
qed

lemma valid_index_last:
  "valid_index (r @ [a]) idx \<Longrightarrow> last idx < a"
proof -
  assume v: "valid_index (r @ [a]) idx"
  then have l: "length idx = Suc (length r)" using valid_index_length by fastforce
  then obtain q j where idx: "idx = q @ [j]" "length q = length r"
    by (metis append_butlast_last_id length_0_conv length_butlast diff_Suc_1 nat.simps(3))
  then show ?thesis using v by (simp add: valid_index_def list_all2_append)
qed

lemma linear_modes_agree:
  fixes ad :: "'a::comm_ring_1 IA3Module"
  assumes f: "fitted ad" and om: "org_module ad = Linear i oo w None"
    and of: "org_forward ad = layer_forward (org_module ad)"
    and acc: "train_input ad \<longrightarrow> (\<exists>y. org_forward ad x = Inr y)"
  shows "bypass_forward ad x m = op (org_module ad) x (scaled ad w m False) None"
proof -
  let ?E = "\<lambda>k. get (weight ad) [k] * m + 1"
  have sw: "shape w = [oo, i]" and wfs: "wf (weight ad)"
    and ss: "shape (weight ad) = [if train_input ad then i else oo]"
    using f om by (simp_all add: fitted_def)
  have sc: "shape (scaled ad w m False) = [oo, i]" using sw by simp
  have gs: "get (scaled ad w m False) [j, k] =
      get w [j, k] * ?E (if train_input ad then k else j)" if "j < oo" "k < i" for j k
    using that sw om get_scaled [of w "[j, k]" ad m False] by simp
  show ?thesis
  proof (cases "shape x = [] \<or> last (shape x) \<noteq> i")
    case True
    then have 1: "F_linear x w None = Inl ShapeError"
      and 2: "F_linear x (scaled ad w m False) None = Inl ShapeError"
      using sw sc by (simp_all add: F_linear_Inl)
    have "\<not> train_input ad" using acc 1 of om by auto
    then show ?thesis using 1 2 om of
      by (simp add: bypass_forward_def bypass_forward_output)
  next
    case False
    then obtain r where sx: "shape x = r @ [i]"
      by (metis append_butlast_last_id)
    let ?merged = "\<lambda>idx. \<Sum>k\<leftarrow>[0..<i]. get x (butlast idx @ [k])
        * get (scaled ad w m False) [last idx, k]"
    have mg: "op (org_module ad) x (scaled ad w m False) None
        = Inr (tabulate (r @ [oo]) (device x) ?merged)"
      using om F_linear_Inr [OF sc sx] by simp
    show ?thesis
    proof (cases "train_input ad")
      case True
      let ?x' = "tabulate (r @ [i]) (device x) (\<lambda>idx. get x idx * ?E (last idx))"
      have 1: "tmul x (sadd (smul (weight ad) m) 1) = Inr ?x'"
        using sx ss wfs True by (intro tmul_chan_linear) simp_all
      have 2: "F_linear ?x' w None = Inr (tabulate (r @ [oo]) (device x)
          (\<lambda>idx. \<Sum>k\<leftarrow>[0..<i]. get ?x' (butlast idx @ [k]) * get w [last idx, k]))"
        using F_linear_Inr [OF sw, of ?x' r] by simp
      have "tabulate (r @ [oo]) (device x)
          (\<lambda>idx. \<Sum>k\<leftarrow>[0..<i]. get ?x' (butlast idx @ [k]) * get w [last idx, k])
        = tabulate (r @ [oo]) (device x) ?merged"
      proof (rule tabulate_cong, rule sum_list_upt_cong)
        fix idx k assume v: "valid_index (r @ [oo]) idx" and k: "k < i"
        have "valid_index (r @ [i]) (butlast idx @ [k])" using v k by (rule valid_index_snoc)
        then have "get ?x' (butlast idx @ [k]) = get x (butlast idx @ [k]) * ?E k"
          by (simp add: get_tabulate)
        moreover have "last idx < oo" using v by (rule valid_index_last)
        ultimately show "get ?x' (butlast idx @ [k]) * get w [last idx, k]
            = get x (butlast idx @ [k]) * get (scaled ad w m False) [last idx, k]"
          using gs k True by (simp add: algebra_simps)
      qed
      then show ?thesis using True 1 2 mg om of
        by (simp add: bypass_forward_def bypass_forward_input)
    next
      case False
      let ?out = "tabulate (r @ [oo]) (device x)
          (\<lambda>idx. \<Sum>k\<leftarrow>[0..<i]. get x (butlast idx @ [k]) * get w [last idx, k])"
      have 1: "F_linear x w None = Inr ?out" using sw sx by (rule F_linear_Inr)
      have 2: "tmul ?out (sadd (smul (weight ad) m) 1)
          = Inr (tabulate (r @ [oo]) (device x) (\<lambda>idx. get ?out idx * ?E (last idx)))"
        using tmul_chan_linear [of ?out r oo "weight ad" m 1] ss wfs False by simp
      have "tabulate (r @ [oo]) (device x) (\<lambda>idx. get ?out idx * ?E (last idx))
        = tabulate (r @ [oo]) (device x) ?merged"
      proof (rule tabulate_cong)
        fix idx assume v: "valid_index (r @ [oo]) idx"
        have l: "last idx < oo" using v by (rule valid_index_last)
        have "get ?out idx = (\<Sum>k\<leftarrow>[0..<i]. get x (butlast idx @ [k]) * get w [last idx, k])"
          using v by (rule get_tabulate)
        moreover have "(\<Sum>k\<leftarrow>[0..<i]. get x (butlast idx @ [k]) * get w [last idx, k]) * ?E (last idx)
            = (\<Sum>k\<leftarrow>[0..<i]. get x (butlast idx @ [k]) * get w [last idx, k] * ?E (last idx))"
          by (simp add: sum_list_mult_const)
        moreover have "(\<Sum>k\<leftarrow>[0..<i]. get x (butlast idx @ [k]) * get w [last idx, k] * ?E (last idx))
            = ?merged idx"
          using gs l False by (intro sum_list_upt_cong) (simp add: algebra_simps)
        ultimately show "get ?out idx * ?E (last idx) = ?merged idx" by simp
      qed
      then show ?thesis using False 1 2 mg om of
        by (simp add: bypass_forward_def bypass_forward_output)
    qed
  qed
qed

lemma sum_list2_mult_const:
  fixes f :: "'b \<Rightarrow> 'c \<Rightarrow> 'a::comm_ring_1"
  shows "(\<Sum>k\<leftarrow>xs. \<Sum>y\<leftarrow>ys. f k y * c) = (\<Sum>k\<leftarrow>xs. \<Sum>y\<leftarrow>ys. f k y) * c"
proof -
  have "(\<Sum>k\<leftarrow>xs. \<Sum>y\<leftarrow>ys. f k y * c) = (\<Sum>k\<leftarrow>xs. (\<Sum>y\<leftarrow>ys. f k y) * c)"
    by (simp only: sum_list_mult_const)
  then show ?thesis by (simp only: sum_list_mult_const)
qed

lemma conv_batched_eq:
  assumes "shape x = nb # c # isp" "shape W = co # cg # ks"
  shows "conv_batched n x W b st pd dl g =
    (if \<not> conv_check n c isp co cg ks st pd dl g b then Inl ShapeError
     else Inr (tabulate
       (nb # co # map (\<lambda>j. out_size (isp ! j) (ks ! j) (st ! j) (pd ! j) (dl ! j)) [0..<n])
       (device x) (conv_elem n x W b st pd dl g)))"
  using assms by (simp add: conv_batched_def)

lemma conv_batched_Inr_shape:
  assumes "conv_batched n x W b st pd dl g = Inr y"
  obtains nb c isp co cg ks where "shape x = nb # c # isp" "shape W = co # cg # ks"
    "conv_check n c isp co cg ks st pd dl g b"
  using assms
  by (auto simp: conv_batched_def split: list.splits if_splits)

lemma conv_elem_None:
  assumes "shape W = co # cg # ks"
  shows "conv_elem n x W None st pd dl g idx =
    (\<Sum>k\<leftarrow>[0..<cg]. \<Sum>kidx\<leftarrow>map (unravel ks) [0..<numel ks].
        padded_get x pd (hd idx) (hd (tl idx) div (co div g) * cg + k)
          (map (\<lambda>j. drop 2 idx ! j * st ! j + kidx ! j * dl ! j) [0..<n])
        * get W (hd (tl idx) # k # kidx))"
  using assms by (simp add: conv_elem_def)

lemma padded_get_scaled:
  fixes x :: "'a::comm_ring_1 tensor"
  assumes "shape x = nb # c # isp" "b < nb" "ch < c"
  shows "padded_get (tabulate (nb # c # isp) dv (\<lambda>idx. get x idx * F (idx ! 1))) pd b ch q
         = padded_get x pd b ch q * F ch"
proof (cases "list_all (\<lambda>j. pd ! j \<le> q ! j \<and> q ! j - pd ! j < isp ! j) [0..<length isp]")
  case True
  let ?co = "map (\<lambda>j. q ! j - pd ! j) [0..<length isp]"
  have "valid_index isp ?co" using True by (simp add: valid_index_nth list_all_iff)
  then have "valid_index (nb # c # isp) (b # ch # ?co)" using assms(2,3) by simp
  then have "get (tabulate (nb # c # isp) dv (\<lambda>idx. get x idx * F (idx ! 1))) (b # ch # ?co)
      = get x (b # ch # ?co) * F ch"
    by (simp add: get_tabulate)
  then show ?thesis using True assms(1) by (simp add: padded_get_def)
next
  case False
  then show ?thesis using assms(1) by (simp add: padded_get_def)
qed

lemma conv_elem_weight_scaled:
  fixes ad :: "'a::comm_ring_1 IA3Module"
  assumes om: "org_module ad = Conv n i oo st pd dl g w b pm" and ti: "\<not> train_input ad"
    and sw: "shape w = co # cg # ks" and j: "j < co"
  shows "conv_elem n x (scaled ad w m False) None st pd dl g (bb # j # pos)
       = conv_elem n x w None st pd dl g (bb # j # pos)
           * (get (weight ad) (0 # j # replicate n 0) * m + 1)"
proof -
  let ?E = "get (weight ad) (0 # j # replicate n 0) * m + 1"
  let ?pg = "\<lambda>k kidx. padded_get x pd bb (j div (co div g) * cg + k)
          (map (\<lambda>ja. pos ! ja * st ! ja + kidx ! ja * dl ! ja) [0..<n])"
  have g: "get (scaled ad w m False) (j # k # kidx) = get w (j # k # kidx) * ?E"
    if "k < cg" "kidx \<in> set (map (unravel ks) [0..<numel ks])" for k kidx
  proof -
    have "valid_index ks kidx" using that(2) by (auto simp: numel_def valid_unravel)
    then have "valid_index (shape w) (j # k # kidx)" using sw j that(1) by simp
    from get_scaled [OF this, of ad m False] show ?thesis using om ti by simp
  qed
  have "conv_elem n x (scaled ad w m False) None st pd dl g (bb # j # pos)
      = (\<Sum>k\<leftarrow>[0..<cg]. \<Sum>kidx\<leftarrow>map (unravel ks) [0..<numel ks].
            ?pg k kidx * get (scaled ad w m False) (j # k # kidx))"
    using conv_elem_None [of "scaled ad w m False" co cg ks] sw by simp
  also have "\<dots> = (\<Sum>k\<leftarrow>[0..<cg]. \<Sum>kidx\<leftarrow>map (unravel ks) [0..<numel ks].
            ?pg k kidx * get w (j # k # kidx) * ?E)"
    by (intro sum_list_upt_cong sum_list_map_cong) (simp add: g mult.assoc)
  also have "\<dots> = (\<Sum>k\<leftarrow>[0..<cg]. \<Sum>kidx\<leftarrow>map (unravel ks) [0..<numel ks].
            ?pg k kidx * get w (j # k # kidx)) * ?E"
    by (rule sum_list2_mult_const)
  also have "\<dots> = conv_elem n x w None st pd dl g (bb # j # pos) * ?E"
    using conv_elem_None [OF sw] by simp
  finally show ?thesis .
qed

lemma conv_elem_input_scaled:
  fixes ad :: "'a::comm_ring_1 IA3Module"
  assumes om: "org_module ad = Conv n i oo st pd dl 1 w b pm" and ti: "train_input ad"
    and sw: "shape w = co # cg # ks" and sx: "shape x = nb # cg # isp"
    and j: "j < co" and bb: "bb < nb"
  shows "conv_elem n
           (tabulate (nb # cg # isp) dv
              (\<lambda>idx. get x idx * (get (weight ad) (0 # idx ! 1 # replicate n 0) * m + 1)))
           w None st pd dl 1 (bb # j # pos)
       = conv_elem n x (scaled ad w m False) None st pd dl 1 (bb # j # pos)"
proof -
  let ?E = "\<lambda>k. get (weight ad) (0 # k # replicate n 0) * m + 1"
  let ?x' = "tabulate (nb # cg # isp) dv (\<lambda>idx. get x idx * ?E (idx ! 1))"
  let ?q = "\<lambda>kidx. map (\<lambda>ja. pos ! ja * st ! ja + kidx ! ja * dl ! ja) [0..<n]"
  have ch: "j div co * cg + k = k" for k using j by simp
  have g: "get (scaled ad w m False) (j # k # kidx) = get w (j # k # kidx) * ?E k"
    if "k < cg" "kidx \<in> set (map (unravel ks) [0..<numel ks])" for k kidx
  proof -
    have "valid_index ks kidx" using that(2) by (auto simp: numel_def valid_unravel)
    then have "valid_index (shape w) (j # k # kidx)" using sw j that(1) by simp
    from get_scaled [OF this, of ad m False] show ?thesis using om ti by simp
  qed
  have p: "padded_get ?x' pd bb k q = padded_get x pd bb k q * ?E k" if "k < cg" for k q
    using sx bb that by (rule padded_get_scaled)
  have "conv_elem n ?x' w None st pd dl 1 (bb # j # pos)
      = (\<Sum>k\<leftarrow>[0..<cg]. \<Sum>kidx\<leftarrow>map (unravel ks) [0..<numel ks].
            padded_get ?x' pd bb k (?q kidx) * get w (j # k # kidx))"
    using conv_elem_None [OF sw, of n ?x' st pd dl 1 "bb # j # pos"] ch by simp
  also have "\<dots> = (\<Sum>k\<leftarrow>[0..<cg]. \<Sum>kidx\<leftarrow>map (unravel ks) [0..<numel ks].
            padded_get x pd bb k (?q kidx) * get (scaled ad w m False) (j # k # kidx))"
  proof (intro sum_list_upt_cong sum_list_map_cong)
    fix k kidx assume k: "k < cg" and kk: "kidx \<in> set (map (unravel ks) [0..<numel ks])"
    show "padded_get ?x' pd bb k (?q kidx) * get w (j # k # kidx)
        = padded_get x pd bb k (?q kidx) * get (scaled ad w m False) (j # k # kidx)"
      unfolding p [OF k] g [OF k kk] by (simp only: mult.assoc mult.commute [of "?E k"])
  qed
  also have "\<dots> = conv_elem n x (scaled ad w m False) None st pd dl 1 (bb # j # pos)"
    using conv_elem_None [of "scaled ad w m False" co cg ks n x st pd dl 1 "bb # j # pos"] sw ch
    by simp
  finally show ?thesis .
qed

lemma conv_modes_agree:
  fixes ad :: "'a::comm_ring_1 IA3Module"
  assumes f: "fitted ad" and om: "org_module ad = Conv n i oo st pd dl g w None Zeros"
    and of: "org_forward ad = layer_forward (org_module ad)"
    and gr: "train_input ad \<longrightarrow> g = 1"
    and bt: "length (shape x) = n + 2"
    and acc: "train_input ad \<longrightarrow> (\<exists>y. org_forward ad x = Inr y)"
  shows "bypass_forward ad x m = op (org_module ad) x (scaled ad w m False) None"
proof -
  let ?W = "scaled ad w m False"
  let ?E = "\<lambda>k. get (weight ad) (0 # k # replicate n 0) * m + 1"
  have wl: "wf_layer (Conv n i oo st pd dl g w None Zeros)" and wfs: "wf (weight ad)"
    and ss: "shape (weight ad) = 1 # (if train_input ad then i else oo) # replicate n 1"
    using f om by (simp_all add: fitted_def)
  from wl obtain ks where sw: "shape w = oo # (i div g) # ks" and lk: "length ks = n"
    by (rule conv_weight_shape)
  have sW: "shape ?W = oo # (i div g) # ks" using sw by simp
  obtain nb c isp where sx: "shape x = nb # c # isp"
    using bt by (cases "shape x"; cases "tl (shape x)") auto
  let ?S = "nb # oo # map (\<lambda>j. out_size (isp ! j) (ks ! j) (st ! j) (pd ! j) (dl ! j)) [0..<n]"
  let ?chk = "conv_check n c isp oo (i div g) ks st pd dl g (None :: 'a tensor option)"
  have fc: "F_conv n x' W' None st pd dl g = conv_batched n x' W' None st pd dl g"
    if "shape x' = shape x" for x' W' :: "'a tensor"
    using that bt by (simp add: F_conv_def)
  have org: "org_forward ad x' = conv_batched n x' w None st pd dl g"
    if "shape x' = shape x" for x'
    using of om fc [OF that] by simp
  have mg: "op (org_module ad) x ?W None =
      (if \<not> ?chk then Inl ShapeError
       else Inr (tabulate ?S (device x) (conv_elem n x ?W None st pd dl g)))"
    using om fc [of x ?W] conv_batched_eq [OF sx sW] by simp
  show ?thesis
  proof (cases "train_input ad")
    case False
    show ?thesis
    proof (cases ?chk)
      case c: False
      then show ?thesis using False mg org [of x] conv_batched_eq [OF sx sw, of n None st pd dl g]
        by (simp add: bypass_forward_def bypass_forward_output)
    next
      case c: True
      let ?out = "tabulate ?S (device x) (conv_elem n x w None st pd dl g)"
      have 1: "org_forward ad x = Inr ?out"
        using c org [of x] conv_batched_eq [OF sx sw, of n None st pd dl g] by simp
      have 2: "tmul ?out (sadd (smul (weight ad) m) 1)
          = Inr (tabulate ?S (device x) (\<lambda>idx. get ?out idx * ?E (idx ! 1)))"
        using tmul_chan_conv [of ?out nb oo
            "map (\<lambda>j. out_size (isp ! j) (ks ! j) (st ! j) (pd ! j) (dl ! j)) [0..<n]"
            "weight ad" m 1] ss wfs False
        by simp
      have "tabulate ?S (device x) (\<lambda>idx. get ?out idx * ?E (idx ! 1))
          = tabulate ?S (device x) (conv_elem n x ?W None st pd dl g)"
      proof (rule tabulate_cong)
        fix idx assume v: "valid_index ?S idx"
        then obtain bb j pos where idx: "idx = bb # j # pos" "j < oo" by auto
        have "get ?out idx = conv_elem n x w None st pd dl g idx" using v by (rule get_tabulate)
        then show "get ?out idx * ?E (idx ! 1) = conv_elem n x ?W None st pd dl g idx"
          using idx conv_elem_weight_scaled [OF om False sw idx(2), of x m bb pos] by simp
      qed
      then show ?thesis using False c mg 1 2
        by (simp add: bypass_forward_def bypass_forward_output)
    qed
  next
    case True
    then have g1: "g = 1" using gr by simp
    from acc True obtain y where "conv_batched n x w None st pd dl g = Inr y"
      using org [of x] by auto
    then have c: ?chk using conv_batched_eq [OF sx sw, of n None st pd dl g]
      by (simp split: if_splits)
    then have ci: "c = i" and li: "length isp = n" using g1 by (simp_all add: conv_check_def)
    let ?x' = "tabulate (nb # i # isp) (device x) (\<lambda>idx. get x idx * ?E (idx ! 1))"
    have 1: "tmul x (sadd (smul (weight ad) m) 1) = Inr ?x'"
      using tmul_chan_conv [of x nb i isp "weight ad" m 1] sx ci li ss wfs True by simp
    have 2: "org_forward ad ?x' = Inr (tabulate ?S (device x) (conv_elem n ?x' w None st pd dl g))"
      using org [of ?x'] conv_batched_eq [of ?x' nb c isp w oo "i div g" ks n None st pd dl g]
        sx ci sw c by simp
    have "tabulate ?S (device x) (conv_elem n ?x' w None st pd dl g)
        = tabulate ?S (device x) (conv_elem n x ?W None st pd dl g)"
    proof (rule tabulate_cong)
      fix idx assume v: "valid_index ?S idx"
      then obtain bb j pos where idx: "idx = bb # j # pos" "bb < nb" "j < oo" by auto
      show "conv_elem n ?x' w None st pd dl g idx = conv_elem n x ?W None st pd dl g idx"
        using conv_elem_input_scaled [of ad n i oo st pd dl w None Zeros oo i ks x nb isp j bb "device x" m pos]
          om True sw sx ci g1 idx by simp
    qed
    then show ?thesis using True c mg 1 2
      by (simp add: bypass_forward_def bypass_forward_input)
  qed
qed

lemma modes_agree:
  fixes ad :: "'a::comm_ring_1 IA3Module"
  assumes "fitted ad"
    and "layer_bias (org_module ad) = Inr None"
    and "org_forward ad = layer_forward (org_module ad)"
    and "batched (org_module ad) x"
    and "train_input ad \<longrightarrow> ungrouped (org_module ad) \<and> (\<exists>y. org_forward ad x = Inr y)"
    and "zero_padded (org_module ad)"
  shows "bypass_forward ad x m =
         bind (get_merged_weight ad m None None) (\<lambda>res. op (org_module ad) x (fst res) None)"
  using assms(1)
proof (cases rule: fitted_cases)
  case (Linear i oo w b)
  then have om: "org_module ad = Linear i oo w None" using assms(2) by simp
  have "get_merged_weight ad m None None = Inr (scaled ad w m False, None)"
    using make_weight_Linear [OF assms(1) om, of m False] by (simp add: get_merged_weight_def)
  then show ?thesis using linear_modes_agree [OF assms(1) om assms(3), of x m] assms(5) by simp
next
  case (Conv n i oo st pd dl g w b pm)
  then have om: "org_module ad = Conv n i oo st pd dl g w None Zeros" using assms(2,6) by simp
  have g: "train_input ad \<longrightarrow> g = 1" using assms(5) om by simp
  have "get_merged_weight ad m None None = Inr (scaled ad w m False, None)"
    using make_weight_Conv [OF assms(1) om g, of m False] by (simp add: get_merged_weight_def)
  then show ?thesis
    using conv_modes_agree [OF assms(1) om assms(3) g, of x m] assms(4,5) om by simp
qed

lemma bypass_mode_update [simp]:
  "bypass_forward (ad\<lparr>bypass_mode := v\<rparr>) x m = bypass_forward ad x m"
  "get_merged_weight (ad\<lparr>bypass_mode := v\<rparr>) m shp dev = get_merged_weight ad m shp dev"
  by (simp_all add: bypass_forward_def bypass_forward_aux_def get_merged_weight_def
      make_weight_def org_weight_def)

text \<open>
  C2. Bypass mode and merged mode differ on an input without the batch axis:
  on a 1D convolution without bias the bypass output has the shape \<open>[1, 2, 2]\<close>
  and the merged-weight output the shape \<open>[2, 2]\<close>. They differ on an
  input that only the scaled-input bypass path accepts: on a linear layer with 3
  input features an input of shape \<open>[1]\<close> is broadcast against the scale
  vector in bypass mode and is rejected by the operator in merged mode. And they
  differ on a convolution that does not pad with zeros: with circular padding
  the bypass output is the layer's own output scaled, while the operator on the
  merged weight pads with zeros.
\<close>

theorem bypass_differs_on_unbatched_input:
  "forward ((example_adapter example_conv False [10, 20])\<lparr>bypass_mode := True\<rparr>) 0
     \<lparr>shape = [2, 3], data = [1, 10, 100, 1000, 10000, 100000], device = ''cpu''\<rparr>
     = (Bypass,
        Inr \<lparr>shape = [1, 2, 2], data = [473231, 4732310, 1828365, 18283650], device = ''cpu''\<rparr>)
   \<and> forward ((example_adapter example_conv False [10, 20])\<lparr>bypass_mode := False\<rparr>) 0
     \<lparr>shape = [2, 3], data = [1, 10, 100, 1000, 10000, 100000], device = ''cpu''\<rparr>
     = (Merged,
        Inr \<lparr>shape = [2, 2], data = [473231, 4732310, 1828365, 18283650], device = ''cpu''\<rparr>)
   \<and> layer_bias (org_module (example_adapter example_conv False [10, 20])) = Inr None
   \<and> forward ((example_adapter example_linear True [10, 20, 30])\<lparr>bypass_mode := True\<rparr>) 0
     \<lparr>shape = [1], data = [1], device = ''cpu''\<rparr>
     = (Bypass, Inr \<lparr>shape = [2], data = [146, 335], device = ''cpu''\<rparr>)
   \<and> forward ((example_adapter example_linear True [10, 20, 30])\<lparr>bypass_mode := False\<rparr>) 0
     \<lparr>shape = [1], data = [1], device = ''cpu''\<rparr>
     = (Merged, Inl ShapeError)
   \<and> layer_bias (org_module (example_adapter example_linear True [10, 20, 30])) = Inr None
   \<and> forward ((example_adapter circular_conv False [1])\<lparr>bypass_mode := True\<rparr>) 0
     \<lparr>shape = [1, 1, 3], data = [1, 10, 100], device = ''cpu''\<rparr>
     = (Bypass, Inr \<lparr>shape = [1, 1, 4], data = [204, 42, 420, 204], device = ''cpu''\<rparr>)
   \<and> forward ((example_adapter circular_conv False [1])\<lparr>bypass_mode := False\<rparr>) 0
     \<lparr>shape = [1, 1, 3], data = [1, 10, 100], device = ''cpu''\<rparr>
     = (Merged, Inr \<lparr>shape = [1, 1, 4], data = [4, 42, 420, 200], device = ''cpu''\<rparr>)
   \<and> layer_bias (org_module (example_adapter circular_conv False [1])) = Inr None
   \<and> batched (org_module (example_adapter circular_conv False [1]))
        \<lparr>shape = [1, 1, 3], data = [1, 10, 100], device = ''cpu''\<rparr>
   \<and> \<not> train_input (example_adapter circular_conv False [1])"
  by code_simp

text \<open>
  C2, with its conditions, in exact arithmetic. For a fitted adapter on a layer
  without bias whose \<open>org_forward\<close> is the wrapped layer's forward, where a
  convolution pads with zeros (padding mode \<^verbatim>\<open>zeros\<close>), for every multiplier
  and every input that has the batch axis when the layer is a convolution: if
  the adapter scales the output, or scales the input of a linear layer or of a
  convolution with \<open>groups = 1\<close> that accepts the input, then \<open>bypass_forward\<close>
  returns what the operator returns on the merged weight, and \<open>forward\<close>
  returns the same value in bypass mode and in merged mode.
\<close>

theorem bypass_equals_merged_forward:
  fixes ad :: "'a::comm_ring_1 IA3Module"
  assumes "fitted ad"
    and "layer_bias (org_module ad) = Inr None"
    and "org_forward ad = layer_forward (org_module ad)"
    and "batched (org_module ad) x"
    and "train_input ad \<longrightarrow> ungrouped (org_module ad) \<and> (\<exists>y. org_forward ad x = Inr y)"
    and "zero_padded (org_module ad)"
  shows "bypass_forward ad x m =
           bind (get_merged_weight ad m None None) (\<lambda>res. op (org_module ad) x (fst res) None)
       \<and> snd (forward (ad\<lparr>bypass_mode := True\<rparr>) r x)
         = snd (forward (ad\<lparr>bypass_mode := False\<rparr>) r x)"
proof
  show "bypass_forward ad x m =
      bind (get_merged_weight ad m None None) (\<lambda>res. op (org_module ad) x (fst res) None)"
    using assms by (rule modes_agree)
  show "snd (forward (ad\<lparr>bypass_mode := True\<rparr>) r x)
      = snd (forward (ad\<lparr>bypass_mode := False\<rparr>) r x)"
    using modes_agree [OF assms, of "multiplier ad"] assms(2)
    by (simp add: forward_def)
qed

theorem bypass_equals_merged_forward_witness:
  "fitted (example_adapter example_conv True [10, 20])
   \<and> layer_bias (org_module (example_adapter example_conv True [10, 20])) = Inr None
   \<and> batched (org_module (example_adapter example_conv True [10, 20]))
        \<lparr>shape = [1, 2, 3], data = [1, 10, 100, 1000, 10000, 100000], device = ''cpu''\<rparr>
   \<and> zero_padded (org_module (example_adapter example_conv True [10, 20]))
   \<and> train_input (example_adapter example_conv True [10, 20])
   \<and> ungrouped (org_module (example_adapter example_conv True [10, 20]))
   \<and> org_forward (example_adapter example_conv True [10, 20])
        \<lparr>shape = [1, 2, 3], data = [1, 10, 100, 1000, 10000, 100000], device = ''cpu''\<rparr>
      = Inr \<lparr>shape = [1, 2, 2], data = [43021, 430210, 87065, 870650], device = ''cpu''\<rparr>
   \<and> bypass_forward (example_adapter example_conv True [10, 20])
        \<lparr>shape = [1, 2, 3], data = [1, 10, 100, 1000, 10000, 100000], device = ''cpu''\<rparr> 1
      = Inr \<lparr>shape = [1, 2, 2], data = [903231, 9032310, 1827715, 18277150], device = ''cpu''\<rparr>
   \<and> snd (forward ((example_adapter example_conv True [10, 20])\<lparr>bypass_mode := False\<rparr>) 0
        \<lparr>shape = [1, 2, 3], data = [1, 10, 100, 1000, 10000, 100000], device = ''cpu''\<rparr>)
      = Inr \<lparr>shape = [1, 2, 2], data = [903231, 9032310, 1827715, 18277150], device = ''cpu''\<rparr>"
proof -
  let ?ad = "example_adapter example_conv True [10, 20]"
  let ?x = "\<lparr>shape = [1, 2, 3], data = [1, 10, 100, 1000, 10000, 100000 :: int], device = ''cpu''\<rparr>"
  have 1: "fitted ?ad" by (rule example_conv_fitted)
  have 2: "layer_bias (org_module ?ad) = Inr None" by code_simp
  have 3: "org_forward ?ad = layer_forward (org_module ?ad)"
    by (simp add: example_adapter_def example_conv_def init_Conv with_scale_def)
  have 4: "batched (org_module ?ad) ?x" by code_simp
  have 5: "train_input ?ad" "ungrouped (org_module ?ad)" by code_simp+
  have 6: "org_forward ?ad ?x
      = Inr \<lparr>shape = [1, 2, 2], data = [43021, 430210, 87065, 870650], device = ''cpu''\<rparr>"
    by code_simp
  have 7: "train_input ?ad \<longrightarrow> ungrouped (org_module ?ad) \<and> (\<exists>y. org_forward ?ad ?x = Inr y)"
    using 5 6 by simp
  have 8: "snd (forward (?ad\<lparr>bypass_mode := True\<rparr>) 0 ?x)
      = Inr \<lparr>shape = [1, 2, 2], data = [903231, 9032310, 1827715, 18277150], device = ''cpu''\<rparr>"
    by code_simp
  have 9: "bypass_forward ?ad ?x 1
      = Inr \<lparr>shape = [1, 2, 2], data = [903231, 9032310, 1827715, 18277150], device = ''cpu''\<rparr>"
    by code_simp
  have 10: "zero_padded (org_module ?ad)" by code_simp
  from bypass_equals_merged_forward [OF 1 2 3 4 7 10, of 1 0] show ?thesis
    using 1 2 4 5 6 8 9 10 by simp
qed

text \<open>
  On the grouped convolution of C5 with the input scaled, \<open>forward\<close> in bypass
  mode returns an output and \<open>forward\<close> in merged mode raises.
\<close>

lemma grouped_conv_forward_modes_differ:
  "forward ((example_adapter grouped_conv True [0, 0, 0, 0])\<lparr>bypass_mode := True\<rparr>) 0
     \<lparr>shape = [1, 4, 1], data = [1, 1, 1, 1], device = ''cpu''\<rparr>
     = (Bypass, Inr \<lparr>shape = [1, 4, 1], data = [3, 7, 11, 15], device = ''cpu''\<rparr>)
   \<and> forward ((example_adapter grouped_conv True [0, 0, 0, 0])\<lparr>bypass_mode := False\<rparr>) 0
     \<lparr>shape = [1, 4, 1], data = [1, 1, 1, 1], device = ''cpu''\<rparr>
     = (Merged, Inl ShapeError)"
  by code_simp


end
